(* ===== verification/Python_Float.thy ===== *)
theory Python_Float imports
  Complex_Main
  "HOL-Library.Log_Nat"
begin

text \<open>
  Python's numbers. A \<open>float\<close> is an IEEE 754 binary64 value: an exact rational, an infinity or the
  NaN. An operation computes the exact rational result and rounds it to the nearest double
  (\<open>fl64\<close>, ties to even, subnormals and overflow included), as the hardware does. The two zeros
  are one value. A value that may be an \<open>int\<close> or a \<open>float\<close>, as \<open>max(0, x)\<close> is, is a \<open>pynum\<close>.
\<close>

datatype pyfloat = Fin rat | PosInf | NegInf | NaN

section \<open>Rounding to an integer\<close>

text \<open>\<open>round(q)\<close>: the nearest integer, and the even one of two that are equally near.\<close>

definition round_half_even :: "rat \<Rightarrow> int" where
  "round_half_even q =
     (let f = \<lfloor>q\<rfloor>; r = q - of_int f in
      if r < 1 / 2 \<or> r = 1 / 2 \<and> even f then f else f + 1)"

lemma round_half_even_of_int [simp]: "round_half_even (of_int n) = n"
  by (simp add: round_half_even_def)

lemma round_half_even_numeral [simp]:
  "round_half_even 0 = 0" "round_half_even 1 = 1" "round_half_even (numeral k) = numeral k"
  using round_half_even_of_int [of 0] round_half_even_of_int [of 1]
    round_half_even_of_int [of "numeral k"] by simp_all

lemma round_half_even_cases: "round_half_even q = \<lfloor>q\<rfloor> \<or> round_half_even q = \<lfloor>q\<rfloor> + 1"
  by (simp add: round_half_even_def Let_def)

lemma round_half_even_dist: "\<bar>of_int (round_half_even q) - q\<bar> \<le> 1 / 2"
proof -
  have "of_int \<lfloor>q\<rfloor> \<le> q" "q < of_int \<lfloor>q\<rfloor> + 1" by linarith+
  then show ?thesis by (auto simp: round_half_even_def Let_def abs_le_iff)
qed

lemma round_half_even_mono:
  assumes "p \<le> q"
  shows "round_half_even p \<le> round_half_even q"
proof (cases "\<lfloor>p\<rfloor> = \<lfloor>q\<rfloor>")
  case True
  with assms show ?thesis by (auto simp: round_half_even_def Let_def)
next
  case False
  with assms have "\<lfloor>p\<rfloor> + 1 \<le> \<lfloor>q\<rfloor>" using floor_mono [OF assms] by linarith
  then show ?thesis using round_half_even_cases [of p] round_half_even_cases [of q] by linarith
qed

lemma round_half_even_le: "q \<le> of_int n \<Longrightarrow> round_half_even q \<le> n"
  using round_half_even_mono [of q "of_int n"] by simp

lemma round_half_even_ge: "of_int n \<le> q \<Longrightarrow> n \<le> round_half_even q"
  using round_half_even_mono [of "of_int n" q] by simp

section \<open>Rounding to a double\<close>

text \<open>The exponent \<open>k\<close> with \<open>2 ^ k \<le> q < 2 ^ (k + 1)\<close>, of a positive \<open>q\<close>.\<close>

definition binary_exponent :: "rat \<Rightarrow> int" where
  "binary_exponent q =
     (let k = bitlen (fst (quotient_of q)) - bitlen (snd (quotient_of q)) in
      if 2 powi k \<le> q then k else k - 1)"

text \<open>The exponent of the last of the 53 bits; the smallest doubles have a fixed one.\<close>

definition ulp_exponent :: "rat \<Rightarrow> int" where
  "ulp_exponent q = max (-1074) (binary_exponent q - 52)"

definition round_to_double :: "rat \<Rightarrow> rat" where
  "round_to_double q =
     of_int (round_half_even (q / 2 powi ulp_exponent q)) * 2 powi ulp_exponent q"

definition fl64 :: "rat \<Rightarrow> pyfloat" where
  "fl64 q =
     (let m = if q = 0 then 0 else round_to_double \<bar>q\<bar> in
      if 2 ^ 1024 \<le> m then (if q < 0 then NegInf else PosInf) else Fin (if q < 0 then - m else m))"

text \<open>The rationals that are doubles.\<close>

definition is_double :: "rat \<Rightarrow> bool" where
  "is_double q = (fl64 q = Fin q)"

lemma pow2_pos [simp]: "(0::rat) < 2 powi k"
  by simp

lemma pow2_le_iff [simp]: "(2::rat) powi a \<le> 2 powi b \<longleftrightarrow> a \<le> b"
  by (metis linorder_not_le one_less_numeral_iff power_int_strict_increasing power_int_increasing
      semiring_norm(76) less_eq_rat_def order_less_le)

lemma pow2_less_iff [simp]: "(2::rat) powi a < 2 powi b \<longleftrightarrow> a < b"
  by (meson linorder_not_le pow2_le_iff)

lemma pow2_add: "(2::rat) powi (a + b) = 2 powi a * 2 powi b"
  by (simp add: power_int_add)

lemma binary_exponent:
  assumes "0 < q"
  shows "2 powi binary_exponent q \<le> q" and "q < 2 powi (binary_exponent q + 1)"
proof -
  obtain a b where ab: "quotient_of q = (a, b)" by fastforce
  then have b: "0 < b" and q: "q = of_int a / of_int b"
    using quotient_of_denom_pos quotient_of_div by blast+
  with assms have a: "0 < a" by (simp add: zero_less_divide_iff)
  have pow: "(of_int (2 ^ nat k) :: rat) = 2 powi k" if "0 \<le> k" for k
    using that by (simp add: power_int_def)
  have len: "0 < bitlen a" "0 < bitlen b" using a b by (simp_all add: bitlen_alt_def)
  have A: "2 powi (bitlen a - 1) \<le> (of_int a :: rat)" "(of_int a :: rat) < 2 powi bitlen a"
    using bitlen_bounds [OF a] len pow [of "bitlen a - 1"] pow [of "bitlen a"]
    by (metis of_int_le_iff of_int_less_iff int_one_le_iff_zero_less diff_ge_0_iff_ge order_less_imp_le)+
  have B: "2 powi (bitlen b - 1) \<le> (of_int b :: rat)" "(of_int b :: rat) < 2 powi bitlen b"
    using bitlen_bounds [OF b] len pow [of "bitlen b - 1"] pow [of "bitlen b"]
    by (metis of_int_le_iff of_int_less_iff int_one_le_iff_zero_less diff_ge_0_iff_ge order_less_imp_le)+
  let ?k = "bitlen a - bitlen b"
  have "q * 2 powi bitlen b \<ge> q * of_int b"
    using B(2) assms by simp
  moreover have "q * of_int b = of_int a" using q b by simp
  ultimately have "2 powi (bitlen a - 1) \<le> q * 2 powi bitlen b" using A(1) by linarith
  then have lo: "2 powi (?k - 1) \<le> q"
    by (simp add: power_int_diff field_simps pow2_add)
  have "q * 2 powi (bitlen b - 1) \<le> q * of_int b" using B(1) assms by simp
  then have "q * 2 powi (bitlen b - 1) < 2 powi bitlen a"
    using A(2) \<open>q * of_int b = of_int a\<close> by linarith
  then have hi: "q < 2 powi (?k + 1)"
    by (simp add: power_int_diff power_int_add field_simps)
  show "2 powi binary_exponent q \<le> q" and "q < 2 powi (binary_exponent q + 1)"
    using lo hi by (auto simp: binary_exponent_def ab Let_def)
qed

lemma binary_exponent_eq:
  assumes "2 powi k \<le> q" and "q < 2 powi (k + 1)"
  shows "binary_exponent q = k"
proof -
  have "0 < q" using assms(1) pow2_pos [of k] by linarith
  from binary_exponent [OF this] assms
  have "(2::rat) powi k < 2 powi (binary_exponent q + 1)" "(2::rat) powi binary_exponent q < 2 powi (k + 1)"
    by linarith+
  then show ?thesis by simp
qed

lemma binary_exponent_mono:
  assumes "0 < p" and "p \<le> q"
  shows "binary_exponent p \<le> binary_exponent q"
proof -
  have "(2::rat) powi binary_exponent p < 2 powi (binary_exponent q + 1)"
    using binary_exponent(1) [OF assms(1)] binary_exponent(2) [of q] assms by linarith
  then show ?thesis by simp
qed

lemma round_to_double_mono:
  assumes "0 < p" and "p \<le> q"
  shows "round_to_double p \<le> round_to_double q"
proof (cases "ulp_exponent p = ulp_exponent q")
  case True
  with assms show ?thesis
    by (simp add: round_to_double_def round_half_even_mono divide_right_mono)
next
  case False
  let ?e = "ulp_exponent p" and ?e' = "ulp_exponent q"
  have less: "?e < ?e'"
    using False binary_exponent_mono [OF assms] by (auto simp: ulp_exponent_def max_def split: if_splits)
  have "p \<le> 2 powi (?e + 53)"
    using binary_exponent(2) [OF assms(1)]
    by (rule order_trans [OF order_less_imp_le]) (simp add: ulp_exponent_def)
  then have "p / 2 powi ?e \<le> of_int (2 ^ 53)"
    by (simp add: power_int_add field_simps)
  then have "round_half_even (p / 2 powi ?e) \<le> 2 ^ 53" by (rule round_half_even_le)
  then have "(of_int (round_half_even (p / 2 powi ?e)) :: rat) \<le> of_int (2 ^ 53)"
    by (simp only: of_int_le_iff)
  then have P: "round_to_double p \<le> 2 powi (?e + 53)"
    by (simp add: round_to_double_def power_int_add field_simps)
  have "?e' = binary_exponent q - 52"
    using less by (auto simp: ulp_exponent_def max_def split: if_splits)
  then have "2 powi (?e' + 52) \<le> q"
    using binary_exponent(1) [of q] assms by simp
  then have "of_int (2 ^ 52) \<le> q / 2 powi ?e'"
    by (simp add: power_int_add field_simps)
  then have "2 ^ 52 \<le> round_half_even (q / 2 powi ?e')" by (rule round_half_even_ge)
  then have "(of_int (2 ^ 52) :: rat) \<le> of_int (round_half_even (q / 2 powi ?e'))"
    by (simp only: of_int_le_iff)
  then have Q: "2 powi (?e' + 52) \<le> round_to_double q"
    by (simp add: round_to_double_def power_int_add field_simps)
  have "(2::rat) powi (?e + 53) \<le> 2 powi (?e' + 52)" using less by simp
  with P Q show ?thesis by linarith
qed

lemma round_to_double_exact:
  assumes "0 < q" and "q = of_int m * 2 powi e" and "m \<le> 2 ^ 53" and "-1074 \<le> e"
  shows "round_to_double q = q"
proof -
  have "(of_int m :: rat) \<le> of_int (2 ^ 53)" using assms(3) by (simp only: of_int_le_iff)
  then have le: "q \<le> 2 powi (e + 53)"
    by (simp add: assms(2) power_int_add)
  have int: "round_to_double q = q" if "q = of_int n * 2 powi ulp_exponent q" for n
    using that by (simp add: round_to_double_def) (metis divide_divide_eq_right nonzero_mult_div_cancel_right
        pow2_pos order_less_irrefl round_half_even_of_int)
  show ?thesis
  proof (cases "q = 2 powi (e + 53)")
    case True
    then have "binary_exponent q = e + 53" by (intro binary_exponent_eq) simp_all
    then have "ulp_exponent q = e + 1" using assms(4) by (simp add: ulp_exponent_def)
    then show ?thesis
      using True by (intro int [of "2 ^ 52"]) (simp add: power_int_add)
  next
    case False
    with le have "(2::rat) powi binary_exponent q < 2 powi (e + 53)"
      using binary_exponent(1) [OF assms(1)] by linarith
    then have "ulp_exponent q \<le> e" using assms(4) by (simp add: ulp_exponent_def)
    then obtain d where "e = ulp_exponent q + int d" by (metis zle_iff_zadd)
    then show ?thesis
      using assms(2) by (intro int [of "m * 2 ^ d"]) (metis (no_types, lifting) mult.assoc mult.commute
          of_int_mult of_int_numeral of_int_power pow2_add power_int_of_nat)
  qed
qed

lemma round_to_double_nonneg: "0 < q \<Longrightarrow> 0 \<le> round_to_double q"
  by (simp add: round_to_double_def round_half_even_ge)

text \<open>What rounding yields is a double again.\<close>

lemma round_to_double_form:
  assumes "0 < q"
  obtains m e where "round_to_double q = of_int m * 2 powi e" and "0 \<le> m" and "m \<le> 2 ^ 53"
    and "-1074 \<le> e"
proof
  show "round_to_double q =
      of_int (round_half_even (q / 2 powi ulp_exponent q)) * 2 powi ulp_exponent q"
    by (rule round_to_double_def)
  have "q \<le> 2 powi (ulp_exponent q + 53)"
    using binary_exponent(2) [OF assms]
    by (rule order_trans [OF order_less_imp_le]) (simp add: ulp_exponent_def)
  then have "q / 2 powi ulp_exponent q \<le> of_int (2 ^ 53)" by (simp add: power_int_add field_simps)
  then show "round_half_even (q / 2 powi ulp_exponent q) \<le> 2 ^ 53" by (rule round_half_even_le)
  show "0 \<le> round_half_even (q / 2 powi ulp_exponent q)"
    using assms by (intro round_half_even_ge) simp
  show "-1074 \<le> ulp_exponent q" by (simp add: ulp_exponent_def)
qed

lemma round_to_double_idem:
  assumes "0 < q" and "round_to_double q \<noteq> 0"
  shows "round_to_double (round_to_double q) = round_to_double q"
proof -
  obtain m e where "round_to_double q = of_int m * 2 powi e" "0 \<le> m" "m \<le> 2 ^ 53" "-1074 \<le> e"
    by (rule round_to_double_form [OF assms(1)])
  then show ?thesis
    using assms round_to_double_nonneg [OF assms(1)] by (intro round_to_double_exact) auto
qed

lemma scaled_le_pow2:
  assumes "\<bar>m\<bar> \<le> 2 ^ 53" and "e \<le> 970"
  shows "\<bar>of_int m * 2 powi e\<bar> \<le> (2::rat) ^ 1023"
proof -
  have "\<bar>of_int m :: rat\<bar> \<le> of_int (2 ^ 53)" using assms(1) by (simp only: of_int_le_iff flip: of_int_abs)
  moreover have "(2::rat) powi e \<le> 2 powi 970" using assms(2) by (simp only: pow2_le_iff)
  ultimately have "\<bar>of_int m :: rat\<bar> * 2 powi e \<le> of_int (2 ^ 53) * 2 powi 970"
    by (rule mult_mono) simp_all
  then show ?thesis
    by (simp only: abs_mult abs_of_pos [OF pow2_pos] power_int_numeral of_int_power of_int_numeral
        flip: power_add) simp
qed

lemma pow2_1023_less: "(2::rat) ^ 1023 \<le> 2 ^ 1024 - 2 ^ 971" "(2::rat) ^ 1023 < 2 ^ 1024"
  by simp_all

text \<open>The largest double is \<open>2 ^ 1024 - 2 ^ 971\<close>; what lies more than half a step above it overflows.\<close>

lemma round_to_double_finite:
  assumes "0 < q" and "q < 2 ^ 1024 - 2 ^ 970"
  shows "round_to_double q < 2 ^ 1024"
proof (cases "ulp_exponent q = 971")
  case True
  have two: "(2::rat) ^ 1024 = 2 ^ 54 * 2 ^ 970" by (simp flip: power_add)
  have "q / 2 powi 971 < of_int (2 ^ 53) - 1 / 2"
    using assms(2) unfolding two by (simp add: field_simps power_int_def)
  moreover have "\<bar>of_int (round_half_even (q / 2 powi 971)) - q / 2 powi 971\<bar> \<le> 1 / 2"
    by (rule round_half_even_dist)
  ultimately have "(of_int (round_half_even (q / 2 powi 971)) :: rat) < of_int (2 ^ 53)" by linarith
  then show ?thesis using True unfolding round_to_double_def two by (simp add: power_int_def)
next
  case False
  have "(0::rat) < 2 ^ 970" by (rule zero_less_power) simp
  with assms(2) have "q < 2 ^ 1024" by linarith
  then have "q < 2 powi 1024" by (simp add: power_int_def)
  then have "(2::rat) powi binary_exponent q < 2 powi 1024"
    using binary_exponent(1) [OF assms(1)] by linarith
  then have "binary_exponent q < 1024" by (simp only: pow2_less_iff)
  with False have le: "ulp_exponent q \<le> 970"
    by (auto simp: ulp_exponent_def max_def split: if_splits)
  obtain m where m: "round_to_double q = of_int m * 2 powi ulp_exponent q" "m \<le> 2 ^ 53" "0 \<le> m"
  proof
    show "round_to_double q = of_int (round_half_even (q / 2 powi ulp_exponent q)) * 2 powi ulp_exponent q"
      by (rule round_to_double_def)
    have "q \<le> 2 powi (ulp_exponent q + 53)"
      using binary_exponent(2) [OF assms(1)]
      by (rule order_trans [OF order_less_imp_le]) (simp add: ulp_exponent_def)
    then have "q / 2 powi ulp_exponent q \<le> of_int (2 ^ 53)" by (simp add: pow2_add field_simps)
    then show "round_half_even (q / 2 powi ulp_exponent q) \<le> 2 ^ 53" by (rule round_half_even_le)
    show "0 \<le> round_half_even (q / 2 powi ulp_exponent q)"
      using assms by (intro round_half_even_ge) simp
  qed
  have "\<bar>round_to_double q\<bar> \<le> 2 ^ 1023"
    unfolding m(1) using m(2,3) le by (intro scaled_le_pow2) simp_all
  then have "round_to_double q \<le> 2 ^ 1023" by (rule order_trans [OF abs_ge_self])
  then show ?thesis using pow2_1023_less(2) by (rule order_le_less_trans)
qed

lemma fl64_zero [simp]: "fl64 0 = Fin 0"
  by (simp add: fl64_def)

fun flt_neg :: "pyfloat \<Rightarrow> pyfloat" where
  "flt_neg (Fin a) = Fin (- a)"
| "flt_neg PosInf = NegInf"
| "flt_neg NegInf = PosInf"
| "flt_neg NaN = NaN"

lemma fl64_minus: "fl64 (- q) = flt_neg (fl64 q)"
  by (auto simp: fl64_def Let_def)

lemma fl64_pos: "0 < q \<Longrightarrow> fl64 q = (if 2 ^ 1024 \<le> round_to_double q then PosInf else Fin (round_to_double q))"
  by (simp add: fl64_def)

lemma fl64_not_NaN [simp]: "fl64 q \<noteq> NaN"
  by (auto simp: fl64_def Let_def)

fun flt_le :: "pyfloat \<Rightarrow> pyfloat \<Rightarrow> bool" where
  "flt_le NaN _ = False"
| "flt_le _ NaN = False"
| "flt_le NegInf _ = True"
| "flt_le _ PosInf = True"
| "flt_le (Fin a) (Fin b) = (a \<le> b)"
| "flt_le _ _ = False"

lemma flt_le_neg: "flt_le (flt_neg x) (flt_neg y) = flt_le y x"
  by (cases x; cases y) simp_all

lemma flt_le_trans: "flt_le x y \<Longrightarrow> flt_le y z \<Longrightarrow> flt_le x z"
  by (cases x; cases y; cases z) simp_all

lemma fl64_mono_pos: "0 < p \<Longrightarrow> p \<le> q \<Longrightarrow> flt_le (fl64 p) (fl64 q)"
  using round_to_double_mono [of p q] by (auto simp: fl64_pos)

lemma fl64_sign: "0 \<le> q \<Longrightarrow> flt_le (Fin 0) (fl64 q)"
  using round_to_double_nonneg [of q] by (cases "q = 0") (auto simp: fl64_pos)

text \<open>Rounding is monotone.\<close>

lemma fl64_mono:
  assumes "p \<le> q"
  shows "flt_le (fl64 p) (fl64 q)"
proof -
  consider "0 < p" | "p \<le> 0" "0 \<le> q" | "q < 0" by linarith
  then show ?thesis
  proof cases
    case 1
    then show ?thesis using assms by (rule fl64_mono_pos)
  next
    case 2
    have "flt_le (flt_neg (Fin 0)) (flt_neg (fl64 p))"
      using fl64_sign [of "- p"] 2 by (simp add: fl64_minus)
    then have "flt_le (fl64 p) (Fin 0)" by (simp only: flt_le_neg)
    then show ?thesis using fl64_sign [OF 2(2)] by (rule flt_le_trans)
  next
    case 3
    then have "flt_le (fl64 (- q)) (fl64 (- p))" using assms by (intro fl64_mono_pos) simp_all
    then show ?thesis by (simp add: fl64_minus flt_le_neg)
  qed
qed

lemma fl64_finite:
  assumes "\<bar>q\<bar> < 2 ^ 1024 - 2 ^ 970"
  shows "\<exists>r. fl64 q = Fin r"
  using round_to_double_finite [of "\<bar>q\<bar>"] assms
  by (cases "q = 0") (auto simp: fl64_def Let_def not_le)

lemma is_double_exact:
  assumes "q = of_int m * 2 powi e" and "\<bar>m\<bar> \<le> 2 ^ 53" and "-1074 \<le> e" and "\<bar>q\<bar> < 2 ^ 1024"
  shows "is_double q"
proof (cases "q = 0")
  case False
  then have "round_to_double \<bar>q\<bar> = \<bar>q\<bar>"
    using assms by (intro round_to_double_exact [of _ "\<bar>m\<bar>" e]) (simp_all add: abs_mult)
  then show ?thesis using assms(4) False by (auto simp: is_double_def fl64_def Let_def)
qed (simp add: is_double_def)

lemma is_double_of_int: "\<bar>n\<bar> \<le> 2 ^ 53 \<Longrightarrow> is_double (of_int n)"
proof (rule is_double_exact [of _ n 0])
  assume "\<bar>n\<bar> \<le> 2 ^ 53"
  then have "(of_int \<bar>n\<bar> :: rat) \<le> of_int (2 ^ 53)" by (simp only: of_int_le_iff)
  also have "(of_int (2 ^ 53) :: rat) < 2 ^ 1024" by simp
  finally show "\<bar>of_int n :: rat\<bar> < 2 ^ 1024" by simp
qed simp_all

lemma is_double_0 [simp]: "is_double 0"
  by (simp add: is_double_def)

lemma is_double_minus [simp]: "is_double (- q) = is_double q"
  by (cases "fl64 q") (auto simp: is_double_def fl64_minus)

text \<open>A double has at most 53 significant bits and is below \<open>2 ^ 1024\<close>.\<close>

lemma is_double_form:
  assumes "fl64 q = Fin r"
  obtains m e where "r = of_int m * 2 powi e" and "\<bar>m\<bar> \<le> 2 ^ 53" and "-1074 \<le> e" and "\<bar>r\<bar> < 2 ^ 1024"
proof (cases "q = 0")
  case True
  with assms have "r = 0" by simp
  then show thesis by (intro that [of 0 0]) simp_all
next
  case False
  then obtain m e where me: "round_to_double \<bar>q\<bar> = of_int m * 2 powi e" "0 \<le> m" "m \<le> 2 ^ 53" "-1074 \<le> e"
    using round_to_double_form [of "\<bar>q\<bar>"] by auto
  have r: "r = (if q < 0 then - round_to_double \<bar>q\<bar> else round_to_double \<bar>q\<bar>)"
    and lt: "round_to_double \<bar>q\<bar> < 2 ^ 1024"
    using assms False by (auto simp: fl64_def Let_def not_le split: if_splits)
  have nn: "0 \<le> round_to_double \<bar>q\<bar>" using False by (intro round_to_double_nonneg) simp
  show thesis
    by (rule that [of "if q < 0 then - m else m" e]) (use me r lt nn in auto)
qed

text \<open>The result of an operation is a double again.\<close>

lemma fl64_double:
  assumes "fl64 q = Fin r"
  shows "is_double r"
  using assms by (rule is_double_form) (rule is_double_exact)

lemma fl64_between:
  assumes "is_double a" and "is_double b" and "a \<le> q" and "q \<le> b"
  obtains r where "fl64 q = Fin r" and "a \<le> r" and "r \<le> b" and "is_double r"
  using fl64_mono [OF assms(3)] fl64_mono [OF assms(4)] assms(1,2) fl64_double [of q]
  by (cases "fl64 q") (auto simp: is_double_def)

lemma is_double_max:
  assumes "is_double q"
  shows "\<bar>q\<bar> \<le> 2 ^ 1024 - 2 ^ 971"
proof -
  obtain m e where me: "q = of_int m * 2 powi e" "\<bar>m\<bar> \<le> 2 ^ 53" "-1074 \<le> e" "\<bar>q\<bar> < 2 ^ 1024"
    using assms unfolding is_double_def by (rule is_double_form)
  have two: "(2::rat) ^ 1024 = 2 ^ 53 * 2 ^ 971" by (simp flip: power_add)
  show ?thesis
  proof (cases "971 \<le> e")
    case True
    then obtain d where "e = 971 + int d" by (metis zle_iff_zadd)
    then have "(2::rat) powi e = 2 ^ d * 2 ^ 971"
      using pow2_add [of 971 "int d"] by (simp only: power_int_numeral power_int_of_nat mult.commute)
    then have q: "\<bar>q\<bar> = of_int (\<bar>m\<bar> * 2 ^ d) * 2 ^ 971"
      using me(1) by (simp only: abs_mult of_int_mult of_int_abs of_int_power of_int_numeral
          power_abs abs_numeral mult.assoc)
    with me(4) two have "(of_int (\<bar>m\<bar> * 2 ^ d) :: rat) < of_int (2 ^ 53)"
      by simp
    then have "\<bar>m\<bar> * 2 ^ d \<le> 2 ^ 53 - 1" by (simp only: of_int_less_iff)
    then have "(of_int (\<bar>m\<bar> * 2 ^ d) :: rat) \<le> of_int (2 ^ 53 - 1)" by (simp only: of_int_le_iff)
    then have "\<bar>q\<bar> \<le> of_int (2 ^ 53 - 1) * 2 ^ 971" unfolding q by (rule mult_right_mono) simp
    also have "\<dots> = 2 ^ 1024 - 2 ^ 971" unfolding two by (simp add: left_diff_distrib)
    finally show ?thesis .
  next
    case False
    have "\<bar>q\<bar> \<le> 2 ^ 1023"
      unfolding me(1) using me(2) False by (intro scaled_le_pow2) simp_all
    then show ?thesis using pow2_1023_less by linarith
  qed
qed

text \<open>The error of one rounding.\<close>

lemma is_double_180: "is_double 180" and is_double_360: "is_double 360"
  using is_double_of_int [of 180] is_double_of_int [of 360] by simp_all

lemma scale_error: "\<bar>n - q / u\<bar> \<le> 1 / 2 \<Longrightarrow> 0 < u \<Longrightarrow> \<bar>n * u - q\<bar> \<le> 1 / 2 * u" for u :: rat
  by (auto simp: abs_le_iff field_simps)

lemma fl64_error:
  assumes "fl64 q = Fin r" and "\<bar>q\<bar> < 2 powi k" and "- 1021 \<le> k"
  shows "\<bar>r - q\<bar> \<le> 2 powi (k - 54)"
proof (cases "q = 0")
  case False
  let ?e = "ulp_exponent \<bar>q\<bar>"
  have "(2::rat) powi binary_exponent \<bar>q\<bar> < 2 powi k"
    using binary_exponent(1) [of "\<bar>q\<bar>"] False assms(2) by linarith
  then have le: "?e \<le> k - 53" using assms(3) by (auto simp: ulp_exponent_def)
  have "\<bar>round_to_double \<bar>q\<bar> - \<bar>q\<bar>\<bar> \<le> 1 / 2 * 2 powi ?e"
    unfolding round_to_double_def by (intro scale_error round_half_even_dist pow2_pos)
  also have "\<dots> \<le> 1 / 2 * 2 powi (k - 53)" using le by (intro mult_left_mono) simp_all
  also have "\<dots> = 2 powi (k - 54)" using pow2_add [of "k - 54" 1] by simp
  finally have "\<bar>round_to_double \<bar>q\<bar> - \<bar>q\<bar>\<bar> \<le> 2 powi (k - 54)" .
  then show ?thesis using assms(1) False by (auto simp: fl64_def Let_def split: if_splits)
qed (use assms in simp)

lemma fl64_times4:
  assumes "fl64 q = Fin r" and "\<bar>r\<bar> \<le> 2 powi 1000"
  shows "fl64 (4 * r) = Fin (4 * r)"
proof -
  obtain m e where me: "r = of_int m * 2 powi e" "\<bar>m\<bar> \<le> 2 ^ 53" "- 1074 \<le> e"
    using assms(1) by (rule is_double_form)
  have "4 * \<bar>r\<bar> < 2 ^ 1024" using assms(2) by simp
  then have "is_double (4 * r)"
    using me by (intro is_double_exact [of _ m "e + 2"]) (simp_all add: pow2_add abs_mult)
  then show ?thesis by (simp add: is_double_def)
qed

lemma fl64_quarter: "fl64 (1 / 4) = Fin (1 / 4)"
proof -
  have "is_double (1 / 4)"
    by (rule is_double_exact [of _ 1 "- 2"]) (simp_all add: power_int_def power_one_over)
  then show ?thesis by (simp add: is_double_def)
qed

section \<open>Arithmetic\<close>

fun flt_lt :: "pyfloat \<Rightarrow> pyfloat \<Rightarrow> bool" where
  "flt_lt NaN _ = False"
| "flt_lt _ NaN = False"
| "flt_lt _ NegInf = False"
| "flt_lt PosInf _ = False"
| "flt_lt (Fin a) (Fin b) = (a < b)"
| "flt_lt _ _ = True"

fun flt_add :: "pyfloat \<Rightarrow> pyfloat \<Rightarrow> pyfloat" where
  "flt_add (Fin a) (Fin b) = fl64 (a + b)"
| "flt_add NaN _ = NaN"
| "flt_add _ NaN = NaN"
| "flt_add PosInf NegInf = NaN"
| "flt_add NegInf PosInf = NaN"
| "flt_add PosInf _ = PosInf"
| "flt_add _ PosInf = PosInf"
| "flt_add NegInf _ = NegInf"
| "flt_add _ NegInf = NegInf"

definition flt_sub :: "pyfloat \<Rightarrow> pyfloat \<Rightarrow> pyfloat" where
  "flt_sub x y = flt_add x (flt_neg y)"

text \<open>An infinity with the sign of \<open>q\<close>.\<close>

definition flt_inf :: "rat \<Rightarrow> pyfloat" where
  "flt_inf q = (if q = 0 then NaN else if q < 0 then NegInf else PosInf)"

fun flt_mul :: "pyfloat \<Rightarrow> pyfloat \<Rightarrow> pyfloat" where
  "flt_mul (Fin a) (Fin b) = fl64 (a * b)"
| "flt_mul NaN _ = NaN"
| "flt_mul _ NaN = NaN"
| "flt_mul PosInf (Fin b) = flt_inf b"
| "flt_mul NegInf (Fin b) = flt_inf (- b)"
| "flt_mul (Fin a) PosInf = flt_inf a"
| "flt_mul (Fin a) NegInf = flt_inf (- a)"
| "flt_mul PosInf x = x"
| "flt_mul NegInf x = flt_neg x"

text \<open>Division by a finite number that is not zero.\<close>

fun flt_div :: "pyfloat \<Rightarrow> rat \<Rightarrow> pyfloat" where
  "flt_div (Fin a) b = fl64 (a / b)"
| "flt_div NaN b = NaN"
| "flt_div PosInf b = flt_inf b"
| "flt_div NegInf b = flt_inf (- b)"

text \<open>
  \<open>x % b\<close> for a positive \<open>b\<close>, as CPython computes it: the remainder of the truncating division,
  which is exact, and \<open>b\<close> added to it, which rounds, when it is negative.
\<close>

definition trunc_rem :: "rat \<Rightarrow> rat \<Rightarrow> rat" where
  "trunc_rem a b = (if 0 \<le> a then a - b * of_int \<lfloor>a / b\<rfloor> else a - b * of_int \<lceil>a / b\<rceil>)"

fun flt_mod :: "pyfloat \<Rightarrow> rat \<Rightarrow> pyfloat" where
  "flt_mod (Fin a) b = (let m = trunc_rem a b in if m < 0 then fl64 (m + b) else Fin m)"
| "flt_mod _ b = NaN"

lemma trunc_rem_bounds:
  assumes "0 < b"
  shows "- b < trunc_rem a b" and "trunc_rem a b < b"
proof -
  have f: "b * of_int \<lfloor>a / b\<rfloor> \<le> a" "a < b * (of_int \<lfloor>a / b\<rfloor> + 1)"
    using floor_divide_lower [OF assms, of a] floor_divide_upper [OF assms, of a]
    by (simp_all add: mult.commute)
  have c: "a \<le> b * of_int \<lceil>a / b\<rceil>" "b * (of_int \<lceil>a / b\<rceil> - 1) < a"
    using ceiling_divide_upper [OF assms, of a] ceiling_divide_lower [OF assms, of a]
    by (simp_all add: mult.commute)
  show "- b < trunc_rem a b" and "trunc_rem a b < b"
    using f c assms by (auto simp: trunc_rem_def algebra_simps)
qed

lemma flt_mod_range:
  assumes "0 < b" and "is_double b"
  obtains m where "flt_mod (Fin a) b = Fin m" and "0 \<le> m" and "m \<le> b"
proof (cases "trunc_rem a b < 0")
  case True
  then have "0 \<le> trunc_rem a b + b" "trunc_rem a b + b \<le> b"
    using trunc_rem_bounds [OF assms(1), of a] by linarith+
  from fl64_between [OF is_double_0 assms(2) this] True show thesis
    by (metis flt_mod.simps(1) that)
next
  case False
  then show thesis using trunc_rem_bounds [OF assms(1), of a] by (intro that) (auto simp: Let_def)
qed

section \<open>Numbers that are an int or a float\<close>

datatype pynum = NInt int | NFlt pyfloat

text \<open>Ints and floats are compared by their exact values.\<close>

fun num_val :: "pynum \<Rightarrow> pyfloat" where
  "num_val (NInt i) = Fin (of_int i)"
| "num_val (NFlt x) = x"

text \<open>\<open>float(n)\<close>, which is also how an \<open>int\<close> meets a \<open>float\<close> in arithmetic and how pydantic
  stores one in a float field. The ints of this program are small.\<close>

fun num_float :: "pynum \<Rightarrow> pyfloat" where
  "num_float (NInt i) = fl64 (of_int i)"
| "num_float (NFlt x) = x"

text \<open>\<open>max(a, b)\<close> and \<open>min(a, b)\<close> keep the first of equal arguments.\<close>

definition num_max :: "pynum \<Rightarrow> pynum \<Rightarrow> pynum" where
  "num_max a b = (if flt_lt (num_val a) (num_val b) then b else a)"

definition num_min :: "pynum \<Rightarrow> pynum \<Rightarrow> pynum" where
  "num_min a b = (if flt_lt (num_val b) (num_val a) then b else a)"

text \<open>
  \<open>round(x, n)\<close> for \<open>0 < n\<close>: CPython rounds the exact value to \<open>n\<close> decimals, ties to even, and
  takes the nearest double; an \<open>int\<close>, an infinity and the NaN are returned as they are.
\<close>

fun py_round :: "nat \<Rightarrow> pynum \<Rightarrow> pynum" where
  "py_round n (NFlt (Fin q)) = NFlt (fl64 (of_int (round_half_even (q * 10 ^ n)) / 10 ^ n))"
| "py_round n x = x"

text \<open>\<open>round(x)\<close> is an \<open>int\<close>; it raises on the values that are none.\<close>

datatype float_error = RoundNaN | RoundInfinity | DivisionByZero

fun py_round_int :: "pyfloat \<Rightarrow> float_error + int" where
  "py_round_int (Fin q) = Inr (round_half_even q)"
| "py_round_int NaN = Inl RoundNaN"
| "py_round_int _ = Inl RoundInfinity"

lemma decimal_mono:
  "p \<le> q \<Longrightarrow> (of_int (round_half_even (p * 10 ^ n)) :: rat) / 10 ^ n \<le> of_int (round_half_even (q * 10 ^ n)) / 10 ^ n"
  by (intro divide_right_mono) (simp_all add: round_half_even_mono)

text \<open>A bound with \<open>n\<close> decimals survives rounding to \<open>n\<close> decimals, and so does its double.\<close>

lemma decimal_le:
  assumes "q * 10 ^ n \<le> of_int k"
  shows "(of_int (round_half_even (q * 10 ^ n)) :: rat) / 10 ^ n \<le> of_int k / 10 ^ n"
  using round_half_even_le [OF assms] by (intro divide_right_mono) simp_all

lemma decimal_ge:
  assumes "of_int k \<le> q * 10 ^ n"
  shows "of_int k / 10 ^ n \<le> (of_int (round_half_even (q * 10 ^ n)) :: rat) / 10 ^ n"
  using round_half_even_ge [OF assms] by (intro divide_right_mono) simp_all

end
