(* ===== verification/Prelude.thy ===== *)
theory Prelude imports
  Python_Float
  "HOL-Library.AList"
  "HOL-Library.Char_ord"
  "HOL-Library.List_Lexorder"
  "HOL-Library.Product_Lexorder"
  "HOL-Library.Multiset"
begin

text \<open>
  Vocabulary shared by every component: Python's numbers, truth values, strings, dicts and sorting
  as the backend uses them, and the state-exception type in which the handlers are written.

  \<^item> A handler is a function from a state to a result and a state: \<open>Inl\<close> is the exception that
    left it, \<open>Inr\<close> its value. The state is returned in both cases, since what Python did before
    it raised stays done.
  \<^item> A dict is an association list read with \<^const>\<open>map_of\<close> and written with \<^const>\<open>AList.update\<close>
    and \<^const>\<open>AList.delete\<close>: as in Python a new key goes to the end and an old key keeps its
    place.
  \<^item> Floats and their arithmetic are those of \<open>Python_Float\<close>.
\<close>

named_theorems run_simps \<open>unfolding rules that execute a handler\<close>
named_theorems wf_simps \<open>the clauses of the well-formedness predicates\<close>

section \<open>Handlers: state and exceptions\<close>

type_synonym ('s, 'e, 'a) handler = "'s \<Rightarrow> ('e + 'a) \<times> 's"

definition returnM :: "'a \<Rightarrow> ('s, 'e, 'a) handler" where
  "returnM x = (\<lambda>s. (Inr x, s))"

definition raiseM :: "'e \<Rightarrow> ('s, 'e, 'a) handler" where
  "raiseM e = (\<lambda>s. (Inl e, s))"

definition bindM :: "('s, 'e, 'a) handler \<Rightarrow> ('a \<Rightarrow> ('s, 'e, 'b) handler) \<Rightarrow> ('s, 'e, 'b) handler" where
  "bindM m f = (\<lambda>s. case m s of (Inl e, s') \<Rightarrow> (Inl e, s') | (Inr x, s') \<Rightarrow> f x s')"

definition catchM :: "('s, 'e, 'a) handler \<Rightarrow> ('e \<Rightarrow> ('s, 'e, 'a) handler) \<Rightarrow> ('s, 'e, 'a) handler" where
  "catchM m h = (\<lambda>s. case m s of (Inl e, s') \<Rightarrow> h e s' | (Inr x, s') \<Rightarrow> (Inr x, s'))"

definition modifyM :: "('s \<Rightarrow> 's) \<Rightarrow> ('s, 'e, unit) handler" where
  "modifyM f = (\<lambda>s. (Inr (), f s))"

definition liftM :: "'e + 'a \<Rightarrow> ('s, 'e, 'a) handler" where
  "liftM r = (\<lambda>s. (r, s))"

lemma returnM_run [simp, run_simps]: "returnM x s = (Inr x, s)"
  by (simp add: returnM_def)

lemma raiseM_run [simp, run_simps]: "raiseM e s = (Inl e, s)"
  by (simp add: raiseM_def)

lemma modifyM_run [simp, run_simps]: "modifyM f s = (Inr (), f s)"
  by (simp add: modifyM_def)

lemma liftM_run [simp, run_simps]: "liftM r s = (r, s)"
  by (simp add: liftM_def)

lemma bindM_Inr: "m s = (Inr x, s') \<Longrightarrow> bindM m f s = f x s'"
  by (simp add: bindM_def)

lemma bindM_Inl: "m s = (Inl e, s') \<Longrightarrow> bindM m f s = (Inl e, s')"
  by (simp add: bindM_def)

lemma bindM_return [simp]: "bindM (returnM x) f = f x"
  by (rule ext) (simp add: bindM_def)

lemma bindM_raise [simp]: "bindM (raiseM e) f = raiseM e"
  by (rule ext) (simp add: bindM_def)

lemma bindM_modify [simp]: "bindM (modifyM g) f s = f () (g s)"
  by (simp add: bindM_def)

text \<open>The ways a sequence of two handlers can end.\<close>

lemma bindM_cases:
  assumes "bindM m f s = (r, s2)"
  obtains (raised) e where "m s = (Inl e, s2)" and "r = Inl e"
  | (returned) x s1 where "m s = (Inr x, s1)" and "f x s1 = (r, s2)"
  using assms unfolding bindM_def by (auto split: prod.splits sum.splits)

lemma catchM_cases:
  assumes "catchM m h s = (r, s2)"
  obtains (raised) e s1 where "m s = (Inl e, s1)" and "h e s1 = (r, s2)"
  | (returned) x where "m s = (Inr x, s2)" and "r = Inr x"
  using assms unfolding catchM_def by (auto split: prod.splits sum.splits)

text \<open>Code that raises but changes no state is a sum; \<open>bindE\<close> runs it in sequence, and \<open>mapE\<close> is a
  list comprehension whose element expression may raise.\<close>

fun bindE :: "'e + 'a \<Rightarrow> ('a \<Rightarrow> 'e + 'b) \<Rightarrow> 'e + 'b" where
  "bindE (Inl e) f = Inl e"
| "bindE (Inr x) f = f x"

fun mapE :: "('a \<Rightarrow> 'e + 'b) \<Rightarrow> 'a list \<Rightarrow> 'e + 'b list" where
  "mapE f [] = Inr []"
| "mapE f (x # xs) = bindE (f x) (\<lambda>y. bindE (mapE f xs) (\<lambda>ys. Inr (y # ys)))"

lemma bindE_Inr: "bindE r f = Inr y \<longleftrightarrow> (\<exists>x. r = Inr x \<and> f x = Inr y)"
  by (cases r) auto

lemma bindE_Inl: "bindE r f = Inl e \<longleftrightarrow> r = Inl e \<or> (\<exists>x. r = Inr x \<and> f x = Inl e)"
  by (cases r) auto

lemma mapE_Inr: "mapE f xs = Inr ys \<Longrightarrow> list_all2 (\<lambda>x y. f x = Inr y) xs ys"
  by (induction xs arbitrary: ys) (auto simp: bindE_Inr)

lemma mapE_total: "(\<And>x. x \<in> set xs \<Longrightarrow> \<exists>y. f x = Inr y) \<Longrightarrow> \<exists>ys. mapE f xs = Inr ys"
proof (induction xs)
  case (Cons x xs)
  then obtain y ys where "f x = Inr y" "mapE f xs = Inr ys" by (meson list.set_intros)
  then show ?case by simp
qed simp

lemma mapE_in: "mapE f xs = Inr ys \<Longrightarrow> y \<in> set ys \<Longrightarrow> \<exists>x\<in>set xs. f x = Inr y"
  using mapE_Inr by (fastforce simp: list_all2_conv_all_nth in_set_conv_nth)

lemma mapE_Inl: "mapE f xs = Inl e \<Longrightarrow> \<exists>x\<in>set xs. f x = Inl e"
  by (induction xs) (auto simp: bindE_Inl)

lemma list_all2_imp_map: "list_all2 (\<lambda>x y. f x = g y) xs ys \<Longrightarrow> map g ys = map f xs"
  by (induction xs ys rule: list_all2_induct) auto

section \<open>Floats\<close>

text \<open>The chained comparison \<open>lo <= x <= hi\<close>.\<close>

definition flt_between :: "rat \<Rightarrow> pyfloat \<Rightarrow> rat \<Rightarrow> bool" where
  "flt_between lo x hi = (flt_le (Fin lo) x \<and> flt_le x (Fin hi))"

lemma flt_between_iff: "flt_between lo x hi = (\<exists>q. x = Fin q \<and> lo \<le> q \<and> q \<le> hi)"
  by (cases x) (auto simp: flt_between_def)

definition flt_finite :: "pyfloat \<Rightarrow> bool" where
  "flt_finite x = (case x of Fin _ \<Rightarrow> True | _ \<Rightarrow> False)"

section \<open>Strings\<close>

text \<open>\<open>a or b\<close> on strings and on optional strings: the empty string and \<open>None\<close> are false.\<close>

definition str_or :: "string \<Rightarrow> string \<Rightarrow> string" where
  "str_or a b = (if a = [] then b else a)"

definition opt_str_or :: "string option \<Rightarrow> string \<Rightarrow> string" where
  "opt_str_or a b = (case a of None \<Rightarrow> b | Some s \<Rightarrow> str_or s b)"

lemma opt_str_or_nonempty: "b \<noteq> [] \<Longrightarrow> opt_str_or a b \<noteq> []"
  by (auto simp: opt_str_or_def str_or_def split: option.splits)

definition py_space :: "char \<Rightarrow> bool" where
  "py_space c = (c \<in> {CHR '' '', CHR 0x09, CHR 0x0A, CHR 0x0B, CHR 0x0C, CHR 0x0D})"

definition strip_chars :: "(char \<Rightarrow> bool) \<Rightarrow> string \<Rightarrow> string" where
  "strip_chars p s = rev (dropWhile p (rev (dropWhile p s)))"

definition py_strip :: "string \<Rightarrow> string" where
  "py_strip s = strip_chars py_space s"

lemma strip_chars_id: "\<forall>c\<in>set s. \<not> p c \<Longrightarrow> strip_chars p s = s"
proof -
  assume a: "\<forall>c\<in>set s. \<not> p c"
  then have "dropWhile p s = s" and "dropWhile p (rev s) = rev s"
    by (simp_all add: dropWhile_eq_self_iff) (metis hd_in_set set_rev rev_is_Nil_conv)+
  then show ?thesis by (simp add: strip_chars_def)
qed

lemma set_strip_chars: "set (strip_chars p s) \<subseteq> set s"
  unfolding strip_chars_def by (metis set_dropWhileD set_rev subsetI)

text \<open>\<open>s.replace(pat, "")\<close>: the occurrences are taken from the left and do not overlap.\<close>

function py_remove :: "string \<Rightarrow> string \<Rightarrow> string" where
  "py_remove pat [] = []"
| "py_remove pat (c # s) =
     (if pat \<noteq> [] \<and> take (length pat) (c # s) = pat
      then py_remove pat (drop (length pat) (c # s))
      else c # py_remove pat s)"
  by pat_completeness auto
termination
  by (relation "measure (\<lambda>(pat, s). length s)") (auto simp: Suc_diff_le le_imp_less_Suc neq_Nil_conv)

lemma py_remove_id: "hd pat \<notin> set s \<Longrightarrow> pat \<noteq> [] \<Longrightarrow> py_remove pat s = s"
  by (induction s) (auto simp: take_Cons' neq_Nil_conv)

lemma py_remove_single: "py_remove [c] s = filter (\<lambda>x. x \<noteq> c) s"
proof (induction s)
  case (Cons a s)
  then show ?case by (cases "a = c") auto
qed simp

text \<open>\<open>s.replace(c, r)\<close> for a single character \<open>c\<close>.\<close>

definition replace_char :: "char \<Rightarrow> string \<Rightarrow> string \<Rightarrow> string" where
  "replace_char c r s = concat (map (\<lambda>x. if x = c then r else [x]) s)"

lemma replace_char_simps [simp]:
  "replace_char c r [] = []"
  "replace_char c r (x # s) = (if x = c then r else [x]) @ replace_char c r s"
  "replace_char c r (s @ t) = replace_char c r s @ replace_char c r t"
  by (simp_all add: replace_char_def)

text \<open>\<open>s.upper()\<close> and \<open>s.lower()\<close> on ASCII text.\<close>

definition py_upper :: "string \<Rightarrow> string" where
  "py_upper s =
     map (\<lambda>c. let n = (of_char c :: nat) in if 97 \<le> n \<and> n \<le> 122 then char_of (n - 32) else c) s"

definition py_lower :: "string \<Rightarrow> string" where
  "py_lower s =
     map (\<lambda>c. let n = (of_char c :: nat) in if 65 \<le> n \<and> n \<le> 90 then char_of (n + 32) else c) s"

text \<open>\<open>pat in s\<close>.\<close>

fun contains :: "string \<Rightarrow> string \<Rightarrow> bool" where
  "contains pat [] = (pat = [])"
| "contains pat (c # s) = (take (length pat) (c # s) = pat \<or> contains pat s)"

text \<open>\<open>str(n)\<close> of an integer.\<close>

fun nat_str :: "nat \<Rightarrow> string" where
  "nat_str n = (if n < 10 then [char_of (48 + n)] else nat_str (n div 10) @ [char_of (48 + n mod 10)])"

declare nat_str.simps [simp del]

definition int_str :: "int \<Rightarrow> string" where
  "int_str i = (if i < 0 then ''-'' @ nat_str (nat (- i)) else nat_str (nat i))"

text \<open>\<open>xs[:n]\<close> for any integer \<open>n\<close>.\<close>

definition py_take :: "int \<Rightarrow> 'a list \<Rightarrow> 'a list" where
  "py_take n xs = (if 0 \<le> n then take (nat n) xs else take (nat (int (length xs) + n)) xs)"

lemma set_py_take: "set (py_take n xs) \<subseteq> set xs"
  by (simp add: py_take_def set_take_subset)

section \<open>Sorting\<close>

text \<open>
  \<open>sorted(xs, key=f, reverse=True)\<close>: descending keys, and elements with the same key stay in
  the order they came in.
\<close>

definition sorted_desc :: "('a \<Rightarrow> 'k::linorder) \<Rightarrow> 'a list \<Rightarrow> 'a list" where
  "sorted_desc f xs = rev (sort_key f (rev xs))"

lemma set_sorted_desc [simp]: "set (sorted_desc f xs) = set xs"
  by (simp add: sorted_desc_def)

lemma mset_sorted_desc [simp]: "mset (sorted_desc f xs) = mset xs"
  by (simp add: sorted_desc_def)

lemma length_sorted_desc [simp]: "length (sorted_desc f xs) = length xs"
  by (simp add: sorted_desc_def)

lemma sorted_desc_sorted: "sorted (rev (map f (sorted_desc f xs)))"
  by (simp add: sorted_desc_def rev_map)

text \<open>With distinct keys the descending order of a set of elements is unique.\<close>

lemma sorted_desc_unique:
  assumes "set xs = set ys" and "distinct (map f xs)" and "distinct (map f ys)"
  shows "sorted_desc f xs = sorted_desc f ys"
proof -
  have "mset xs = mset ys"
    using assms by (simp add: set_eq_iff_mset_eq_distinct distinct_map)
  moreover have "inj_on f (set (rev xs))"
    using assms(2) by (simp add: distinct_map)
  ultimately show ?thesis
    unfolding sorted_desc_def
    using properties_for_sort_key [of "rev xs" "rev ys"]
    by (metis (mono_tags, lifting) filter_cong mset_rev mset_sort sort_key_inj_key_eq sorted_sort_key)
qed

section \<open>Dicts\<close>

lemma map_of_update [simp]: "map_of (AList.update k v d) = (map_of d)(k \<mapsto> v)"
  by (rule update_conv')

lemma map_of_delete [simp]: "map_of (AList.delete k d) = (map_of d)(k := None)"
  by (rule delete_conv')

lemma distinct_keys_update [simp]: "distinct (map fst d) \<Longrightarrow> distinct (map fst (AList.update k v d))"
  by (rule distinct_update)

lemma distinct_keys_delete [simp]: "distinct (map fst d) \<Longrightarrow> distinct (map fst (AList.delete k d))"
  by (rule distinct_delete)

lemma ran_map_of_distinct: "distinct (map fst d) \<Longrightarrow> ran (map_of d) = snd ` set d"
  by (rule ran_distinct)

end
