(* ===== verification/Python_Uuid.thy ===== *)
theory Python_Uuid imports
  Prelude
begin

text \<open>
  The part of Python's standard library that decides which job ids the backend accepts:
  \<open>uuid.UUID(text)\<close>, the \<open>int(text, 16)\<close> it calls, and \<open>str(uuid)\<close>. The text is ASCII; Unicode
  digits and spaces, which \<open>int\<close> also takes, are not modelled.

  The lemmas show that printing a UUID and reading it back is the identity, and that a printed
  UUID has 36 characters, all of them lower-case hexadecimal digits or hyphens.
\<close>

section \<open>Hexadecimal integers\<close>

definition hex_value :: "char \<Rightarrow> nat option" where
  "hex_value c =
     (let n = (of_char c :: nat)
      in if 48 \<le> n \<and> n \<le> 57 then Some (n - 48)
         else if 97 \<le> n \<and> n \<le> 102 then Some (n - 87)
         else if 65 \<le> n \<and> n \<le> 70 then Some (n - 55)
         else None)"

text \<open>The digit loop of \<open>int(text, 16)\<close>: single underscores may stand between digits.\<close>

fun hex_digits_value :: "nat \<Rightarrow> bool \<Rightarrow> string \<Rightarrow> nat option" where
  "hex_digits_value acc prev_underscore [] = (if prev_underscore then None else Some acc)"
| "hex_digits_value acc prev_underscore (c # s) =
     (if c = CHR ''_''
      then (if prev_underscore then None else hex_digits_value acc True s)
      else (case hex_value c of
              None \<Rightarrow> None
            | Some d \<Rightarrow> hex_digits_value (acc * 16 + d) False s))"

definition drop_hex_prefix :: "string \<Rightarrow> string" where
  "drop_hex_prefix s =
     (if take 2 s = ''0x'' \<or> take 2 s = ''0X''
      then (let r = drop 2 s in if take 1 r = ''_'' then drop 1 r else r)
      else s)"

definition hex_unsigned :: "string \<Rightarrow> nat option" where
  "hex_unsigned s =
     (let r = drop_hex_prefix s
      in if r = [] \<or> hd r = CHR ''_'' then None else hex_digits_value 0 False r)"

definition py_int16 :: "string \<Rightarrow> int option" where
  "py_int16 text =
     (let s = py_strip text
      in case s of
           [] \<Rightarrow> None
         | c # r \<Rightarrow>
             if c = CHR ''-'' then map_option (\<lambda>n. - int n) (hex_unsigned r)
             else if c = CHR ''+'' then map_option int (hex_unsigned r)
             else map_option int (hex_unsigned s))"

section \<open>UUIDs\<close>

definition uuid_parse :: "string \<Rightarrow> nat option" where
  "uuid_parse text =
     (let h = py_remove ''uuid:'' (py_remove ''urn:'' text);
          h = py_remove ''-'' (strip_chars (\<lambda>c. c \<in> {CHR ''{'', CHR ''}''}) h)
      in if length h \<noteq> 32 then None
         else (case py_int16 h of
                 None \<Rightarrow> None
               | Some n \<Rightarrow> if 0 \<le> n \<and> n < 2 ^ 128 then Some (nat n) else None))"

definition hex_char :: "nat \<Rightarrow> char" where
  "hex_char d = ''0123456789abcdef'' ! d"

fun hex_pad :: "nat \<Rightarrow> nat \<Rightarrow> string" where
  "hex_pad 0 n = []"
| "hex_pad (Suc k) n = hex_pad k (n div 16) @ [hex_char (n mod 16)]"

definition uuid_str :: "nat \<Rightarrow> string" where
  "uuid_str n =
     (let h = hex_pad 32 n
      in take 8 h @ ''-'' @ take 4 (drop 8 h) @ ''-'' @ take 4 (drop 12 h) @ ''-'' @
         take 4 (drop 16 h) @ ''-'' @ drop 20 h)"

definition uuid_canonical :: "string \<Rightarrow> bool" where
  "uuid_canonical s = (case uuid_parse s of None \<Rightarrow> False | Some n \<Rightarrow> uuid_str n = s)"

section \<open>Reading back a printed UUID\<close>

definition hex_alphabet :: "char set" where
  "hex_alphabet = set ''0123456789abcdef''"

lemma hex_char_in: "d < 16 \<Longrightarrow> hex_char d \<in> hex_alphabet"
  unfolding hex_char_def hex_alphabet_def by (rule nth_mem) simp

lemma hex_value_table: "list_all (\<lambda>d. hex_value (hex_char d) = Some d) [0..<16]"
  by code_simp

lemma hex_value_char: "d < 16 \<Longrightarrow> hex_value (hex_char d) = Some d"
  using hex_value_table by (simp only: list_all_iff set_upt) simp

lemma length_hex_pad [simp]: "length (hex_pad k n) = k"
  by (induction k arbitrary: n) auto

lemma set_hex_pad: "set (hex_pad k n) \<subseteq> hex_alphabet"
proof (induction k arbitrary: n)
  case (Suc k)
  have "hex_char (n mod 16) \<in> hex_alphabet" by (rule hex_char_in) simp
  with Suc [of "n div 16"] show ?case by (simp only: hex_pad.simps set_append) auto
qed simp

lemma hex_value_underscore: "hex_char (n mod 16) \<noteq> CHR ''_''"
  using hex_char_in [of "n mod 16"] by (auto simp: hex_alphabet_def)

lemma hex_digits_value_pad:
  "hex_digits_value acc False (hex_pad k n @ rest) =
     hex_digits_value (acc * 16 ^ k + n mod 16 ^ k) False rest"
proof (induction k arbitrary: acc n rest)
  case (Suc k)
  have split: "n mod 16 ^ Suc k = n div 16 mod 16 ^ k * 16 + n mod 16"
    using mod_mult2_eq [of n 16 "16 ^ k"] by (simp only: power_Suc mult.commute [of 16])
  have "hex_digits_value acc False (hex_pad (Suc k) n @ rest) =
          hex_digits_value (acc * 16 ^ k + n div 16 mod 16 ^ k) False (hex_char (n mod 16) # rest)"
    by (simp add: Suc)
  also have "\<dots> = hex_digits_value ((acc * 16 ^ k + n div 16 mod 16 ^ k) * 16 + n mod 16) False rest"
    by (simp add: hex_value_underscore hex_value_char)
  also have "(acc * 16 ^ k + n div 16 mod 16 ^ k) * 16 + n mod 16 = acc * 16 ^ Suc k + n mod 16 ^ Suc k"
    by (simp only: split) (simp add: algebra_simps)
  finally show ?case .
qed simp

lemma hex_alphabet_plain:
  assumes "set s \<subseteq> hex_alphabet" and "s \<noteq> []"
  shows "py_strip s = s" and "drop_hex_prefix s = s" and "hd s \<noteq> CHR ''_''"
    and "hd s \<noteq> CHR ''-''" and "hd s \<noteq> CHR ''+''"
proof -
  show "py_strip s = s"
    unfolding py_strip_def by (rule strip_chars_id) (use assms(1) in \<open>auto simp: py_space_def hex_alphabet_def\<close>)
  show "drop_hex_prefix s = s"
  proof -
    have "CHR ''x'' \<notin> set (take 2 s)" and "CHR ''X'' \<notin> set (take 2 s)"
      using assms(1) set_take_subset [of 2 s] by (auto simp: hex_alphabet_def)
    then show ?thesis by (auto simp: drop_hex_prefix_def)
  qed
  have "hd s \<in> hex_alphabet" using assms hd_in_set by blast
  then show "hd s \<noteq> CHR ''_''" and "hd s \<noteq> CHR ''-''" and "hd s \<noteq> CHR ''+''"
    by (auto simp: hex_alphabet_def)
qed

lemma py_int16_hex_pad: "0 < k \<Longrightarrow> py_int16 (hex_pad k n) = Some (int (n mod 16 ^ k))"
proof -
  assume "0 < k"
  then have ne: "hex_pad k n \<noteq> []" by (metis length_hex_pad length_0_conv neq0_conv)
  have "hex_unsigned (hex_pad k n) = Some (n mod 16 ^ k)"
    using hex_digits_value_pad [of 0 k n "[]"]
    by (simp add: hex_unsigned_def hex_alphabet_plain [OF set_hex_pad ne] ne)
  then show ?thesis
    using ne hex_alphabet_plain [OF set_hex_pad ne]
    by (auto simp: py_int16_def Let_def split: list.splits)
qed

lemma set_uuid_str: "set (uuid_str n) \<subseteq> insert (CHR ''-'') hex_alphabet"
proof -
  have "set (take i (drop j (hex_pad 32 n))) \<subseteq> hex_alphabet" for i j
    by (meson order_trans set_drop_subset set_hex_pad set_take_subset)
  from this [of 8 0] this [of 4 8] this [of 4 12] this [of 4 16] this [of 12 20]
  show ?thesis
    by (simp add: uuid_str_def Let_def) blast
qed

lemma length_uuid_str [simp]: "length (uuid_str n) = 36"
  by (simp add: uuid_str_def Let_def)

lemma uuid_str_digits: "filter (\<lambda>c. c \<noteq> CHR ''-'') (uuid_str n) = hex_pad 32 n"
proof -
  let ?h = "hex_pad 32 n"
  have plain: "filter (\<lambda>c. c \<noteq> CHR ''-'') (take i (drop j ?h)) = take i (drop j ?h)" for i j
  proof (rule filter_True)
    have "set (take i (drop j ?h)) \<subseteq> hex_alphabet"
      by (meson order_trans set_drop_subset set_hex_pad set_take_subset)
    then show "\<forall>c\<in>set (take i (drop j ?h)). c \<noteq> CHR ''-''" by (auto simp: hex_alphabet_def)
  qed
  have cut: "take 8 ?h @ take 4 (drop 8 ?h) @ take 4 (drop 12 ?h) @ take 4 (drop 16 ?h) @ drop 20 ?h = ?h"
  proof -
    have step: "take i (drop j ?h) @ drop (i + j) ?h = drop j ?h" for i j
      by (metis append_take_drop_id drop_drop)
    show ?thesis
      using step [of 8 0] step [of 4 8] step [of 4 12] step [of 4 16] by simp
  qed
  show ?thesis
    using plain [of 8 0] plain [of 4 8] plain [of 4 12] plain [of 4 16] plain [of 12 20] cut
    by (simp add: uuid_str_def Let_def)
qed

lemma uuid_parse_str [simp]: "n < 2 ^ 128 \<Longrightarrow> uuid_parse (uuid_str n) = Some n"
proof -
  assume n: "n < 2 ^ 128"
  note chars = set_uuid_str [of n]
  have 1: "py_remove ''urn:'' (uuid_str n) = uuid_str n"
    and 2: "py_remove ''uuid:'' (uuid_str n) = uuid_str n"
    by (rule py_remove_id; use chars in \<open>auto simp: hex_alphabet_def\<close>)+
  have 3: "strip_chars (\<lambda>c. c \<in> {CHR ''{'', CHR ''}''}) (uuid_str n) = uuid_str n"
    by (rule strip_chars_id) (use chars in \<open>auto simp: hex_alphabet_def\<close>)
  have 4: "py_remove ''-'' (uuid_str n) = hex_pad 32 n"
    by (simp add: py_remove_single uuid_str_digits)
  have "n mod 16 ^ 32 = n" using n by (simp add: power2_eq_square)
  then show ?thesis
    using n unfolding uuid_parse_def 1 2 3 4 Let_def by (simp add: py_int16_hex_pad)
qed

lemma uuid_parse_bound: "uuid_parse s = Some n \<Longrightarrow> n < 2 ^ 128"
  by (auto simp: uuid_parse_def Let_def split: if_splits option.splits)

lemma uuid_canonical_str: "n < 2 ^ 128 \<Longrightarrow> uuid_canonical (uuid_str n)"
  by (simp add: uuid_canonical_def)

lemma uuid_canonicalE:
  assumes "uuid_canonical s"
  obtains n where "s = uuid_str n" and "n < 2 ^ 128" and "uuid_parse s = Some n"
  using assms uuid_parse_bound [of s] by (auto simp: uuid_canonical_def split: option.splits)

lemma uuid_str_inj: "n < 2 ^ 128 \<Longrightarrow> m < 2 ^ 128 \<Longrightarrow> uuid_str n = uuid_str m \<Longrightarrow> n = m"
  by (metis option.inject uuid_parse_str)

end
