(* ===== verification/Job_Domain.thy ===== *)
theory Job_Domain imports
  Python_Uuid
begin

text \<open>
  The forecast-job domain: \<open>domain/jobs/status.py\<close>, \<open>priority.py\<close>, \<open>policies.py\<close>, \<open>entities.py\<close> and
  \<open>events.py\<close>, with the exceptions of \<open>application/errors.py\<close>.

  Times are UTC datetimes at the resolution of Python's \<open>datetime\<close>, as the number of
  microseconds since 0001-01-01. Subtracting a \<open>timedelta\<close> raises \<open>OverflowError\<close> outside the
  years 1 to 9999, as it does in Python.
\<close>

section \<open>Status\<close>

datatype job_status = Queued | Running | Succeeded | Failed | Cancelled

fun status_str :: "job_status \<Rightarrow> string" where
  "status_str Queued = ''queued''"
| "status_str Running = ''running''"
| "status_str Succeeded = ''succeeded''"
| "status_str Failed = ''failed''"
| "status_str Cancelled = ''cancelled''"

definition TERMINAL_JOB_STATUSES :: "job_status set" where
  "TERMINAL_JOB_STATUSES = {Succeeded, Failed, Cancelled}"

definition ALL_JOB_STATUSES :: "job_status set" where
  "ALL_JOB_STATUSES = {Queued, Running, Succeeded, Failed, Cancelled}"

definition ACTIVE_JOB_STATUSES :: "job_status set" where
  "ACTIVE_JOB_STATUSES = {Queued, Running}"

definition is_terminal_job_status :: "job_status \<Rightarrow> bool" where
  "is_terminal_job_status s = (s \<in> TERMINAL_JOB_STATUSES)"

definition is_active_job_status :: "job_status \<Rightarrow> bool" where
  "is_active_job_status s = (s \<in> ACTIVE_JOB_STATUSES)"

text \<open>Statuses are strings, and \<open>sorted\<close> orders them as strings.\<close>

lemma status_str_inj: "status_str s = status_str t \<longleftrightarrow> s = t"
  by (cases s; cases t) simp_all

instantiation job_status :: linorder
begin

definition less_eq_job_status :: "job_status \<Rightarrow> job_status \<Rightarrow> bool" where
  "less_eq_job_status s t = (status_str s \<le> status_str t)"

definition less_job_status :: "job_status \<Rightarrow> job_status \<Rightarrow> bool" where
  "less_job_status s t = (status_str s < status_str t)"

instance
  by standard (auto simp: less_eq_job_status_def less_job_status_def less_le status_str_inj)

end

lemma UNIV_job_status: "UNIV = {Queued, Running, Succeeded, Failed, Cancelled}"
  by (auto intro: job_status.exhaust)

instance job_status :: finite
  by standard (simp add: UNIV_job_status)

lemma status_cases: "s \<in> TERMINAL_JOB_STATUSES \<longleftrightarrow> s \<notin> ACTIVE_JOB_STATUSES"
  by (cases s) (auto simp: TERMINAL_JOB_STATUSES_def ACTIVE_JOB_STATUSES_def)

lemma all_statuses: "s \<in> ALL_JOB_STATUSES"
  by (cases s) (auto simp: ALL_JOB_STATUSES_def)

section \<open>Priority\<close>

datatype job_priority = Low | Normal | High

definition DEFAULT_FORECAST_JOB_PRIORITY :: job_priority where
  "DEFAULT_FORECAST_JOB_PRIORITY = Normal"

fun priority_rank :: "job_priority \<Rightarrow> int" where
  "priority_rank High = 0"
| "priority_rank Normal = 10"
| "priority_rank Low = 20"

fun priority_str :: "job_priority \<Rightarrow> string" where
  "priority_str Low = ''low''"
| "priority_str Normal = ''normal''"
| "priority_str High = ''high''"

lemma priority_rank_inj: "priority_rank p = priority_rank q \<longleftrightarrow> p = q"
  by (cases p; cases q) simp_all

lemma priority_rank_bounds: "0 \<le> priority_rank p" "priority_rank p \<le> 20"
  by (cases p; simp)+

section \<open>Errors\<close>

datatype job_error =
    InvalidForecastJobIdentityError string
  | InvalidForecastJobCoordinatesError string
  | InvalidForecastJobAttemptError string
  | ForecastJobNotFoundError string
  | ForecastJobConflictError string
  | ForecastJobTransitionError string job_status "job_status set"
  | ValidationError
  | KeyError string
  | OverflowError

fun join_with :: "string \<Rightarrow> string list \<Rightarrow> string" where
  "join_with sep [] = []"
| "join_with sep [x] = x"
| "join_with sep (x # y # xs) = x @ sep @ join_with sep (y # xs)"

text \<open>The message of \<open>ForecastJobTransitionError\<close>, and \<open>str(error)\<close> of the conflicts.\<close>

definition transition_message :: "string \<Rightarrow> job_status \<Rightarrow> job_status set \<Rightarrow> string" where
  "transition_message jid current expected =
     ''Cannot transition forecast job '' @ jid @ '' from '' @ status_str current @
     ''; expected one of: '' @
     join_with '', '' (map status_str (sorted_list_of_set expected)) @ ''.''"

text \<open>\<open>ForecastJobTransitionError\<close> is a subclass of \<open>ForecastJobConflictError\<close>.\<close>

fun is_conflict_error :: "job_error \<Rightarrow> bool" where
  "is_conflict_error (ForecastJobConflictError _) = True"
| "is_conflict_error (ForecastJobTransitionError _ _ _) = True"
| "is_conflict_error _ = False"

fun conflict_message :: "job_error \<Rightarrow> string" where
  "conflict_message (ForecastJobConflictError m) = m"
| "conflict_message (ForecastJobTransitionError jid current expected) =
     transition_message jid current expected"
| "conflict_message _ = []"

section \<open>Times\<close>

type_synonym datetime = int

definition datetime_max :: datetime where
  "datetime_max = 3652059 * 86400 * 1000000 - 1"

definition timedelta_max_seconds :: int where
  "timedelta_max_seconds = 1000000000 * 86400 - 1"

text \<open>\<open>t - timedelta(seconds=n)\<close>.\<close>

definition minus_seconds :: "datetime \<Rightarrow> int \<Rightarrow> job_error + datetime" where
  "minus_seconds t n =
     (if \<bar>n\<bar> > timedelta_max_seconds \<or> t - n * 1000000 < 0 \<or> datetime_max < t - n * 1000000
      then Inl OverflowError else Inr (t - n * 1000000))"

text \<open>\<open>t - timedelta(hours=n)\<close>.\<close>

definition minus_hours :: "datetime \<Rightarrow> int \<Rightarrow> job_error + datetime" where
  "minus_hours t n = minus_seconds t (n * 3600)"

section \<open>Policies\<close>

definition can_transition_from :: "job_status \<Rightarrow> job_status set \<Rightarrow> bool" where
  "can_transition_from current_status expected_statuses = (current_status \<in> expected_statuses)"

definition should_mark_job_stale :: "datetime \<Rightarrow> datetime \<Rightarrow> int \<Rightarrow> job_error + bool" where
  "should_mark_job_stale updated_at now timeout_seconds =
     (case minus_seconds now timeout_seconds of
        Inl e \<Rightarrow> Inl e
      | Inr t \<Rightarrow> Inr (updated_at \<le> t))"

definition should_cleanup_job ::
    "job_status \<Rightarrow> datetime option \<Rightarrow> datetime \<Rightarrow> datetime \<Rightarrow> job_status set \<Rightarrow> bool" where
  "should_cleanup_job status completed_at updated_at cutoff statuses =
     (if status \<notin> statuses then False
      else (let reference_time = (case completed_at of None \<Rightarrow> updated_at | Some t \<Rightarrow> t)
            in reference_time < cutoff))"

section \<open>Entities\<close>

definition identity_parse :: "string \<Rightarrow> job_error + string" where
  "identity_parse v =
     (case uuid_parse v of
        None \<Rightarrow> Inl (InvalidForecastJobIdentityError v)
      | Some n \<Rightarrow> Inr (uuid_str n))"

record job_coordinates =
  coord_latitude :: pyfloat
  coord_longitude :: pyfloat

definition make_coordinates :: "pyfloat \<Rightarrow> pyfloat \<Rightarrow> job_error + job_coordinates" where
  "make_coordinates latitude longitude =
     (if \<not> flt_between (-90) latitude 90
      then Inl (InvalidForecastJobCoordinatesError ''latitude must be between -90 and 90'')
      else if \<not> flt_between (-180) longitude 180
      then Inl (InvalidForecastJobCoordinatesError ''longitude must be between -180 and 180'')
      else Inr \<lparr>coord_latitude = latitude, coord_longitude = longitude\<rparr>)"

record job_attempt =
  attempt_value :: int
  attempt_parent :: "string option"

definition make_attempt :: "int \<Rightarrow> string option \<Rightarrow> job_error + job_attempt" where
  "make_attempt v parent_job_id =
     (if v < 1
      then Inl (InvalidForecastJobAttemptError ''attempt must be greater than or equal to 1'')
      else if v = 1 \<and> parent_job_id \<noteq> None
      then Inl (InvalidForecastJobAttemptError ''first attempts cannot reference a parent job'')
      else if v > 1 \<and> parent_job_id = None
      then Inl (InvalidForecastJobAttemptError ''retry attempts must reference a parent job'')
      else Inr \<lparr>attempt_value = v, attempt_parent = parent_job_id\<rparr>)"

lemma make_coordinates_Inr:
  "make_coordinates la lo = Inr c \<longleftrightarrow>
     flt_between (-90) la 90 \<and> flt_between (-180) lo 180 \<and>
     c = \<lparr>coord_latitude = la, coord_longitude = lo\<rparr>"
  by (auto simp: make_coordinates_def)

lemma make_attempt_Inr:
  "make_attempt v p = Inr a \<longleftrightarrow>
     1 \<le> v \<and> (p = None \<longleftrightarrow> v = 1) \<and> a = \<lparr>attempt_value = v, attempt_parent = p\<rparr>"
  by (auto simp: make_attempt_def)

section \<open>Events\<close>

record job_event_record =
  record_occurred_at :: datetime
  record_status :: job_status
  record_message :: string

definition record_forecast_job_event :: "job_status \<Rightarrow> string \<Rightarrow> datetime \<Rightarrow> job_event_record" where
  "record_forecast_job_event status message occurred_at =
     \<lparr>record_occurred_at = occurred_at, record_status = status, record_message = message\<rparr>"

section \<open>Identities\<close>

lemma identity_parse_canonical: "identity_parse v = Inr k \<Longrightarrow> uuid_canonical k"
  using uuid_parse_bound [of v]
  by (auto simp: identity_parse_def uuid_canonical_str split: option.splits)

lemma identity_parse_of_canonical [simp]: "uuid_canonical k \<Longrightarrow> identity_parse k = Inr k"
  by (auto simp: identity_parse_def elim!: uuid_canonicalE)

lemma identity_parse_Inl: "identity_parse v = Inl e \<Longrightarrow> e = InvalidForecastJobIdentityError v"
  by (auto simp: identity_parse_def split: option.splits)

end
