(* ===== verification/Forecast_Schema.thy ===== *)
theory Forecast_Schema imports
  Job_Domain
begin

text \<open>
  The API documents: \<open>schemas/forecast.py\<close> and \<open>schemas/jobs.py\<close>. A pydantic model is a record;
  the bounds its fields declare (\<open>ge\<close>, \<open>le\<close>) are the predicate of the same name with \<open>_valid\<close>,
  which is what building the model checks. \<open>model_copy(update=...)\<close> checks nothing and is a
  record update.
\<close>

section \<open>Forecast documents\<close>

record forecast_metric =
  metric_name :: string
  metric_value :: pyfloat
  metric_unit :: string

datatype run_mode = RunMock | RunNim

record forecast_model_info =
  model_name :: string
  model_version :: string
  model_resolution :: string
  model_run_mode :: run_mode

record forecast_window =
  start_at :: datetime
  end_at :: datetime
  step_hours :: int
  lead_hours :: "int list"

datatype weather_condition = Clear | Breezy | Humid | RainWatch

record timeline_step =
  lead_time_hours :: int
  valid_at :: datetime
  temperature_c :: pyfloat
  wind_speed_ms :: pyfloat
  humidity_percent :: pyfloat
  precipitation_probability_percent :: pyfloat
  pressure_hpa :: pyfloat
  confidence :: pyfloat
  condition :: weather_condition
  step_summary :: string

datatype signal_level = LevelLow | LevelModerate | LevelElevated

record forecast_signal =
  signal_name :: string
  signal_level_of :: signal_level
  signal_message :: string

datatype provider_name = MockProvider | FourCastNetProvider

fun provider_str :: "provider_name \<Rightarrow> string" where
  "provider_str MockProvider = ''mock''"
| "provider_str FourCastNetProvider = ''fourcastnet''"

record forecast_summary =
  summary_provider :: provider_name
  generated_at :: datetime
  summary_latitude :: pyfloat
  summary_longitude :: pyfloat
  headline :: string
  summary_metrics :: "forecast_metric list"
  summary_model :: forecast_model_info
  forecast_window_of :: forecast_window
  timeline :: "timeline_step list"
  signals :: "forecast_signal list"

record forecast_provider_status =
  status_provider :: provider_name
  status_mode :: string
  configured :: bool
  ready :: bool
  supports_point_forecast :: bool
  status_endpoint :: "string option"
  status_detail :: string

definition timeline_step_valid :: "timeline_step \<Rightarrow> bool" where
  "timeline_step_valid t =
     (0 \<le> lead_time_hours t \<and>
      flt_between 0 (humidity_percent t) 100 \<and>
      flt_between 0 (precipitation_probability_percent t) 100 \<and>
      flt_between 0 (confidence t) 1)"

definition forecast_summary_valid :: "forecast_summary \<Rightarrow> bool" where
  "forecast_summary_valid s =
     (flt_between (-90) (summary_latitude s) 90 \<and>
      flt_between (-180) (summary_longitude s) 180 \<and>
      list_all timeline_step_valid (timeline s))"

section \<open>Job documents\<close>

record job_diagnostics =
  diag_provider :: "string option"
  diag_response_source :: "string option"
  diag_cache_status :: "string option"
  diag_cached_artifact_id :: "string option"
  diag_nvcf_request_id :: "string option"
  diag_nvcf_status :: "string option"
  diag_poll_attempts :: int
  diag_response_reference_present :: bool
  diag_byte_length :: "int option"
  diag_sha256 :: "string option"
  diag_message :: "string option"

text \<open>\<open>ForecastJobDiagnostics(provider=p, message=m)\<close>: every other field has its default.\<close>

definition make_diagnostics :: "string option \<Rightarrow> string option \<Rightarrow> job_diagnostics" where
  "make_diagnostics p m =
     \<lparr>diag_provider = p, diag_response_source = None, diag_cache_status = None,
      diag_cached_artifact_id = None, diag_nvcf_request_id = None, diag_nvcf_status = None,
      diag_poll_attempts = 0, diag_response_reference_present = False, diag_byte_length = None,
      diag_sha256 = None, diag_message = m\<rparr>"

record job_event =
  occurred_at :: datetime
  event_status :: job_status
  event_message :: string

record forecast_job =
  job_id :: string
  status :: job_status
  latitude :: pyfloat
  longitude :: pyfloat
  parent_job_id :: "string option"
  attempt :: int
  created_at :: datetime
  updated_at :: datetime
  started_at :: "datetime option"
  completed_at :: "datetime option"
  forecast :: "forecast_summary option"
  diagnostics :: "job_diagnostics option"
  events :: "job_event list"
  error :: "string option"
  links :: "(string \<times> string) list"

definition forecast_job_valid :: "forecast_job \<Rightarrow> bool" where
  "forecast_job_valid j =
     (flt_between (-90) (latitude j) 90 \<and> flt_between (-180) (longitude j) 180 \<and>
      1 \<le> attempt j \<and> pred_option forecast_summary_valid (forecast j))"

record forecast_job_summary =
  sum_id :: string
  sum_status :: job_status
  sum_latitude :: pyfloat
  sum_longitude :: pyfloat
  sum_parent_job_id :: "string option"
  sum_attempt :: int
  sum_created_at :: datetime
  sum_updated_at :: datetime
  sum_completed_at :: "datetime option"
  sum_diagnostics :: "job_diagnostics option"
  sum_error :: "string option"
  sum_links :: "(string \<times> string) list"

record job_list_response =
  list_count :: int
  list_jobs :: "forecast_job_summary list"

record job_poll_response =
  poll_id :: string
  poll_status :: job_status
  poll_terminal :: bool
  poll_forecast_ready :: bool
  poll_updated_at :: datetime
  poll_retry_after_seconds :: "int option"
  poll_event_count :: int
  poll_latest_event :: "job_event option"
  poll_links :: "(string \<times> string) list"

record job_cleanup_response =
  deleted_count :: int
  cleanup_cutoff :: datetime
  cleanup_statuses :: "job_status list"

text \<open>
  JSON has no infinity and no NaN, so a job document survives a round trip through JSON only
  when its floats are finite.
\<close>

definition forecast_summary_finite :: "forecast_summary \<Rightarrow> bool" where
  "forecast_summary_finite s =
     (list_all (\<lambda>m. flt_finite (metric_value m)) (summary_metrics s) \<and>
      list_all (\<lambda>t. flt_finite (temperature_c t) \<and> flt_finite (wind_speed_ms t) \<and>
                    flt_finite (pressure_hpa t)) (timeline s))"

definition storable_summary :: "forecast_summary \<Rightarrow> bool" where
  "storable_summary s = (forecast_summary_valid s \<and> forecast_summary_finite s)"

definition storable :: "forecast_job \<Rightarrow> bool" where
  "storable j = (forecast_job_valid j \<and> pred_option forecast_summary_finite (forecast j))"

section \<open>Diagnostics built from a dict\<close>

text \<open>
  A provider reports its diagnostics as a \<open>dict[str, Any]\<close>. \<open>ForecastJobDiagnostics(**d)\<close> ignores
  the keys it does not declare, takes the default of a missing key, and raises \<open>ValidationError\<close>
  on a value of another type. Pydantic's conversions between types (\<open>"7"\<close> for an integer) are not
  modelled: no dict built under \<open>src/\<close> relies on one.
\<close>

datatype dict_value = DNone | DStr string | DInt int | DBool bool

type_synonym diag_dict = "(string \<times> dict_value) list"

fun opt_str_field :: "dict_value option \<Rightarrow> string option option" where
  "opt_str_field None = Some None"
| "opt_str_field (Some DNone) = Some None"
| "opt_str_field (Some (DStr s)) = Some (Some s)"
| "opt_str_field _ = None"

fun opt_int_field :: "dict_value option \<Rightarrow> int option option" where
  "opt_int_field None = Some None"
| "opt_int_field (Some DNone) = Some None"
| "opt_int_field (Some (DInt i)) = Some (Some i)"
| "opt_int_field _ = None"

fun int_field :: "int \<Rightarrow> dict_value option \<Rightarrow> int option" where
  "int_field d None = Some d"
| "int_field d (Some (DInt i)) = Some i"
| "int_field d _ = None"

fun bool_field :: "bool \<Rightarrow> dict_value option \<Rightarrow> bool option" where
  "bool_field d None = Some d"
| "bool_field d (Some (DBool b)) = Some b"
| "bool_field d _ = None"

definition diagnostics_of_dict :: "diag_dict \<Rightarrow> job_error + job_diagnostics" where
  "diagnostics_of_dict d =
     (let g = map_of d in
      case (opt_str_field (g ''provider''), opt_str_field (g ''response_source''),
            opt_str_field (g ''cache_status''), opt_str_field (g ''cached_artifact_id''),
            opt_str_field (g ''nvcf_request_id''), opt_str_field (g ''nvcf_status''),
            int_field 0 (g ''poll_attempts''), bool_field False (g ''response_reference_present''),
            opt_int_field (g ''byte_length''), opt_str_field (g ''sha256''),
            opt_str_field (g ''message'')) of
        (Some p, Some rs, Some cs, Some ca, Some ri, Some ns, Some pa, Some rr, Some bl, Some sh,
         Some m) \<Rightarrow>
          Inr \<lparr>diag_provider = p, diag_response_source = rs, diag_cache_status = cs,
               diag_cached_artifact_id = ca, diag_nvcf_request_id = ri, diag_nvcf_status = ns,
               diag_poll_attempts = pa, diag_response_reference_present = rr,
               diag_byte_length = bl, diag_sha256 = sh, diag_message = m\<rparr>
      | _ \<Rightarrow> Inl ValidationError)"

text \<open>\<open>bool(v)\<close> of a dict value.\<close>

fun truthy :: "dict_value \<Rightarrow> bool" where
  "truthy DNone = False"
| "truthy (DStr s) = (s \<noteq> [])"
| "truthy (DInt i) = (i \<noteq> 0)"
| "truthy (DBool b) = b"

definition dict_or :: "dict_value option \<Rightarrow> dict_value \<Rightarrow> dict_value" where
  "dict_or v d = (case v of None \<Rightarrow> d | Some x \<Rightarrow> if truthy x then x else d)"

lemma diagnostics_of_dict_Inl: "diagnostics_of_dict d = Inl e \<Longrightarrow> e = ValidationError"
  by (auto simp: diagnostics_of_dict_def Let_def split: option.splits)

lemma forecast_job_valid_update [simp]:
  "forecast_job_valid (j\<lparr>status := s\<rparr>) = forecast_job_valid j"
  "forecast_job_valid (j\<lparr>job_id := i\<rparr>) = forecast_job_valid j"
  "forecast_job_valid (j\<lparr>updated_at := t\<rparr>) = forecast_job_valid j"
  "forecast_job_valid (j\<lparr>started_at := ot\<rparr>) = forecast_job_valid j"
  "forecast_job_valid (j\<lparr>completed_at := ot\<rparr>) = forecast_job_valid j"
  "forecast_job_valid (j\<lparr>diagnostics := d\<rparr>) = forecast_job_valid j"
  "forecast_job_valid (j\<lparr>events := es\<rparr>) = forecast_job_valid j"
  "forecast_job_valid (j\<lparr>error := er\<rparr>) = forecast_job_valid j"
  "forecast_job_valid (j\<lparr>links := ls\<rparr>) = forecast_job_valid j"
  by (simp_all add: forecast_job_valid_def)

lemma storable_update [simp]:
  "storable (j\<lparr>status := s\<rparr>) = storable j"
  "storable (j\<lparr>job_id := i\<rparr>) = storable j"
  "storable (j\<lparr>updated_at := t\<rparr>) = storable j"
  "storable (j\<lparr>started_at := ot\<rparr>) = storable j"
  "storable (j\<lparr>completed_at := ot\<rparr>) = storable j"
  "storable (j\<lparr>diagnostics := d\<rparr>) = storable j"
  "storable (j\<lparr>events := es\<rparr>) = storable j"
  "storable (j\<lparr>error := er\<rparr>) = storable j"
  "storable (j\<lparr>links := ls\<rparr>) = storable j"
  by (simp_all add: storable_def)

lemma storable_set_forecast:
  "storable j \<Longrightarrow> storable_summary f \<Longrightarrow> storable (j\<lparr>forecast := Some f\<rparr>)"
  by (simp add: storable_def forecast_job_valid_def storable_summary_def)

end
