(* ===== verification/Metrics.thy ===== *)
theory Metrics imports
  Prelude
begin

text \<open>
  \<open>observability/metrics.py\<close>: the process-wide registry of counters and its rendering in the
  Prometheus text format. Locks are not modelled: every method is one atomic step. How Python
  prints a float is the parameter \<open>flt_str\<close>.
\<close>

type_synonym labels = "(string \<times> string) list"

record metrics_registry =
  http_request_counts :: "(labels \<times> int) list"
  http_request_duration_sums :: "(labels \<times> pyfloat) list"
  forecast_job_counts :: "(labels \<times> int) list"

definition empty_registry :: metrics_registry where
  "empty_registry =
     \<lparr>http_request_counts = [], http_request_duration_sums = [], forecast_job_counts = []\<rparr>"

text \<open>\<open>dict.get(k, default)\<close>.\<close>

definition dict_get :: "('k \<times> 'v) list \<Rightarrow> 'k \<Rightarrow> 'v \<Rightarrow> 'v" where
  "dict_get d k v = (case map_of d k of None \<Rightarrow> v | Some x \<Rightarrow> x)"

text \<open>\<open>_labels(**labels)\<close>: the pairs, sorted.\<close>

definition make_labels :: "(string \<times> string) list \<Rightarrow> labels" where
  "make_labels kvs = sort kvs"

definition record_http_request ::
    "string \<Rightarrow> string \<Rightarrow> int \<Rightarrow> pyfloat \<Rightarrow> metrics_registry \<Rightarrow> metrics_registry" where
  "record_http_request meth path status_code duration_seconds reg =
     (let ls = make_labels
            [(''method'', py_upper meth), (''path'', path), (''status_code'', int_str status_code)]
      in reg\<lparr>http_request_counts :=
               AList.update ls (dict_get (http_request_counts reg) ls 0 + 1) (http_request_counts reg),
             http_request_duration_sums :=
               AList.update ls
                 (flt_add (dict_get (http_request_duration_sums reg) ls (Fin 0)) duration_seconds)
                 (http_request_duration_sums reg)\<rparr>)"

definition increment_forecast_job_event :: "string \<Rightarrow> metrics_registry \<Rightarrow> metrics_registry" where
  "increment_forecast_job_event ev reg =
     (let ls = make_labels [(''event'', ev)]
      in reg\<lparr>forecast_job_counts :=
               AList.update ls (dict_get (forecast_job_counts reg) ls 0 + 1)
                 (forecast_job_counts reg)\<rparr>)"

definition escape_label_value :: "string \<Rightarrow> string" where
  "escape_label_value v =
     replace_char (CHR 0x22) [CHR 0x5C, CHR 0x22]
       (replace_char (CHR 0x0A) [CHR 0x5C, CHR ''n'']
         (replace_char (CHR 0x5C) [CHR 0x5C, CHR 0x5C] v))"

fun comma_join :: "string list \<Rightarrow> string" where
  "comma_join [] = []"
| "comma_join [x] = x"
| "comma_join (x # y # xs) = x @ '','' @ comma_join (y # xs)"

definition quoted_label :: "string \<times> string \<Rightarrow> string" where
  "quoted_label kv = fst kv @ ''='' @ [CHR 0x22] @ escape_label_value (snd kv) @ [CHR 0x22]"

text \<open>\<open>_sample(name, labels, value)\<close>, with the value already printed.\<close>

definition sample_line :: "string \<Rightarrow> labels \<Rightarrow> string \<Rightarrow> string" where
  "sample_line name ls v =
     (let label_text = comma_join (map quoted_label ls);
          label_suffix = (if label_text \<noteq> [] then ''{'' @ label_text @ ''}'' else [])
      in name @ label_suffix @ '' '' @ v)"

definition HTTP_REQUESTS_TOTAL :: string where
  "HTTP_REQUESTS_TOTAL = ''earth2_http_requests_total''"

definition HTTP_REQUEST_DURATION_SECONDS :: string where
  "HTTP_REQUEST_DURATION_SECONDS = ''earth2_http_request_duration_seconds''"

definition FORECAST_JOBS_TOTAL :: string where
  "FORECAST_JOBS_TOTAL = ''earth2_forecast_jobs_total''"

text \<open>\<open>sorted(d.items())\<close>: the keys of a dict are distinct, so the values are never compared.\<close>

definition sorted_items :: "(labels \<times> 'v) list \<Rightarrow> (labels \<times> 'v) list" where
  "sorted_items d = sort_key fst d"

definition prometheus_lines :: "(pyfloat \<Rightarrow> string) \<Rightarrow> metrics_registry \<Rightarrow> string list" where
  "prometheus_lines flt_str reg =
     (let http_counts = sorted_items (http_request_counts reg);
          duration_sums = sorted_items (http_request_duration_sums reg);
          job_counts = sorted_items (forecast_job_counts reg)
      in [''# HELP earth2_http_requests_total Total HTTP requests observed by the backend.'',
          ''# TYPE earth2_http_requests_total counter''] @
         map (\<lambda>(ls, n). sample_line HTTP_REQUESTS_TOTAL ls (int_str n)) http_counts @
         [''# HELP earth2_http_request_duration_seconds HTTP request duration in seconds.'',
          ''# TYPE earth2_http_request_duration_seconds summary''] @
         map (\<lambda>(ls, n). sample_line (HTTP_REQUEST_DURATION_SECONDS @ ''_count'') ls (int_str n))
           http_counts @
         map (\<lambda>(ls, x). sample_line (HTTP_REQUEST_DURATION_SECONDS @ ''_sum'') ls (flt_str x))
           duration_sums @
         [''# HELP earth2_forecast_jobs_total Total forecast job lifecycle events.'',
          ''# TYPE earth2_forecast_jobs_total counter''] @
         map (\<lambda>(ls, n). sample_line FORECAST_JOBS_TOTAL ls (int_str n)) job_counts)"

definition render_prometheus :: "(pyfloat \<Rightarrow> string) \<Rightarrow> metrics_registry \<Rightarrow> string" where
  "render_prometheus flt_str reg =
     concat (map (\<lambda>l. l @ [CHR 0x0A]) (prometheus_lines flt_str reg))"

section \<open>Counters\<close>

definition job_event_count :: "string \<Rightarrow> metrics_registry \<Rightarrow> int" where
  "job_event_count ev reg = dict_get (forecast_job_counts reg) [(''event'', ev)] 0"

lemma make_labels_single: "make_labels [kv] = [kv]"
  by (simp add: make_labels_def)

lemma job_event_count_increment:
  "job_event_count e (increment_forecast_job_event ev reg) =
     job_event_count e reg + (if e = ev then 1 else 0)"
  by (auto simp: job_event_count_def increment_forecast_job_event_def dict_get_def Let_def
      make_labels_single)

lemma increment_other_counters [simp]:
  "http_request_counts (increment_forecast_job_event ev reg) = http_request_counts reg"
  "http_request_duration_sums (increment_forecast_job_event ev reg) = http_request_duration_sums reg"
  by (simp_all add: increment_forecast_job_event_def Let_def)

section \<open>Label values\<close>

text \<open>The reader of the Prometheus text format undoes the three escapes.\<close>

fun unescape_label_value :: "string \<Rightarrow> string" where
  "unescape_label_value [] = []"
| "unescape_label_value [c] = [c]"
| "unescape_label_value (c # d # s) =
     (if c = CHR 0x5C
      then (if d = CHR ''n'' then CHR 0x0A else d) # unescape_label_value s
      else c # unescape_label_value (d # s))"

lemma escape_label_value_Cons:
  "escape_label_value (c # v) =
     (if c = CHR 0x5C then [CHR 0x5C, CHR 0x5C]
      else if c = CHR 0x0A then [CHR 0x5C, CHR ''n'']
      else if c = CHR 0x22 then [CHR 0x5C, CHR 0x22]
      else [c]) @ escape_label_value v"
  by (simp add: escape_label_value_def)

lemma escape_label_value_Nil [simp]: "escape_label_value [] = []"
  by (simp add: escape_label_value_def)

lemma unescape_plain: "c \<noteq> CHR 0x5C \<Longrightarrow> unescape_label_value (c # s) = c # unescape_label_value s"
  by (cases s) auto

lemma unescape_escape_label: "unescape_label_value (escape_label_value v) = v"
  by (induction v) (auto simp: escape_label_value_Cons unescape_plain)

lemma escape_label_no_newline: "CHR 0x0A \<notin> set (escape_label_value v)"
  by (induction v) (auto simp: escape_label_value_Cons)

end
