(* ===== verification/Job_Store.thy ===== *)
theory Job_Store imports
  Forecast_Schema
  Metrics
begin

text \<open>
  The state every job handler runs in, the helpers of \<open>infrastructure/storage/job_store_helpers.py\<close>,
  and the port \<open>application/ports/forecast_job_store.py\<close>.

  \<^item> \<open>'s world\<close> is the process: the clock (reading number \<open>i\<close> is \<open>clock_fn i\<close>), the id generator,
    the metrics registry and the state \<open>'s\<close> of the configured job store.
  \<^item> \<open>'s job_store_ops\<close> is a store adapter: its seven methods, as handlers.
  \<^item> The abstract store is a map from canonical job ids to jobs; \<open>ref_store\<close> is the adapter that
    works on it directly and states what the port promises.
  \<^item> The locale \<open>job_store\<close> is that promise: each method of the adapter does on its own state what
    \<open>ref_store\<close> does on the map. A handler written against the port then does with any adapter
    what it does with \<open>ref_store\<close>.
\<close>

section \<open>The process state\<close>

record 's world =
  clock_fn :: "nat \<Rightarrow> datetime"
  ticks :: nat
  id_fn :: "nat \<Rightarrow> string"
  ids_used :: nat
  registry :: metrics_registry
  stored :: 's

type_synonym ('s, 'a) job_handler = "('s world, job_error, 'a) handler"

definition clock_now :: "('s, datetime) job_handler" where
  "clock_now w = (Inr (clock_fn w (ticks w)), w\<lparr>ticks := Suc (ticks w)\<rparr>)"

definition new_id :: "('s, string) job_handler" where
  "new_id w = (Inr (id_fn w (ids_used w)), w\<lparr>ids_used := Suc (ids_used w)\<rparr>)"

definition count_event :: "string \<Rightarrow> ('s, unit) job_handler" where
  "count_event ev = modifyM (\<lambda>w. w\<lparr>registry := increment_forecast_job_event ev (registry w)\<rparr>)"

section \<open>Helpers of the store adapters\<close>

definition parse_parent :: "string option \<Rightarrow> job_error + string option" where
  "parse_parent parent =
     (case parent of
        None \<Rightarrow> Inr None
      | Some p \<Rightarrow> (case identity_parse p of Inl e \<Rightarrow> Inl e | Inr k \<Rightarrow> Inr (Some k)))"

definition new_job_record ::
    "job_coordinates \<Rightarrow> string option \<Rightarrow> job_attempt \<Rightarrow> datetime \<Rightarrow> string \<Rightarrow> string \<Rightarrow> forecast_job" where
  "new_job_record coordinates parent_identity job_attempt now identity message =
     \<lparr>job_id = identity, status = Queued, latitude = coord_latitude coordinates,
      longitude = coord_longitude coordinates, parent_job_id = parent_identity,
      attempt = attempt_value job_attempt, created_at = now, updated_at = now,
      started_at = None, completed_at = None, forecast = None,
      diagnostics = Some (make_diagnostics None (Some ''Waiting for forecast worker.'')),
      events = [\<lparr>occurred_at = now, event_status = Queued, event_message = message\<rparr>],
      error = None, links = []\<rparr>"

definition build_new_job ::
    "pyfloat \<Rightarrow> pyfloat \<Rightarrow> string option \<Rightarrow> int \<Rightarrow> ('s, forecast_job) job_handler" where
  "build_new_job lat lon parent n =
     bindM (liftM (make_coordinates lat lon)) (\<lambda>coordinates.
     bindM (liftM (parse_parent parent)) (\<lambda>parent_identity.
     bindM (liftM (make_attempt n parent_identity)) (\<lambda>job_attempt.
     bindM clock_now (\<lambda>now.
     bindM new_id (\<lambda>raw_id.
     bindM (liftM (identity_parse raw_id)) (\<lambda>identity.
     returnM (new_job_record coordinates parent_identity job_attempt now identity
       (case parent of
          Some p \<Rightarrow> if p \<noteq> [] then ''Forecast retry accepted.'' else ''Forecast job accepted.''
        | None \<Rightarrow> ''Forecast job accepted.''))))))))"

definition normalize_job_id :: "string \<Rightarrow> job_error + string" where
  "normalize_job_id jid =
     (case identity_parse jid of
        Inl _ \<Rightarrow> Inl (ForecastJobNotFoundError jid)
      | Inr k \<Rightarrow> Inr k)"

definition prepare_job_for_update :: "forecast_job \<Rightarrow> ('s, forecast_job) job_handler" where
  "prepare_job_for_update j =
     bindM (liftM (normalize_job_id (job_id j))) (\<lambda>k.
     bindM clock_now (\<lambda>now.
     returnM (j\<lparr>job_id := k, updated_at := now\<rparr>)))"

definition ensure_transition_allowed ::
    "forecast_job \<Rightarrow> job_status set \<Rightarrow> job_error + unit" where
  "ensure_transition_allowed current expected =
     (if \<not> can_transition_from (status current) expected
      then Inl (ForecastJobTransitionError (job_id current) (status current) expected)
      else Inr ())"

definition job_key :: "forecast_job \<Rightarrow> datetime \<times> string" where
  "job_key j = (created_at j, job_id j)"

definition sort_jobs :: "forecast_job list \<Rightarrow> forecast_job list" where
  "sort_jobs js = sorted_desc job_key js"

definition status_matches :: "job_status option \<Rightarrow> forecast_job \<Rightarrow> bool" where
  "status_matches s j = (case s of None \<Rightarrow> True | Some t \<Rightarrow> status j = t)"

definition sort_and_filter_jobs ::
    "forecast_job list \<Rightarrow> int \<Rightarrow> job_status option \<Rightarrow> forecast_job list" where
  "sort_and_filter_jobs js limit s = py_take limit (sort_jobs (filter (status_matches s) js))"

section \<open>The port\<close>

record 's job_store_ops =
  op_create :: "pyfloat \<Rightarrow> pyfloat \<Rightarrow> string option \<Rightarrow> int \<Rightarrow> ('s, forecast_job) job_handler"
  op_get :: "string \<Rightarrow> ('s, forecast_job) job_handler"
  op_update :: "forecast_job \<Rightarrow> ('s, forecast_job) job_handler"
  op_update_if_status :: "forecast_job \<Rightarrow> job_status set \<Rightarrow> ('s, forecast_job) job_handler"
  op_list_recent :: "int \<Rightarrow> job_status option \<Rightarrow> ('s, forecast_job list) job_handler"
  op_list_active :: "('s, forecast_job list) job_handler"
  op_delete_older_than :: "datetime \<Rightarrow> job_status set \<Rightarrow> ('s, int) job_handler"

section \<open>The abstract store\<close>

type_synonym job_map = "string \<rightharpoonup> forecast_job"

definition cleanup_match :: "datetime \<Rightarrow> job_status set \<Rightarrow> forecast_job \<Rightarrow> bool" where
  "cleanup_match cutoff statuses j =
     should_cleanup_job (status j) (completed_at j) (updated_at j) cutoff statuses"

text \<open>The jobs of a map that satisfy \<open>P\<close>, newest first.\<close>

definition is_listing :: "(forecast_job \<Rightarrow> bool) \<Rightarrow> job_map \<Rightarrow> forecast_job list \<Rightarrow> bool" where
  "is_listing P m js \<longleftrightarrow>
     set js = {j \<in> ran m. P j} \<and> distinct (map job_id js) \<and> sorted (rev (map job_key js))"

definition job_listing :: "(forecast_job \<Rightarrow> bool) \<Rightarrow> job_map \<Rightarrow> forecast_job list" where
  "job_listing P m = (THE js. is_listing P m js)"

definition ref_create ::
    "pyfloat \<Rightarrow> pyfloat \<Rightarrow> string option \<Rightarrow> int \<Rightarrow> (job_map, forecast_job) job_handler" where
  "ref_create lat lon parent n =
     bindM (build_new_job lat lon parent n) (\<lambda>j.
     bindM (modifyM (\<lambda>w. w\<lparr>stored := (stored w)(job_id j \<mapsto> j)\<rparr>)) (\<lambda>_.
     returnM j))"

definition ref_get :: "string \<Rightarrow> (job_map, forecast_job) job_handler" where
  "ref_get jid w =
     (case normalize_job_id jid of
        Inl e \<Rightarrow> (Inl e, w)
      | Inr k \<Rightarrow> (case stored w k of
            None \<Rightarrow> (Inl (ForecastJobNotFoundError jid), w)
          | Some j \<Rightarrow> (Inr j, w)))"

definition ref_update_if_status ::
    "forecast_job \<Rightarrow> job_status set \<Rightarrow> (job_map, forecast_job) job_handler" where
  "ref_update_if_status j expected =
     bindM (prepare_job_for_update j) (\<lambda>next_job w.
       case stored w (job_id next_job) of
         None \<Rightarrow> (Inl (ForecastJobNotFoundError (job_id next_job)), w)
       | Some current \<Rightarrow>
           (case ensure_transition_allowed current expected of
              Inl e \<Rightarrow> (Inl e, w)
            | Inr _ \<Rightarrow> (Inr next_job, w\<lparr>stored := (stored w)(job_id next_job \<mapsto> next_job)\<rparr>)))"

definition ref_delete_older_than ::
    "datetime \<Rightarrow> job_status set \<Rightarrow> (job_map, int) job_handler" where
  "ref_delete_older_than cutoff statuses w =
     (let old = {k \<in> dom (stored w). cleanup_match cutoff statuses (the (stored w k))}
      in (Inr (int (card old)), w\<lparr>stored := (stored w) |` (- old)\<rparr>))"

definition ref_store :: "job_map job_store_ops" where
  "ref_store =
     \<lparr>op_create = ref_create,
      op_get = ref_get,
      op_update = (\<lambda>j. ref_update_if_status j ALL_JOB_STATUSES),
      op_update_if_status = ref_update_if_status,
      op_list_recent = (\<lambda>limit s w. (Inr (py_take limit (job_listing (status_matches s) (stored w))), w)),
      op_list_active = (\<lambda>w. (Inr (job_listing (\<lambda>j. status j \<in> ACTIVE_JOB_STATUSES) (stored w)), w)),
      op_delete_older_than = ref_delete_older_than\<rparr>"

section \<open>Well-formed stores\<close>

definition store_wf :: "job_map \<Rightarrow> bool" where
  "store_wf m \<longleftrightarrow>
     finite (dom m) \<and> (\<forall>k j. m k = Some j \<longrightarrow> job_id j = k \<and> uuid_canonical k \<and> storable j)"

lemma store_wf_empty: "store_wf Map.empty"
  by (simp add: store_wf_def)

lemma store_wfD:
  "store_wf m \<Longrightarrow> m k = Some j \<Longrightarrow> job_id j = k"
  "store_wf m \<Longrightarrow> m k = Some j \<Longrightarrow> uuid_canonical k"
  "store_wf m \<Longrightarrow> m k = Some j \<Longrightarrow> storable j"
  "store_wf m \<Longrightarrow> finite (dom m)"
  by (auto simp: store_wf_def)

lemma store_wf_upd:
  "store_wf m \<Longrightarrow> job_id j = k \<Longrightarrow> uuid_canonical k \<Longrightarrow> storable j \<Longrightarrow> store_wf (m(k \<mapsto> j))"
  by (auto simp: store_wf_def)

lemma store_wf_restrict: "store_wf m \<Longrightarrow> store_wf (m |` A)"
  by (simp add: store_wf_def) (simp add: restrict_map_def)

lemma normalize_job_id_Inr: "normalize_job_id v = Inr k \<longleftrightarrow> identity_parse v = Inr k"
  by (auto simp: normalize_job_id_def split: sum.splits)

lemma normalize_job_id_canonical: "normalize_job_id v = Inr k \<Longrightarrow> uuid_canonical k"
  by (auto simp: normalize_job_id_Inr identity_parse_canonical)

lemma normalize_canonical [simp]: "uuid_canonical k \<Longrightarrow> normalize_job_id k = Inr k"
  by (simp add: normalize_job_id_Inr)

lemma normalize_job_id_Inl: "normalize_job_id v = Inl e \<Longrightarrow> e = ForecastJobNotFoundError v"
  by (auto simp: normalize_job_id_def split: sum.splits)

section \<open>Listings are unique\<close>

lemma job_key_inj: "store_wf m \<Longrightarrow> inj_on job_key (ran m)"
  by (auto simp: inj_on_def job_key_def ran_def store_wf_def)

lemma job_id_inj: "store_wf m \<Longrightarrow> inj_on job_id (ran m)"
  by (auto simp: inj_on_def ran_def store_wf_def)

lemma is_listing_sort:
  "is_listing P m js \<Longrightarrow> sort (map job_key js) = rev (map job_key js)"
  by (intro properties_for_sort) (auto simp: is_listing_def)

lemma is_listing_unique:
  assumes wf: "store_wf m" and js: "is_listing P m js" and js': "is_listing P m js'"
  shows "js = js'"
proof -
  have same: "mset js = mset js'"
    using js js' by (intro set_eq_iff_mset_eq_distinct [THEN iffD1])
      (auto simp: is_listing_def distinct_map)
  have inj: "inj_on job_key (set js \<union> set js')"
    using js js' by (intro inj_on_subset [OF job_key_inj [OF wf]]) (auto simp: is_listing_def)
  have "mset (map job_key js) = mset (map job_key js')" using same by simp
  then have "sort (map job_key js) = sort (map job_key js')"
    by (intro properties_for_sort) simp_all
  then have "map job_key js = map job_key js'"
    by (simp add: is_listing_sort [OF js] is_listing_sort [OF js'])
  with inj show ?thesis by (simp add: inj_on_map_eq_map)
qed

lemma job_listing_eq: "store_wf m \<Longrightarrow> is_listing P m js \<Longrightarrow> job_listing P m = js"
  unfolding job_listing_def by (rule the_equality) (auto intro: is_listing_unique)

text \<open>Sorting any enumeration of the stored jobs gives the listing.\<close>

lemma sort_jobs_listing:
  assumes "set js = ran m" and "distinct (map job_id js)"
  shows "is_listing P m (sort_jobs (filter P js))"
proof -
  have "distinct (map job_id (sort_jobs (filter P js)))"
    using assms(2) unfolding sort_jobs_def
    by (metis distinct_map_filter mset_eq_imp_distinct_iff mset_map mset_sorted_desc)
  then show ?thesis
    using assms sorted_desc_sorted [of job_key "filter P js"]
    by (auto simp: is_listing_def sort_jobs_def)
qed

end
