(* ===== verification/Job_Store_Port.thy ===== *)
theory Job_Store_Port imports
  Job_Store
begin

text \<open>
  The contract of the port \<open>ForecastJobStore\<close> as a locale, the calculus of simulations that lifts
  it through the handlers, and its first instance: the abstract store itself.

  \<open>simulates ok amap P h g\<close> says that from every store state that satisfies \<open>ok\<close> the handler \<open>h\<close>
  keeps \<open>ok\<close>, returns exactly what \<open>g\<close> returns on the abstract store (the same value or the same
  exception), leaves the clock, the ids and the metrics exactly as \<open>g\<close> does, and only returns
  values that satisfy \<open>P\<close>.
\<close>

definition abs_world :: "('s \<Rightarrow> 't) \<Rightarrow> 's world \<Rightarrow> 't world" where
  "abs_world amap w =
     \<lparr>clock_fn = clock_fn w, ticks = ticks w, id_fn = id_fn w, ids_used = ids_used w,
      registry = registry w, stored = amap (stored w)\<rparr>"

lemma abs_world_sel [simp]:
  "clock_fn (abs_world amap w) = clock_fn w" "ticks (abs_world amap w) = ticks w"
  "id_fn (abs_world amap w) = id_fn w" "ids_used (abs_world amap w) = ids_used w"
  "registry (abs_world amap w) = registry w" "stored (abs_world amap w) = amap (stored w)"
  by (simp_all add: abs_world_def)

lemma abs_world_upd [simp]:
  "(abs_world amap w)\<lparr>ticks := n\<rparr> = abs_world amap (w\<lparr>ticks := n\<rparr>)"
  "(abs_world amap w)\<lparr>ids_used := n\<rparr> = abs_world amap (w\<lparr>ids_used := n\<rparr>)"
  "(abs_world amap w)\<lparr>registry := r\<rparr> = abs_world amap (w\<lparr>registry := r\<rparr>)"
  by (simp_all add: abs_world_def)

lemma abs_world_stored: "(abs_world amap w)\<lparr>stored := amap s\<rparr> = abs_world amap (w\<lparr>stored := s\<rparr>)"
  by (simp add: abs_world_def)

lemma abs_world_id [simp]: "abs_world id w = w" "abs_world (\<lambda>s. s) w = w"
  by (simp_all add: abs_world_def)

definition simulates ::
    "('s \<Rightarrow> bool) \<Rightarrow> ('s \<Rightarrow> 't) \<Rightarrow> ('a \<Rightarrow> bool) \<Rightarrow> ('s, 'a) job_handler \<Rightarrow> ('t, 'a) job_handler \<Rightarrow> bool" where
  "simulates ok amap P h g \<longleftrightarrow>
     (\<forall>w r w'. ok (stored w) \<longrightarrow> h w = (r, w') \<longrightarrow>
        ok (stored w') \<and> g (abs_world amap w) = (r, abs_world amap w') \<and> (\<forall>x. r = Inr x \<longrightarrow> P x))"

named_theorems sim_intros \<open>simulation rules for the handler combinators\<close>

lemma simulatesI:
  assumes "\<And>w r w'. ok (stored w) \<Longrightarrow> h w = (r, w') \<Longrightarrow>
             ok (stored w') \<and> g (abs_world amap w) = (r, abs_world amap w') \<and> (\<forall>x. r = Inr x \<longrightarrow> P x)"
  shows "simulates ok amap P h g"
  using assms by (auto simp: simulates_def)

lemma simulatesD:
  assumes "simulates ok amap P h g" and "ok (stored w)" and "h w = (r, w')"
  shows "ok (stored w')" and "g (abs_world amap w) = (r, abs_world amap w')"
    and "\<And>x. r = Inr x \<Longrightarrow> P x"
  using assms by (auto simp: simulates_def)

lemma simulates_weaken: "simulates ok amap P h g \<Longrightarrow> (\<And>x. P x \<Longrightarrow> Q x) \<Longrightarrow> simulates ok amap Q h g"
  by (auto simp: simulates_def)

lemma simulates_top: "simulates ok amap P h g \<Longrightarrow> simulates ok amap (\<lambda>_. True) h g"
  by (erule simulates_weaken) simp

lemma simulates_return [sim_intros]: "P x \<Longrightarrow> simulates ok amap P (returnM x) (returnM x)"
  by (auto simp: simulates_def)

lemma simulates_raise [sim_intros]: "simulates ok amap P (raiseM e) (raiseM e)"
  by (auto simp: simulates_def)

lemma simulates_lift [sim_intros]:
  "(\<And>x. r = Inr x \<Longrightarrow> P x) \<Longrightarrow> simulates ok amap P (liftM r) (liftM r)"
  by (auto simp: simulates_def)

lemma simulates_clock [sim_intros]: "simulates ok amap (\<lambda>_. True) clock_now clock_now"
  by (auto simp: simulates_def clock_now_def)

lemma simulates_new_id [sim_intros]: "simulates ok amap (\<lambda>_. True) new_id new_id"
  by (auto simp: simulates_def new_id_def)

lemma simulates_count [sim_intros]: "simulates ok amap (\<lambda>_. True) (count_event ev) (count_event ev)"
  by (auto simp: simulates_def count_event_def)

lemma simulates_bind [sim_intros]:
  assumes m: "simulates ok amap Q m m'" and f: "\<And>x. Q x \<Longrightarrow> simulates ok amap P (f x) (f' x)"
  shows "simulates ok amap P (bindM m f) (bindM m' f')"
proof (rule simulatesI)
  fix w r w' assume iw: "ok (stored w)" and run: "bindM m f w = (r, w')"
  from run show "ok (stored w') \<and> bindM m' f' (abs_world amap w) = (r, abs_world amap w') \<and>
                 (\<forall>x. r = Inr x \<longrightarrow> P x)"
  proof (cases rule: bindM_cases)
    case (raised e)
    with simulatesD [OF m iw] show ?thesis by (auto simp: bindM_def)
  next
    case (returned x s1)
    note 1 = simulatesD [OF m iw returned(1)]
    note 2 = simulatesD [OF f [OF 1(3) [OF refl]] 1(1) returned(2)]
    show ?thesis using 1 2 by (auto simp: bindM_def)
  qed
qed

lemma simulates_catch:
  assumes m: "simulates ok amap P m m'" and h: "\<And>e. simulates ok amap P (h e) (h' e)"
  shows "simulates ok amap P (catchM m h) (catchM m' h')"
proof (rule simulatesI)
  fix w r w' assume iw: "ok (stored w)" and run: "catchM m h w = (r, w')"
  from run show "ok (stored w') \<and> catchM m' h' (abs_world amap w) = (r, abs_world amap w') \<and>
                 (\<forall>x. r = Inr x \<longrightarrow> P x)"
  proof (cases rule: catchM_cases)
    case (raised e s1)
    note 1 = simulatesD [OF m iw raised(1)]
    note 2 = simulatesD [OF h 1(1) raised(2)]
    show ?thesis using 1 2 by (auto simp: catchM_def)
  next
    case (returned x)
    with simulatesD [OF m iw returned(1)] show ?thesis by (auto simp: catchM_def)
  qed
qed

lemma simulates_if [sim_intros]:
  "(b \<Longrightarrow> simulates ok amap P h g) \<Longrightarrow> (\<not> b \<Longrightarrow> simulates ok amap P h' g') \<Longrightarrow>
   simulates ok amap P (if b then h else h') (if b then g else g')"
  by auto

lemma simulates_build_new_job:
  "simulates ok amap (\<lambda>j. storable j \<and> uuid_canonical (job_id j))
     (build_new_job lat lon parent n) (build_new_job lat lon parent n)"
proof -
  have built: "storable (new_job_record c p a now k msg) \<and> uuid_canonical (job_id (new_job_record c p a now k msg))"
    if "make_coordinates lat lon = Inr c" "make_attempt n p = Inr a" "identity_parse raw = Inr k"
    for c p a now k msg raw
    using that by (auto simp: storable_def forecast_job_valid_def new_job_record_def
        make_coordinates_Inr make_attempt_Inr identity_parse_canonical)
  show ?thesis
    unfolding build_new_job_def
    by (rule simulates_bind, rule simulates_lift, assumption)+
      (rule simulates_bind, rule simulates_clock, rule simulates_bind, rule simulates_new_id,
       rule simulates_bind, rule simulates_lift, assumption, rule simulates_return, rule built)
qed

section \<open>The contract\<close>

locale job_store =
  fixes st :: "'s job_store_ops" and ok :: "'s \<Rightarrow> bool" and amap :: "'s \<Rightarrow> job_map"
  assumes inv_wf: "ok s \<Longrightarrow> store_wf (amap s)"
    and sim_create: "simulates ok amap storable (op_create st lat lon p n) (op_create ref_store lat lon p n)"
    and sim_get: "simulates ok amap storable (op_get st jid) (op_get ref_store jid)"
    and sim_update: "storable j \<Longrightarrow>
          simulates ok amap storable (op_update st j) (op_update ref_store j)"
    and sim_update_if_status: "storable j \<Longrightarrow>
          simulates ok amap storable (op_update_if_status st j X) (op_update_if_status ref_store j X)"
    and sim_list_recent:
          "simulates ok amap (list_all storable) (op_list_recent st limit s') (op_list_recent ref_store limit s')"
    and sim_list_active:
          "simulates ok amap (list_all storable) (op_list_active st) (op_list_active ref_store)"
    and sim_delete: "simulates ok amap (\<lambda>_. True)
          (op_delete_older_than st cutoff X) (op_delete_older_than ref_store cutoff X)"
begin

lemmas store_sims = sim_create sim_get sim_update sim_update_if_status sim_list_recent
  sim_list_active sim_delete

end

section \<open>The abstract store satisfies it\<close>

lemma ref_store_sel [simp]:
  "op_create ref_store = ref_create" "op_get ref_store = ref_get"
  "op_update ref_store j = ref_update_if_status j ALL_JOB_STATUSES"
  "op_update_if_status ref_store = ref_update_if_status"
  "op_list_recent ref_store limit s =
     (\<lambda>w. (Inr (py_take limit (job_listing (status_matches s) (stored w))), w))"
  "op_list_active ref_store = (\<lambda>w. (Inr (job_listing (\<lambda>j. status j \<in> ACTIVE_JOB_STATUSES) (stored w)), w))"
  "op_delete_older_than ref_store = ref_delete_older_than"
  by (simp_all add: ref_store_def)

lemma job_listing_is_listing: "store_wf m \<Longrightarrow> is_listing P m (job_listing P m)"
proof -
  assume wf: "store_wf m"
  obtain ks where ks: "set ks = dom m" "distinct ks"
    using finite_distinct_list [OF store_wfD(4) [OF wf]] by auto
  let ?js = "map (the \<circ> m) ks"
  have "map job_id ?js = ks"
    using ks(1) store_wfD(1) [OF wf] by (auto intro!: map_idI)
  moreover have "set ?js = ran m"
    using ks(1) by (auto simp: ran_def) (metis domI image_iff option.sel)
  ultimately have "is_listing P m (sort_jobs (filter P ?js))"
    using ks(2) by (intro sort_jobs_listing) simp_all
  with job_listing_eq [OF wf this] show ?thesis by simp
qed

lemma storable_listing: "store_wf m \<Longrightarrow> list_all storable (job_listing P m)"
  using job_listing_is_listing [of m P]
  by (auto simp: is_listing_def list_all_iff ran_def dest: store_wfD(3))

lemma list_all_py_take: "list_all P xs \<Longrightarrow> list_all P (py_take n xs)"
  by (simp add: py_take_def list_all_iff) (meson in_set_takeD)

lemma ref_get_Inr:
  "ref_get jid w = (Inr j, w') \<longleftrightarrow>
     (\<exists>k. normalize_job_id jid = Inr k \<and> stored w k = Some j \<and> w' = w)"
  by (auto simp: ref_get_def split: sum.splits option.splits)

lemma ref_get_world: "ref_get jid w = (r, w') \<Longrightarrow> w' = w"
  by (auto simp: ref_get_def split: sum.splits option.splits)

lemma ref_get_Inl: "ref_get jid w = (Inl e, w') \<Longrightarrow> e = ForecastJobNotFoundError jid"
  by (auto simp: ref_get_def split: sum.splits option.splits dest: normalize_job_id_Inl)

lemma simulates_id_wf:
  "(\<And>w r w'. store_wf (stored w) \<Longrightarrow> h w = (r, w') \<Longrightarrow>
      store_wf (stored w') \<and> (\<forall>x. r = Inr x \<longrightarrow> P x)) \<Longrightarrow> simulates store_wf id P h h"
  by (rule simulatesI) auto

lemma prepare_run:
  assumes "prepare_job_for_update j w = (r, w')"
  obtains (bad) "r = Inl (ForecastJobNotFoundError (job_id j))" and "w' = w"
    and "\<And>k. normalize_job_id (job_id j) \<noteq> Inr k"
  | (good) k where "normalize_job_id (job_id j) = Inr k"
    and "r = Inr (j\<lparr>job_id := k, updated_at := clock_fn w (ticks w)\<rparr>)"
    and "w' = w\<lparr>ticks := Suc (ticks w)\<rparr>"
  using assms unfolding prepare_job_for_update_def
  by (auto simp: bindM_def clock_now_def split: sum.splits prod.splits dest: normalize_job_id_Inl)

lemma ref_update_wf:
  assumes wf: "store_wf (stored w)" and run: "ref_update_if_status j X w = (r, w')" and j: "storable j"
  shows "store_wf (stored w') \<and> (\<forall>x. r = Inr x \<longrightarrow> storable x)"
  using run unfolding ref_update_if_status_def
proof (cases rule: bindM_cases)
  case (raised e)
  then show ?thesis using wf by (auto elim!: prepare_run)
next
  case (returned j1 w1)
  from returned(1) show ?thesis
  proof (cases rule: prepare_run)
    case (good k)
    then show ?thesis
      using returned(2) wf j
      by (auto split: option.splits sum.splits intro!: store_wf_upd dest: normalize_job_id_canonical)
  qed simp
qed

interpretation ref: job_store ref_store store_wf id
proof
  show "simulates store_wf id storable (op_create ref_store lat lon p n) (op_create ref_store lat lon p n)"
    for lat lon p n
    unfolding ref_store_sel ref_create_def
    by (rule simulates_bind [OF simulates_build_new_job],
        rule simulates_bind [where Q = "\<lambda>_. True"], rule simulates_id_wf)
      (auto intro: store_wf_upd simulates_return)
  show "simulates store_wf id storable (op_get ref_store jid) (op_get ref_store jid)" for jid
    by (rule simulates_id_wf) (auto dest: ref_get_world simp: ref_get_Inr dest: store_wfD(3))
  show "storable j \<Longrightarrow> simulates store_wf id storable (op_update ref_store j) (op_update ref_store j)" for j
    unfolding ref_store_sel by (rule simulates_id_wf) (drule (2) ref_update_wf, simp)
  show "storable j \<Longrightarrow> simulates store_wf id storable
          (op_update_if_status ref_store j X) (op_update_if_status ref_store j X)" for j X
    unfolding ref_store_sel by (rule simulates_id_wf) (drule (2) ref_update_wf, simp)
  show "simulates store_wf id (list_all storable) (op_list_recent ref_store l s) (op_list_recent ref_store l s)" for l s
    by (rule simulates_id_wf) (auto intro: list_all_py_take storable_listing)
  show "simulates store_wf id (list_all storable) (op_list_active ref_store) (op_list_active ref_store)"
    by (rule simulates_id_wf) (auto intro: storable_listing)
  show "simulates store_wf id (\<lambda>_. True) (op_delete_older_than ref_store c X) (op_delete_older_than ref_store c X)" for c X
    by (rule simulates_id_wf) (auto simp: ref_delete_older_than_def Let_def intro: store_wf_restrict)
qed simp_all

section \<open>Running the abstract store\<close>

lemma ref_get_run [run_simps]:
  "uuid_canonical k \<Longrightarrow> ref_get k w = (case stored w k of
     None \<Rightarrow> (Inl (ForecastJobNotFoundError k), w) | Some j \<Rightarrow> (Inr j, w))"
  by (simp add: ref_get_def)

lemma prepare_canonical [run_simps]:
  "uuid_canonical (job_id j) \<Longrightarrow>
   prepare_job_for_update j w =
     (Inr (j\<lparr>updated_at := clock_fn w (ticks w)\<rparr>), w\<lparr>ticks := Suc (ticks w)\<rparr>)"
  by (simp add: prepare_job_for_update_def bindM_def clock_now_def)

lemma ref_update_found:
  "uuid_canonical (job_id j) \<Longrightarrow> stored w (job_id j) = Some c \<Longrightarrow> status c \<in> X \<Longrightarrow>
   ref_update_if_status j X w =
     (Inr (j\<lparr>updated_at := clock_fn w (ticks w)\<rparr>),
      w\<lparr>ticks := Suc (ticks w),
        stored := (stored w)(job_id j \<mapsto> j\<lparr>updated_at := clock_fn w (ticks w)\<rparr>)\<rparr>)"
  by (simp add: ref_update_if_status_def bindM_def prepare_canonical ensure_transition_allowed_def
      can_transition_from_def)

lemma ref_update_refused:
  "uuid_canonical (job_id j) \<Longrightarrow> stored w (job_id j) = Some c \<Longrightarrow> status c \<notin> X \<Longrightarrow>
   ref_update_if_status j X w =
     (Inl (ForecastJobTransitionError (job_id c) (status c) X), w\<lparr>ticks := Suc (ticks w)\<rparr>)"
  by (simp add: ref_update_if_status_def bindM_def prepare_canonical ensure_transition_allowed_def
      can_transition_from_def)

lemma ref_update_missing:
  "uuid_canonical (job_id j) \<Longrightarrow> stored w (job_id j) = None \<Longrightarrow>
   ref_update_if_status j X w =
     (Inl (ForecastJobNotFoundError (job_id j)), w\<lparr>ticks := Suc (ticks w)\<rparr>)"
  by (simp add: ref_update_if_status_def bindM_def prepare_canonical)

end
