(* ===== verification/Memory_Store.thy ===== *)
theory Memory_Store imports
  Job_Store_Port
begin

text \<open>
  \<open>infrastructure/storage/memory_job_store.py\<close>: \<open>InMemoryForecastJobStore\<close>, a dict from job ids to
  jobs under one asyncio lock. Nothing awaits while it holds the lock, so every method is one
  atomic step. The interpretation \<open>mem\<close> shows that the dict is a faithful job store.
\<close>

record memory_store =
  mem_jobs :: "(string \<times> forecast_job) list"

definition empty_memory_store :: memory_store where
  "empty_memory_store = \<lparr>mem_jobs = []\<rparr>"

definition mem_put :: "forecast_job \<Rightarrow> memory_store world \<Rightarrow> memory_store world" where
  "mem_put j w = w\<lparr>stored := (stored w)\<lparr>mem_jobs := AList.update (job_id j) j (mem_jobs (stored w))\<rparr>\<rparr>"

definition mem_create ::
    "pyfloat \<Rightarrow> pyfloat \<Rightarrow> string option \<Rightarrow> int \<Rightarrow> (memory_store, forecast_job) job_handler" where
  "mem_create lat lon parent n =
     bindM (build_new_job lat lon parent n) (\<lambda>j.
     bindM (modifyM (mem_put j)) (\<lambda>_.
     returnM j))"

definition mem_get :: "string \<Rightarrow> (memory_store, forecast_job) job_handler" where
  "mem_get jid w =
     (case normalize_job_id jid of
        Inl e \<Rightarrow> (Inl e, w)
      | Inr normalized_job_id \<Rightarrow>
          (case map_of (mem_jobs (stored w)) normalized_job_id of
             None \<Rightarrow> (Inl (ForecastJobNotFoundError jid), w)
           | Some j \<Rightarrow> (Inr j, w)))"

definition mem_update_if_status ::
    "forecast_job \<Rightarrow> job_status set \<Rightarrow> (memory_store, forecast_job) job_handler" where
  "mem_update_if_status j expected_statuses =
     bindM (prepare_job_for_update j) (\<lambda>next_job w.
       case map_of (mem_jobs (stored w)) (job_id next_job) of
         None \<Rightarrow> (Inl (ForecastJobNotFoundError (job_id next_job)), w)
       | Some current \<Rightarrow>
           (case ensure_transition_allowed current expected_statuses of
              Inl e \<Rightarrow> (Inl e, w)
            | Inr _ \<Rightarrow> (Inr next_job, mem_put next_job w)))"

definition mem_update :: "forecast_job \<Rightarrow> (memory_store, forecast_job) job_handler" where
  "mem_update j = mem_update_if_status j ALL_JOB_STATUSES"

definition mem_values :: "memory_store \<Rightarrow> forecast_job list" where
  "mem_values s = map snd (mem_jobs s)"

definition mem_list_recent ::
    "int \<Rightarrow> job_status option \<Rightarrow> (memory_store, forecast_job list) job_handler" where
  "mem_list_recent limit s w = (Inr (sort_and_filter_jobs (mem_values (stored w)) limit s), w)"

definition mem_list_active :: "(memory_store, forecast_job list) job_handler" where
  "mem_list_active w =
     (Inr (sort_jobs (filter (\<lambda>j. status j \<in> ACTIVE_JOB_STATUSES) (mem_values (stored w)))), w)"

text \<open>\<open>for job_id in job_ids: del self._jobs[job_id]\<close>; deleting an absent key is a \<open>KeyError\<close>.\<close>

fun mem_delete_all :: "string list \<Rightarrow> memory_store \<Rightarrow> (job_error + unit) \<times> memory_store" where
  "mem_delete_all [] s = (Inr (), s)"
| "mem_delete_all (k # ks) s =
     (if map_of (mem_jobs s) k = None then (Inl (KeyError k), s)
      else mem_delete_all ks (s\<lparr>mem_jobs := AList.delete k (mem_jobs s)\<rparr>))"

definition mem_delete_older_than ::
    "datetime \<Rightarrow> job_status set \<Rightarrow> (memory_store, int) job_handler" where
  "mem_delete_older_than cutoff statuses w =
     (let job_ids = map job_id (filter (cleanup_match cutoff statuses) (mem_values (stored w)))
      in case mem_delete_all job_ids (stored w) of
           (Inl e, s) \<Rightarrow> (Inl e, w\<lparr>stored := s\<rparr>)
         | (Inr _, s) \<Rightarrow> (Inr (int (length job_ids)), w\<lparr>stored := s\<rparr>))"

definition memory_ops :: "memory_store job_store_ops" where
  "memory_ops =
     \<lparr>op_create = mem_create, op_get = mem_get, op_update = mem_update,
      op_update_if_status = mem_update_if_status, op_list_recent = mem_list_recent,
      op_list_active = mem_list_active, op_delete_older_than = mem_delete_older_than\<rparr>"

lemma memory_ops_sel [simp]:
  "op_create memory_ops = mem_create" "op_get memory_ops = mem_get"
  "op_update memory_ops = mem_update" "op_update_if_status memory_ops = mem_update_if_status"
  "op_list_recent memory_ops = mem_list_recent" "op_list_active memory_ops = mem_list_active"
  "op_delete_older_than memory_ops = mem_delete_older_than"
  by (simp_all add: memory_ops_def)

section \<open>The dict as a map\<close>

definition mem_map :: "memory_store \<Rightarrow> job_map" where
  "mem_map s = map_of (mem_jobs s)"

definition mem_ok :: "memory_store \<Rightarrow> bool" where
  "mem_ok s \<longleftrightarrow> distinct (map fst (mem_jobs s)) \<and> store_wf (mem_map s)"

lemma mem_ok_empty: "mem_ok empty_memory_store" and mem_map_empty: "mem_map empty_memory_store = Map.empty"
  by (simp_all add: mem_ok_def mem_map_def empty_memory_store_def store_wf_empty)

lemma mem_put_map [simp]: "mem_map (stored (mem_put j w)) = (mem_map (stored w))(job_id j \<mapsto> j)"
  by (simp add: mem_put_def mem_map_def)

lemma mem_put_ok:
  "mem_ok (stored w) \<Longrightarrow> uuid_canonical (job_id j) \<Longrightarrow> storable j \<Longrightarrow> mem_ok (stored (mem_put j w))"
  by (simp add: mem_ok_def store_wf_upd) (simp add: mem_put_def)

lemma mem_put_world:
  "abs_world mem_map (mem_put j w) =
     (abs_world mem_map w)\<lparr>stored := (mem_map (stored w))(job_id j \<mapsto> j)\<rparr>"
  by (simp add: mem_put_def abs_world_def mem_map_def)

lemma mem_values_enum:
  assumes "mem_ok s"
  shows "set (mem_values s) = ran (mem_map s)" and "distinct (map job_id (mem_values s))"
proof -
  have d: "distinct (map fst (mem_jobs s))" and wf: "store_wf (mem_map s)"
    using assms by (auto simp: mem_ok_def)
  show "set (mem_values s) = ran (mem_map s)"
    using d by (simp add: mem_values_def mem_map_def ran_map_of_distinct)
  have "map job_id (mem_values s) = map fst (mem_jobs s)"
    using d store_wfD(1) [OF wf] by (auto simp: mem_values_def mem_map_def)
  with d show "distinct (map job_id (mem_values s))" by simp
qed

lemma mem_listing:
  "mem_ok s \<Longrightarrow> sort_jobs (filter P (mem_values s)) = job_listing P (mem_map s)"
  using job_listing_eq [OF _ sort_jobs_listing [OF mem_values_enum]] by (auto simp: mem_ok_def)

lemma mem_delete_all_run:
  assumes "distinct ks" and "set ks \<subseteq> dom (mem_map s)" and "mem_ok s"
  shows "\<exists>s'. mem_delete_all ks s = (Inr (), s') \<and> mem_ok s' \<and> mem_map s' = mem_map s |` (- set ks)"
  using assms
proof (induction ks arbitrary: s)
  case (Cons k ks)
  let ?s = "s\<lparr>mem_jobs := AList.delete k (mem_jobs s)\<rparr>"
  have m: "mem_map ?s = mem_map s |` (- {k})"
    by (auto simp: mem_map_def restrict_map_def)
  have "mem_ok ?s"
    using Cons.prems(3) m by (simp add: mem_ok_def store_wf_restrict)
  moreover have "set ks \<subseteq> dom (mem_map ?s)"
    using Cons.prems m by auto
  ultimately obtain s' where "mem_delete_all ks ?s = (Inr (), s')" "mem_ok s'"
      "mem_map s' = mem_map ?s |` (- set ks)"
    using Cons.IH Cons.prems(1) by auto
  moreover have "map_of (mem_jobs s) k \<noteq> None"
    using Cons.prems(2) by (auto simp: mem_map_def)
  moreover have "- {k} \<inter> - set ks = - insert k (set ks)" by auto
  ultimately show ?case by (auto simp: m)
qed (simp add: restrict_map_def)

lemma mem_cleanup_ids:
  fixes P
  assumes "mem_ok s"
  defines "ids \<equiv> map job_id (filter P (mem_values s))"
  shows "distinct ids" and "set ids = {k \<in> dom (mem_map s). P (the (mem_map s k))}"
proof -
  show "distinct ids"
    unfolding ids_def using mem_values_enum(2) [OF assms(1)] by (rule distinct_map_filter)
  have "job_id ` {j \<in> ran (mem_map s). P j} = {k \<in> dom (mem_map s). P (the (mem_map s k))}"
    using store_wfD(1) [of "mem_map s"] assms(1) unfolding mem_ok_def
    by (auto simp: ran_def dom_def image_iff) metis+
  then show "set ids = {k \<in> dom (mem_map s). P (the (mem_map s k))}"
    by (simp add: ids_def mem_values_enum(1) [OF assms(1)] image_def conj_commute)
qed

section \<open>The dict satisfies the port\<close>

lemma sim_mem_get: "simulates mem_ok mem_map storable (mem_get jid) (ref_get jid)"
  by (rule simulatesI)
    (fastforce simp: mem_get_def ref_get_def mem_ok_def mem_map_def [symmetric]
      split: sum.splits option.splits dest: store_wfD(3))

lemma simulates_prepare:
  "storable j \<Longrightarrow> simulates ok amap (\<lambda>x. storable x \<and> uuid_canonical (job_id x))
     (prepare_job_for_update j) (prepare_job_for_update j)"
  unfolding prepare_job_for_update_def
  by (rule simulates_bind [where Q = uuid_canonical])
    (auto intro!: sim_intros dest: normalize_job_id_canonical)

lemma sim_mem_update_if_status:
  assumes "storable j"
  shows "simulates mem_ok mem_map storable (mem_update_if_status j X) (ref_update_if_status j X)"
  unfolding mem_update_if_status_def ref_update_if_status_def
proof (rule simulates_bind [OF simulates_prepare [OF assms]], rule simulatesI)
  fix x and w r w'
  assume "storable x \<and> uuid_canonical (job_id x)" and "mem_ok (stored w)"
    and "(case map_of (mem_jobs (stored w)) (job_id x) of
           None \<Rightarrow> (Inl (ForecastJobNotFoundError (job_id x)), w)
         | Some current \<Rightarrow>
             (case ensure_transition_allowed current X of
                Inl e \<Rightarrow> (Inl e, w) | Inr _ \<Rightarrow> (Inr x, mem_put x w))) = (r, w')"
  then show "mem_ok (stored w') \<and>
      (case stored (abs_world mem_map w) (job_id x) of
         None \<Rightarrow> (Inl (ForecastJobNotFoundError (job_id x)), abs_world mem_map w)
       | Some current \<Rightarrow>
           (case ensure_transition_allowed current X of
              Inl e \<Rightarrow> (Inl e, abs_world mem_map w)
            | Inr _ \<Rightarrow> (Inr x, (abs_world mem_map w)\<lparr>stored := (stored (abs_world mem_map w))(job_id x \<mapsto> x)\<rparr>)))
        = (r, abs_world mem_map w') \<and> (\<forall>y. r = Inr y \<longrightarrow> storable y)"
    by (auto simp: mem_map_def [symmetric] mem_put_world mem_put_ok split: option.splits sum.splits)
qed

lemma sim_mem_create: "simulates mem_ok mem_map storable (mem_create lat lon p n) (ref_create lat lon p n)"
  unfolding mem_create_def ref_create_def
proof (rule simulates_bind [OF simulates_build_new_job])
  fix j assume "storable j \<and> uuid_canonical (job_id j)"
  then show "simulates mem_ok mem_map storable
      (bindM (modifyM (mem_put j)) (\<lambda>_. returnM j))
      (bindM (modifyM (\<lambda>w. w\<lparr>stored := (stored w)(job_id j \<mapsto> j)\<rparr>)) (\<lambda>_. returnM j))"
    by (intro simulatesI) (auto simp: mem_put_ok mem_put_world)
qed

lemma sim_mem_delete:
  "simulates mem_ok mem_map (\<lambda>_. True) (mem_delete_older_than c X) (ref_delete_older_than c X)"
proof (rule simulatesI)
  fix w r w' assume ok: "mem_ok (stored w)" and run: "mem_delete_older_than c X w = (r, w')"
  let ?ids = "map job_id (filter (cleanup_match c X) (mem_values (stored w)))"
  note ids = mem_cleanup_ids [OF ok, of "cleanup_match c X"]
  obtain s' where s': "mem_delete_all ?ids (stored w) = (Inr (), s')" "mem_ok s'"
      "mem_map s' = mem_map (stored w) |` (- set ?ids)"
    using mem_delete_all_run [OF ids(1) _ ok] ids(2) by auto
  have "length ?ids = card {k \<in> dom (mem_map (stored w)). cleanup_match c X (the (mem_map (stored w) k))}"
    using distinct_card [OF ids(1)] unfolding ids(2) by simp
  with s' run show "mem_ok (stored w') \<and>
      ref_delete_older_than c X (abs_world mem_map w) = (r, abs_world mem_map w') \<and>
      (\<forall>x. r = Inr x \<longrightarrow> True)"
    unfolding ids(2) by (auto simp: mem_delete_older_than_def ref_delete_older_than_def Let_def
        simp flip: abs_world_stored)
qed

interpretation mem: job_store memory_ops mem_ok mem_map
proof
  show "mem_ok s \<Longrightarrow> store_wf (mem_map s)" for s by (simp add: mem_ok_def)
  show "simulates mem_ok mem_map (list_all storable) (op_list_recent memory_ops l s) (op_list_recent ref_store l s)" for l s
    by (rule simulatesI)
      (auto simp: mem_list_recent_def sort_and_filter_jobs_def mem_listing mem_ok_def
        intro!: list_all_py_take storable_listing)
  show "simulates mem_ok mem_map (list_all storable) (op_list_active memory_ops) (op_list_active ref_store)"
    by (rule simulatesI)
      (auto simp: mem_list_active_def mem_listing mem_ok_def intro!: storable_listing)
qed (simp_all add: sim_mem_create sim_mem_get sim_mem_update_if_status sim_mem_delete mem_update_def)

end
