(* ===== verification/File_Store.thy ===== *)
theory File_Store imports
  Memory_Store
begin

text \<open>
  \<open>infrastructure/storage/file_job_store.py\<close>: \<open>FileForecastJobStore\<close>, one JSON file per job in one
  directory.

  The state is the directory: whether it exists and its files by name. The text of a file has an
  arbitrary type \<open>'c\<close>; \<open>dump\<close> is pydantic's \<open>model_dump_json\<close> and \<open>load\<close> its \<open>model_validate_json\<close>
  (\<open>None\<close> for the \<open>ValueError\<close> it raises). The one fact used about them is \<open>codec_ok\<close>: a valid job
  with finite floats is read back as it was written. Failures of the operating system and
  symbolic links inside the directory are not modelled.
\<close>

record 'c file_store =
  root_exists :: bool
  files :: "(string \<times> 'c) list"

definition codec_ok :: "(forecast_job \<Rightarrow> 'c) \<Rightarrow> ('c \<Rightarrow> forecast_job option) \<Rightarrow> bool" where
  "codec_ok dump load \<longleftrightarrow> (\<forall>j. storable j \<longrightarrow> load (dump j) = Some j)"

text \<open>
  A name stays below the directory it is joined to when it is one ordinary path component; the
  others make \<open>relative_to\<close> fail after \<open>resolve\<close>.
\<close>

definition plain_component :: "string \<Rightarrow> bool" where
  "plain_component name \<longleftrightarrow> CHR ''/'' \<notin> set name \<and> name \<notin> {[], ''.'', ''..''}"

definition file_path :: "string \<Rightarrow> job_error + string" where
  "file_path jid =
     (case normalize_job_id jid of
        Inl e \<Rightarrow> Inl e
      | Inr normalized_job_id \<Rightarrow>
          (let target = normalized_job_id @ ''.json''
           in if plain_component target then Inr target else Inl (ForecastJobNotFoundError jid)))"

text \<open>\<open>path.with_suffix(".json.tmp")\<close> of a path that ends in \<open>.json\<close>.\<close>

definition temporary_name :: "string \<Rightarrow> string" where
  "temporary_name target = target @ ''.tmp''"

definition matches_json :: "string \<Rightarrow> bool" where
  "matches_json name = (drop (length name - 5) name = ''.json'')"

text \<open>The temporary file is written first and then takes the place of the target.\<close>

definition write_then_replace :: "string \<Rightarrow> 'c \<Rightarrow> 'c file_store \<Rightarrow> 'c file_store" where
  "write_then_replace target c s =
     (let temporary = temporary_name target;
          written = AList.update temporary c (files s)
      in \<lparr>root_exists = True, files = AList.delete temporary (AList.update target c written)\<rparr>)"

definition file_write :: "(forecast_job \<Rightarrow> 'c) \<Rightarrow> forecast_job \<Rightarrow> ('c file_store, unit) job_handler" where
  "file_write dump j =
     bindM (modifyM (\<lambda>w. w\<lparr>stored := (stored w)\<lparr>root_exists := True\<rparr>\<rparr>)) (\<lambda>_.
     bindM (liftM (file_path (job_id j))) (\<lambda>target.
     modifyM (\<lambda>w. w\<lparr>stored := write_then_replace target (dump j) (stored w)\<rparr>)))"

definition file_create ::
    "(forecast_job \<Rightarrow> 'c) \<Rightarrow> pyfloat \<Rightarrow> pyfloat \<Rightarrow> string option \<Rightarrow> int \<Rightarrow>
     ('c file_store, forecast_job) job_handler" where
  "file_create dump lat lon parent n =
     bindM (build_new_job lat lon parent n) (\<lambda>j.
     bindM (file_write dump j) (\<lambda>_.
     returnM j))"

definition file_get ::
    "('c \<Rightarrow> forecast_job option) \<Rightarrow> string \<Rightarrow> ('c file_store, forecast_job) job_handler" where
  "file_get load jid w =
     (case file_path jid of
        Inl e \<Rightarrow> (Inl e, w)
      | Inr path \<Rightarrow>
          (case map_of (files (stored w)) path of
             None \<Rightarrow> (Inl (ForecastJobNotFoundError jid), w)
           | Some c \<Rightarrow> (case load c of None \<Rightarrow> (Inl ValidationError, w) | Some j \<Rightarrow> (Inr j, w))))"

definition file_update_if_status ::
    "(forecast_job \<Rightarrow> 'c) \<Rightarrow> ('c \<Rightarrow> forecast_job option) \<Rightarrow> forecast_job \<Rightarrow> job_status set \<Rightarrow>
     ('c file_store, forecast_job) job_handler" where
  "file_update_if_status dump load j expected_statuses =
     bindM (prepare_job_for_update j) (\<lambda>next_job.
     bindM (liftM (file_path (job_id next_job))) (\<lambda>path w.
       case map_of (files (stored w)) path of
         None \<Rightarrow> (Inl (ForecastJobNotFoundError (job_id next_job)), w)
       | Some c \<Rightarrow>
           (case load c of
              None \<Rightarrow> (Inl ValidationError, w)
            | Some current \<Rightarrow>
                (case ensure_transition_allowed current expected_statuses of
                   Inl e \<Rightarrow> (Inl e, w)
                 | Inr _ \<Rightarrow> bindM (file_write dump next_job) (\<lambda>_. returnM next_job) w))))"

definition file_update ::
    "(forecast_job \<Rightarrow> 'c) \<Rightarrow> ('c \<Rightarrow> forecast_job option) \<Rightarrow> forecast_job \<Rightarrow>
     ('c file_store, forecast_job) job_handler" where
  "file_update dump load j = file_update_if_status dump load j ALL_JOB_STATUSES"

definition json_files :: "'c file_store \<Rightarrow> (string \<times> 'c) list" where
  "json_files s = filter (\<lambda>f. matches_json (fst f)) (files s)"

definition read_all_unlocked :: "('c \<Rightarrow> forecast_job option) \<Rightarrow> 'c file_store \<Rightarrow> forecast_job list" where
  "read_all_unlocked load s =
     (if \<not> root_exists s then [] else List.map_filter (\<lambda>f. load (snd f)) (json_files s))"

definition file_list_recent ::
    "('c \<Rightarrow> forecast_job option) \<Rightarrow> int \<Rightarrow> job_status option \<Rightarrow>
     ('c file_store, forecast_job list) job_handler" where
  "file_list_recent load limit s w =
     (Inr (sort_and_filter_jobs (read_all_unlocked load (stored w)) limit s), w)"

definition file_list_active ::
    "('c \<Rightarrow> forecast_job option) \<Rightarrow> ('c file_store, forecast_job list) job_handler" where
  "file_list_active load w =
     (Inr (sort_jobs (filter (\<lambda>j. status j \<in> ACTIVE_JOB_STATUSES) (read_all_unlocked load (stored w)))), w)"

text \<open>The loop of \<open>delete_older_than\<close> over the paths, with its counter.\<close>

fun file_delete_loop ::
    "('c \<Rightarrow> forecast_job option) \<Rightarrow> datetime \<Rightarrow> job_status set \<Rightarrow> (string \<times> 'c) list \<Rightarrow>
     (string \<times> 'c) list \<Rightarrow> int \<Rightarrow> (string \<times> 'c) list \<times> int" where
  "file_delete_loop load cutoff statuses [] fs deleted = (fs, deleted)"
| "file_delete_loop load cutoff statuses ((path, c) # paths) fs deleted =
     (case load c of
        None \<Rightarrow> file_delete_loop load cutoff statuses paths fs deleted
      | Some j \<Rightarrow>
          if \<not> cleanup_match cutoff statuses j
          then file_delete_loop load cutoff statuses paths fs deleted
          else file_delete_loop load cutoff statuses paths (AList.delete path fs) (deleted + 1))"

definition file_delete_older_than ::
    "('c \<Rightarrow> forecast_job option) \<Rightarrow> datetime \<Rightarrow> job_status set \<Rightarrow> ('c file_store, int) job_handler" where
  "file_delete_older_than load cutoff statuses w =
     (if \<not> root_exists (stored w) then (Inr 0, w)
      else (case file_delete_loop load cutoff statuses (json_files (stored w)) (files (stored w)) 0 of
              (fs, deleted) \<Rightarrow> (Inr deleted, w\<lparr>stored := (stored w)\<lparr>files := fs\<rparr>\<rparr>)))"

definition file_ops ::
    "(forecast_job \<Rightarrow> 'c) \<Rightarrow> ('c \<Rightarrow> forecast_job option) \<Rightarrow> 'c file_store job_store_ops" where
  "file_ops dump load =
     \<lparr>op_create = file_create dump, op_get = file_get load, op_update = file_update dump load,
      op_update_if_status = file_update_if_status dump load,
      op_list_recent = file_list_recent load, op_list_active = file_list_active load,
      op_delete_older_than = file_delete_older_than load\<rparr>"

lemma file_ops_sel [simp]:
  "op_create (file_ops dump load) = file_create dump" "op_get (file_ops dump load) = file_get load"
  "op_update (file_ops dump load) = file_update dump load"
  "op_update_if_status (file_ops dump load) = file_update_if_status dump load"
  "op_list_recent (file_ops dump load) = file_list_recent load"
  "op_list_active (file_ops dump load) = file_list_active load"
  "op_delete_older_than (file_ops dump load) = file_delete_older_than load"
  by (simp_all add: file_ops_def)

section \<open>Paths\<close>

lemma canonical_plain: "uuid_canonical k \<Longrightarrow> plain_component (k @ ''.json'')"
proof -
  assume "uuid_canonical k"
  then obtain n where k: "k = uuid_str n" by (rule uuid_canonicalE)
  have "CHR ''/'' \<notin> set k"
    using set_uuid_str [of n] k by (auto simp: hex_alphabet_def)
  then show ?thesis by (auto simp: plain_component_def append_eq_Cons_conv)
qed

text \<open>The check that the path stays inside the directory never fails.\<close>

lemma file_path_eq:
  "file_path jid = (case normalize_job_id jid of Inl e \<Rightarrow> Inl e | Inr k \<Rightarrow> Inr (k @ ''.json''))"
  by (auto simp: file_path_def Let_def split: sum.splits
      dest: normalize_job_id_canonical canonical_plain)

lemma file_path_canonical [simp]: "uuid_canonical k \<Longrightarrow> file_path k = Inr (k @ ''.json'')"
  by (simp add: file_path_eq)

lemma matches_json_append [simp]: "matches_json (k @ ''.json'')"
  by (simp add: matches_json_def)

lemma not_matches_tmp [simp]: "\<not> matches_json (k @ ''.json.tmp'')"
  by (simp add: matches_json_def)

lemma temporary_name_json [simp]: "temporary_name (k @ ''.json'') = k @ ''.json.tmp''"
  by (simp add: temporary_name_def)

lemma json_name_neq_tmp [simp]: "k @ ''.json'' \<noteq> k' @ ''.json.tmp''"
  by (metis matches_json_append not_matches_tmp)

section \<open>The directory as a map\<close>

definition file_map :: "('c \<Rightarrow> forecast_job option) \<Rightarrow> 'c file_store \<Rightarrow> job_map" where
  "file_map load s k =
     (if uuid_canonical k then Option.bind (map_of (files s) (k @ ''.json'')) load else None)"

text \<open>
  What holds of one file of the directory: a \<open>*.json\<close> file that pydantic accepts holds a storable
  job under its own id, and one that pydantic rejects is not named after a job id.
\<close>

definition entry_ok :: "('c \<Rightarrow> forecast_job option) \<Rightarrow> string \<Rightarrow> 'c \<Rightarrow> bool" where
  "entry_ok load name c \<longleftrightarrow>
     (matches_json name \<longrightarrow>
        (case load c of
           None \<Rightarrow> (\<forall>k. uuid_canonical k \<longrightarrow> name \<noteq> k @ ''.json'')
         | Some j \<Rightarrow> storable j \<and> uuid_canonical (job_id j) \<and> name = job_id j @ ''.json''))"

definition file_ok :: "('c \<Rightarrow> forecast_job option) \<Rightarrow> 'c file_store \<Rightarrow> bool" where
  "file_ok load s \<longleftrightarrow>
     distinct (map fst (files s)) \<and> (\<not> root_exists s \<longrightarrow> files s = []) \<and>
     (\<forall>name c. map_of (files s) name = Some c \<longrightarrow> entry_ok load name c)"

lemma file_okD:
  assumes "file_ok load s"
  shows "distinct (map fst (files s))" and "\<not> root_exists s \<Longrightarrow> files s = []"
    and "map_of (files s) name = Some c \<Longrightarrow> entry_ok load name c"
  using assms by (auto simp: file_ok_def)

lemma entry_ok_job:
  "entry_ok load (k @ ''.json'') c \<Longrightarrow> uuid_canonical k \<Longrightarrow>
     \<exists>j. load c = Some j \<and> storable j \<and> job_id j = k"
  by (auto simp: entry_ok_def split: option.splits)

lemma file_map_Some:
  "file_map load s k = Some j \<longleftrightarrow>
     uuid_canonical k \<and> (\<exists>c. map_of (files s) (k @ ''.json'') = Some c \<and> load c = Some j)"
  by (auto simp: file_map_def bind_eq_Some_conv)

lemma file_map_lookup:
  assumes "file_ok load s" and "uuid_canonical k"
  shows "(case map_of (files s) (k @ ''.json'') of
            None \<Rightarrow> file_map load s k = None
          | Some c \<Rightarrow> \<exists>j. load c = Some j \<and> file_map load s k = Some j)"
  using assms(2) entry_ok_job [OF file_okD(3) [OF assms(1)] assms(2)]
  by (auto simp: file_map_def split: option.splits)

lemma file_map_wf: "file_ok load s \<Longrightarrow> store_wf (file_map load s)"
proof -
  assume ok: "file_ok load s"
  have "(\<lambda>k. k @ ''.json'') ` dom (file_map load s) \<subseteq> dom (map_of (files s))"
    by (auto simp: file_map_Some)
  then have "finite ((\<lambda>k. k @ ''.json'') ` dom (file_map load s))"
    by (rule finite_subset) (simp add: finite_dom_map_of)
  then have "finite (dom (file_map load s))"
    by (rule finite_imageD) (auto simp: inj_on_def)
  moreover have "job_id j = k \<and> uuid_canonical k \<and> storable j" if "file_map load s k = Some j" for k j
    using that entry_ok_job file_okD(3) [OF ok] by (fastforce simp: file_map_Some)
  ultimately show ?thesis by (auto simp: store_wf_def)
qed

lemma map_of_written:
  "map_of (files (write_then_replace (k @ ''.json'') c s)) =
     ((map_of (files s))(k @ ''.json'' \<mapsto> c))(k @ ''.json.tmp'' := None)"
  by (auto simp: write_then_replace_def Let_def)

lemma write_ok:
  assumes codec: "codec_ok dump load" and ok: "file_ok load s" and j: "storable j"
    and k: "uuid_canonical (job_id j)"
  defines "s' \<equiv> write_then_replace (job_id j @ ''.json'') (dump j) s"
  shows "file_ok load s'" and "file_map load s' = (file_map load s)(job_id j \<mapsto> j)"
proof -
  have load: "load (dump j) = Some j" using codec j by (simp add: codec_ok_def)
  note m = map_of_written [of "job_id j" "dump j" s, folded s'_def]
  have "distinct (map fst (files s'))"
    using file_okD(1) [OF ok] by (simp add: s'_def write_then_replace_def Let_def)
  moreover have "root_exists s'" by (simp add: s'_def write_then_replace_def Let_def)
  moreover have "entry_ok load (job_id j @ ''.json'') (dump j)"
    using load j k by (simp add: entry_ok_def)
  ultimately show "file_ok load s'"
    using file_okD(3) [OF ok] by (auto simp: file_ok_def m split: if_splits)
  show "file_map load s' = (file_map load s)(job_id j \<mapsto> j)"
    by (rule ext) (auto simp: file_map_def m k load)
qed

lemma file_write_run:
  assumes codec: "codec_ok dump load" and ok: "file_ok load (stored w)" and j: "storable j"
    and k: "uuid_canonical (job_id j)"
  obtains w' where "file_write dump j w = (Inr (), w')" and "file_ok load (stored w')"
    and "abs_world (file_map load) w' =
           (abs_world (file_map load) w)\<lparr>stored := (file_map load (stored w))(job_id j \<mapsto> j)\<rparr>"
proof
  let ?s = "(stored w)\<lparr>root_exists := True\<rparr>"
  let ?w' = "w\<lparr>stored := write_then_replace (job_id j @ ''.json'') (dump j) ?s\<rparr>"
  have ok': "file_ok load ?s" using ok by (auto simp: file_ok_def)
  have same: "file_map load ?s = file_map load (stored w)" by (rule ext) (simp add: file_map_def)
  show "file_write dump j w = (Inr (), ?w')"
    using k by (simp add: file_write_def bindM_def)
  show "file_ok load (stored ?w')" using write_ok(1) [OF codec ok' j k] by simp
  show "abs_world (file_map load) ?w' =
          (abs_world (file_map load) w)\<lparr>stored := (file_map load (stored w))(job_id j \<mapsto> j)\<rparr>"
    using write_ok(2) [OF codec ok' j k] same by (simp add: abs_world_def)
qed

section \<open>Reading the directory\<close>

lemma json_files_iff:
  "file_ok load s \<Longrightarrow> (name, c) \<in> set (json_files s) \<longleftrightarrow> matches_json name \<and> map_of (files s) name = Some c"
  by (auto simp: json_files_def file_ok_def)

lemma read_all_enum:
  assumes ok: "file_ok load s"
  shows "set (read_all_unlocked load s) = ran (file_map load s)"
    and "distinct (map job_id (read_all_unlocked load s))"
proof -
  let ?loaded = "filter (\<lambda>f. load (snd f) \<noteq> None) (json_files s)"
  have js: "read_all_unlocked load s = map (\<lambda>f. the (load (snd f))) ?loaded"
    using file_okD(2) [OF ok]
    by (auto simp: read_all_unlocked_def List.map_filter_def json_files_def)
  have in_map: "file_map load s (job_id j) = Some j \<and> name = job_id j @ ''.json''"
    if "(name, c) \<in> set (json_files s)" "load c = Some j" for name c j
    using that file_okD(3) [OF ok, of name c]
    by (auto simp: json_files_iff [OF ok] entry_ok_def file_map_Some)
  show "set (read_all_unlocked load s) = ran (file_map load s)"
  proof
    show "set (read_all_unlocked load s) \<subseteq> ran (file_map load s)"
      using in_map by (fastforce simp: js ran_def)
    show "ran (file_map load s) \<subseteq> set (read_all_unlocked load s)"
    proof
      fix j assume "j \<in> ran (file_map load s)"
      then obtain k c where "map_of (files s) (k @ ''.json'') = Some c" and l: "load c = Some j"
        by (auto simp: ran_def file_map_Some)
      then have "(k @ ''.json'', c) \<in> set (json_files s)" by (simp add: json_files_iff [OF ok])
      then show "j \<in> set (read_all_unlocked load s)"
        using l by (force simp: js)
    qed
  qed
  have "map (\<lambda>j. job_id j @ ''.json'') (read_all_unlocked load s) = map fst ?loaded"
    using in_map by (auto simp: js)
  moreover have "distinct (map fst ?loaded)"
    using file_okD(1) [OF ok] by (simp add: json_files_def distinct_map_filter)
  ultimately have "distinct (map (\<lambda>k. k @ ''.json'') (map job_id (read_all_unlocked load s)))"
    by (simp add: comp_def)
  then show "distinct (map job_id (read_all_unlocked load s))"
    by (simp only: distinct_map)
qed

lemma file_listing:
  "file_ok load s \<Longrightarrow> sort_jobs (filter P (read_all_unlocked load s)) = job_listing P (file_map load s)"
  using job_listing_eq [OF file_map_wf sort_jobs_listing [OF read_all_enum]] by metis

section \<open>Deleting\<close>

definition deletable :: "('c \<Rightarrow> forecast_job option) \<Rightarrow> datetime \<Rightarrow> job_status set \<Rightarrow> string \<times> 'c \<Rightarrow> bool" where
  "deletable load cutoff statuses f =
     (case load (snd f) of None \<Rightarrow> False | Some j \<Rightarrow> cleanup_match cutoff statuses j)"

lemma file_delete_loop_eq:
  "file_delete_loop load cutoff X paths fs n =
     (fold AList.delete (map fst (filter (deletable load cutoff X) paths)) fs,
      n + int (length (filter (deletable load cutoff X) paths)))"
  by (induction load cutoff X paths fs n rule: file_delete_loop.induct)
    (auto simp: deletable_def split: option.splits)

lemma fold_delete:
  "map_of (fold AList.delete ks fs) = map_of fs |` (- set ks)"
  "distinct (map fst fs) \<Longrightarrow> distinct (map fst (fold AList.delete ks fs))"
proof (induction ks arbitrary: fs)
  case (Cons k ks)
  { case 1
    show ?case by (simp add: Cons.IH(1)) (auto simp: restrict_map_def) }
  { case 2
    then show ?case by (simp add: Cons.IH(2)) }
qed (auto simp: restrict_map_def)

lemma sim_file_delete:
  "simulates (file_ok load) (file_map load) (\<lambda>_. True)
     (file_delete_older_than load c X) (ref_delete_older_than c X)"
proof (rule simulatesI)
  fix w r w' assume ok: "file_ok load (stored w)" and run: "file_delete_older_than load c X w = (r, w')"
  let ?s = "stored w" and ?m = "file_map load (stored w)"
  let ?dead = "map fst (filter (deletable load c X) (json_files ?s))"
  let ?old = "{k \<in> dom ?m. cleanup_match c X (the (?m k))}"
  let ?s' = "?s\<lparr>files := fold AList.delete ?dead (files ?s)\<rparr>"
  have out: "r = Inr (int (length ?dead)) \<and> w' = w\<lparr>stored := ?s'\<rparr>"
    using run file_okD(2) [OF ok]
    by (auto simp: file_delete_older_than_def file_delete_loop_eq json_files_def split: if_splits)
  have dead: "set ?dead = (\<lambda>k. k @ ''.json'') ` ?old"
  proof (intro equalityI subsetI)
    fix name assume "name \<in> set ?dead"
    then obtain cc where f: "(name, cc) \<in> set (json_files ?s)" "deletable load c X (name, cc)" by auto
    from f(2) obtain j where j: "load cc = Some j" "cleanup_match c X j"
      by (auto simp: deletable_def split: option.splits)
    have here: "matches_json name" "map_of (files ?s) name = Some cc"
      using f(1) json_files_iff [OF ok] by auto
    then have "uuid_canonical (job_id j) \<and> name = job_id j @ ''.json''"
      using file_okD(3) [OF ok here(2)] j(1) by (simp add: entry_ok_def)
    moreover from this here j have "?m (job_id j) = Some j" by (simp add: file_map_Some)
    ultimately show "name \<in> (\<lambda>k. k @ ''.json'') ` ?old"
      using j(2) by (intro image_eqI [of _ _ "job_id j"]) auto
  next
    fix name assume "name \<in> (\<lambda>k. k @ ''.json'') ` ?old"
    then obtain k j where k: "name = k @ ''.json''" "?m k = Some j" "cleanup_match c X j" by auto
    then obtain cc where "map_of (files ?s) name = Some cc" "load cc = Some j"
      by (auto simp: file_map_Some)
    then have "(name, cc) \<in> set (json_files ?s) \<and> deletable load c X (name, cc)"
      using k by (simp add: json_files_iff [OF ok] deletable_def)
    then show "name \<in> set ?dead" by force
  qed
  have "distinct ?dead"
    using file_okD(1) [OF ok] by (simp add: json_files_def distinct_map_filter)
  then have "length ?dead = card ((\<lambda>k. k @ ''.json'') ` ?old)"
    using distinct_card dead by metis
  also have "\<dots> = card ?old" by (rule card_image) (auto simp: inj_on_def)
  finally have count: "length ?dead = card ?old" .
  have files': "map_of (files ?s') = map_of (files ?s) |` (- set ?dead)"
    using fold_delete(1) [of ?dead "files ?s"] by simp
  have "file_map load ?s' k = (?m |` (- ?old)) k" for k
  proof (cases "k \<in> ?old")
    case True
    then have "k @ ''.json'' \<in> set ?dead" unfolding dead by (rule imageI)
    then have "file_map load ?s' k = None"
      unfolding file_map_def files' restrict_map_def by simp
    with True show ?thesis unfolding restrict_map_def by simp
  next
    case False
    then have "k @ ''.json'' \<notin> set ?dead" unfolding dead by blast
    then have "file_map load ?s' k = ?m k"
      unfolding file_map_def files' restrict_map_def by simp
    with False show ?thesis unfolding restrict_map_def by simp
  qed
  then have "file_map load ?s' = ?m |` (- ?old)" by (rule ext)
  moreover have "file_ok load ?s'"
    using ok by (auto simp: file_ok_def fold_delete restrict_map_def json_files_def split: if_splits)
  ultimately show "file_ok load (stored w') \<and>
      ref_delete_older_than c X (abs_world (file_map load) w) = (r, abs_world (file_map load) w') \<and>
      (\<forall>x. r = Inr x \<longrightarrow> True)"
    using out count
    by (auto simp: ref_delete_older_than_def Let_def simp flip: abs_world_stored)
qed

section \<open>The directory satisfies the port\<close>

lemma sim_file_get:
  "simulates (file_ok load) (file_map load) storable (file_get load jid) (ref_get jid)"
proof (rule simulatesI)
  fix w r w' assume ok: "file_ok load (stored w)" and run: "file_get load jid w = (r, w')"
  show "file_ok load (stored w') \<and> ref_get jid (abs_world (file_map load) w) =
      (r, abs_world (file_map load) w') \<and> (\<forall>x. r = Inr x \<longrightarrow> storable x)"
  proof (cases "normalize_job_id jid")
    case (Inl e)
    with run ok show ?thesis by (auto simp: file_get_def file_path_eq ref_get_def)
  next
    case (Inr k)
    with run ok file_map_lookup [OF ok normalize_job_id_canonical [OF Inr]]
      store_wfD(3) [OF file_map_wf [OF ok]]
    show ?thesis
      by (auto simp: file_get_def file_path_eq ref_get_def split: option.splits)
  qed
qed

lemma sim_file_write:
  assumes "codec_ok dump load" and "storable j" and "uuid_canonical (job_id j)"
  shows "simulates (file_ok load) (file_map load) storable
      (bindM (file_write dump j) (\<lambda>_. returnM j))
      (\<lambda>w. (Inr j, w\<lparr>stored := (stored w)(job_id j \<mapsto> j)\<rparr>))"
proof (rule simulatesI)
  fix w r w' assume ok: "file_ok load (stored w)" and run: "bindM (file_write dump j) (\<lambda>_. returnM j) w = (r, w')"
  obtain w2 where "file_write dump j w = (Inr (), w2)" "file_ok load (stored w2)"
    "abs_world (file_map load) w2 =
       (abs_world (file_map load) w)\<lparr>stored := (file_map load (stored w))(job_id j \<mapsto> j)\<rparr>"
    using file_write_run [OF assms(1) ok assms(2,3)] by metis
  with run assms(2) show "file_ok load (stored w') \<and>
      (Inr j, (abs_world (file_map load) w)\<lparr>stored := (stored (abs_world (file_map load) w))(job_id j \<mapsto> j)\<rparr>) =
      (r, abs_world (file_map load) w') \<and> (\<forall>x. r = Inr x \<longrightarrow> storable x)"
    by (auto simp: bindM_def)
qed

lemma sim_file_create:
  assumes "codec_ok dump load"
  shows "simulates (file_ok load) (file_map load) storable
      (file_create dump lat lon p n) (ref_create lat lon p n)"
proof -
  have ref: "bindM (modifyM (\<lambda>w. w\<lparr>stored := (stored w)(job_id j \<mapsto> j)\<rparr>)) (\<lambda>_. returnM j) =
      (\<lambda>w. (Inr j, w\<lparr>stored := (stored w)(job_id j \<mapsto> j)\<rparr>))" for j
    by (rule ext) simp
  show ?thesis
    unfolding file_create_def ref_create_def ref
    by (rule simulates_bind [OF simulates_build_new_job]) (auto intro: sim_file_write [OF assms])
qed

lemma sim_file_update_if_status:
  assumes codec: "codec_ok dump load" and "storable j"
  shows "simulates (file_ok load) (file_map load) storable
      (file_update_if_status dump load j X) (ref_update_if_status j X)"
  unfolding file_update_if_status_def ref_update_if_status_def
proof (rule simulates_bind [OF simulates_prepare [OF assms(2)]], rule simulatesI)
  fix x w r w'
  assume x: "storable x \<and> uuid_canonical (job_id x)" and ok: "file_ok load (stored w)"
    and run: "bindM (liftM (file_path (job_id x))) (\<lambda>path w.
       case map_of (files (stored w)) path of
         None \<Rightarrow> (Inl (ForecastJobNotFoundError (job_id x)), w)
       | Some c \<Rightarrow>
           (case load c of
              None \<Rightarrow> (Inl ValidationError, w)
            | Some current \<Rightarrow>
                (case ensure_transition_allowed current X of
                   Inl e \<Rightarrow> (Inl e, w)
                 | Inr _ \<Rightarrow> bindM (file_write dump x) (\<lambda>_. returnM x) w))) w = (r, w')"
  note look = file_map_lookup [OF ok, of "job_id x"]
  from file_write_run [OF codec ok, of x] x obtain w2 where
    w2: "file_write dump x w = (Inr (), w2)" "file_ok load (stored w2)"
      "abs_world (file_map load) w2 =
         (abs_world (file_map load) w)\<lparr>stored := (file_map load (stored w))(job_id x \<mapsto> x)\<rparr>"
    by metis
  show "file_ok load (stored w') \<and>
      (case stored (abs_world (file_map load) w) (job_id x) of
         None \<Rightarrow> (Inl (ForecastJobNotFoundError (job_id x)), abs_world (file_map load) w)
       | Some current \<Rightarrow>
           (case ensure_transition_allowed current X of
              Inl e \<Rightarrow> (Inl e, abs_world (file_map load) w)
            | Inr _ \<Rightarrow> (Inr x, (abs_world (file_map load) w)
                \<lparr>stored := (stored (abs_world (file_map load) w))(job_id x \<mapsto> x)\<rparr>)))
        = (r, abs_world (file_map load) w') \<and> (\<forall>y. r = Inr y \<longrightarrow> storable y)"
    using run x look w2 ok
    by (auto simp: bindM_def split: option.splits sum.splits)
qed

theorem file_store_is_job_store:
  assumes "codec_ok dump load"
  shows "job_store (file_ops dump load) (file_ok load) (file_map load)"
proof
  show "simulates (file_ok load) (file_map load) (list_all storable)
      (op_list_recent (file_ops dump load) l s) (op_list_recent ref_store l s)" for l s
    by (rule simulatesI)
      (auto simp: file_list_recent_def sort_and_filter_jobs_def file_listing
        intro!: list_all_py_take storable_listing file_map_wf)
  show "simulates (file_ok load) (file_map load) (list_all storable)
      (op_list_active (file_ops dump load)) (op_list_active ref_store)"
    by (rule simulatesI)
      (auto simp: file_list_active_def file_listing intro!: storable_listing file_map_wf)
qed (simp_all add: file_map_wf sim_file_create sim_file_get sim_file_update_if_status
    sim_file_delete file_update_def assms)

end
