(* ===== verification/Job_View.thy ===== *)
theory Job_View imports
  Job_Store_Port
begin

text \<open>
  \<open>application/services/forecast_job_view.py\<close>: the documents built from a job. How Python prints
  a float inside a link is the parameter \<open>flt_str\<close>.
\<close>

definition job_links :: "(pyfloat \<Rightarrow> string) \<Rightarrow> forecast_job \<Rightarrow> (string \<times> string) list" where
  "job_links flt_str j =
     (let base = ''/api/v1/forecast/jobs/'' @ job_id j
      in [(''self'', base),
          (''poll'', base @ ''/poll''),
          (''point_forecast'', ''/api/v1/forecast/point?latitude='' @ flt_str (latitude j) @
             ''&longitude='' @ flt_str (longitude j)),
          (''retry'', base @ ''/retry''),
          (''cancel'', base @ ''/cancel'')])"

definition with_job_links :: "(pyfloat \<Rightarrow> string) \<Rightarrow> forecast_job \<Rightarrow> forecast_job" where
  "with_job_links flt_str j = j\<lparr>links := job_links flt_str j\<rparr>"

definition append_job_event ::
    "forecast_job \<Rightarrow> job_status \<Rightarrow> string \<Rightarrow> datetime \<Rightarrow> forecast_job" where
  "append_job_event j s message when_at =
     (let ev = record_forecast_job_event s message when_at
      in j\<lparr>events := events j @
             [\<lparr>occurred_at = record_occurred_at ev, event_status = record_status ev,
               event_message = record_message ev\<rparr>]\<rparr>)"

definition to_job_summary :: "forecast_job \<Rightarrow> forecast_job_summary" where
  "to_job_summary j =
     \<lparr>sum_id = job_id j, sum_status = status j, sum_latitude = latitude j,
      sum_longitude = longitude j, sum_parent_job_id = parent_job_id j, sum_attempt = attempt j,
      sum_created_at = created_at j, sum_updated_at = updated_at j,
      sum_completed_at = completed_at j, sum_diagnostics = diagnostics j, sum_error = error j,
      sum_links = links j\<rparr>"

definition to_job_poll_response :: "forecast_job \<Rightarrow> job_poll_response" where
  "to_job_poll_response j =
     (let terminal = (status j \<in> TERMINAL_JOB_STATUSES)
      in \<lparr>poll_id = job_id j, poll_status = status j, poll_terminal = terminal,
          poll_forecast_ready = (forecast j \<noteq> None), poll_updated_at = updated_at j,
          poll_retry_after_seconds = (if terminal then None else Some 2),
          poll_event_count = int (length (events j)),
          poll_latest_event = (if events j \<noteq> [] then Some (last (events j)) else None),
          poll_links = links j\<rparr>)"

lemma append_job_event_sel [simp]:
  "job_id (append_job_event j s m t) = job_id j" "status (append_job_event j s m t) = status j"
  "latitude (append_job_event j s m t) = latitude j"
  "longitude (append_job_event j s m t) = longitude j"
  "parent_job_id (append_job_event j s m t) = parent_job_id j"
  "attempt (append_job_event j s m t) = attempt j"
  "created_at (append_job_event j s m t) = created_at j"
  "updated_at (append_job_event j s m t) = updated_at j"
  "started_at (append_job_event j s m t) = started_at j"
  "completed_at (append_job_event j s m t) = completed_at j"
  "forecast (append_job_event j s m t) = forecast j"
  "diagnostics (append_job_event j s m t) = diagnostics j"
  "error (append_job_event j s m t) = error j" "links (append_job_event j s m t) = links j"
  "events (append_job_event j s m t) =
     events j @ [\<lparr>occurred_at = t, event_status = s, event_message = m\<rparr>]"
  by (simp_all add: append_job_event_def record_forecast_job_event_def)

lemma storable_append_job_event [simp]: "storable (append_job_event j s m t) = storable j"
  by (simp add: append_job_event_def Let_def)

lemma with_job_links_sel [simp]:
  "job_id (with_job_links f j) = job_id j" "status (with_job_links f j) = status j"
  "storable (with_job_links f j) = storable j"
  by (simp_all add: with_job_links_def)

section \<open>The query handlers\<close>

text \<open>\<open>application/queries\<close>: the read-only use cases, as \<open>ForecastJobQueryService\<close> exposes them.\<close>

definition get_job :: "'s job_store_ops \<Rightarrow> (pyfloat \<Rightarrow> string) \<Rightarrow> string \<Rightarrow> ('s, forecast_job) job_handler" where
  "get_job st flt_str jid =
     bindM (op_get st jid) (\<lambda>j. returnM (with_job_links flt_str j))"

definition list_recent_jobs ::
    "'s job_store_ops \<Rightarrow> (pyfloat \<Rightarrow> string) \<Rightarrow> int \<Rightarrow> job_status option \<Rightarrow>
     ('s, job_list_response) job_handler" where
  "list_recent_jobs st flt_str limit s =
     bindM (op_list_recent st limit s) (\<lambda>jobs.
       let summaries = map (\<lambda>j. to_job_summary (with_job_links flt_str j)) jobs
       in returnM \<lparr>list_count = int (length summaries), list_jobs = summaries\<rparr>)"

definition poll_job ::
    "'s job_store_ops \<Rightarrow> (pyfloat \<Rightarrow> string) \<Rightarrow> string \<Rightarrow> ('s, job_poll_response) job_handler" where
  "poll_job st flt_str jid =
     bindM (op_get st jid) (\<lambda>j. returnM (to_job_poll_response (with_job_links flt_str j)))"

context job_store
begin

lemma sim_get_job:
  "simulates ok amap (\<lambda>_. True) (get_job st flt_str jid) (get_job ref_store flt_str jid)"
  unfolding get_job_def by (rule simulates_bind [OF sim_get]) (rule simulates_return, simp)

lemma sim_list_recent_jobs:
  "simulates ok amap (\<lambda>_. True)
     (list_recent_jobs st flt_str limit s') (list_recent_jobs ref_store flt_str limit s')"
  unfolding list_recent_jobs_def Let_def
  by (rule simulates_bind [OF sim_list_recent]) (rule simulates_return, simp)

lemma sim_poll_job:
  "simulates ok amap (\<lambda>_. True) (poll_job st flt_str jid) (poll_job ref_store flt_str jid)"
  unfolding poll_job_def by (rule simulates_bind [OF sim_get]) (rule simulates_return, simp)

end

end
