(* ===== verification/Job_Commands.thy ===== *)
theory Job_Commands imports
  Job_View
begin

text \<open>
  \<open>application/commands\<close>: the use cases submit, cancel, retry, cleanup and run, written against the
  store port. Writing log lines is not modelled.

  Running a job awaits the forecast provider once. The event loop runs other handlers during that
  await and at no other point of these handlers, so \<open>run_execute\<close> is split there: \<open>run_start\<close> is
  the code before the provider answers, \<open>run_finish\<close> the code after. What the provider answers is
  an argument.
\<close>

section \<open>The provider port\<close>

text \<open>\<open>application/ports/forecast_provider.py\<close>. An exception of a provider is one of two kinds.\<close>

datatype provider_error =
    ForecastProviderUnavailableError string diag_dict
  | OtherProviderError string

text \<open>\<open>ForecastProviderUnavailableError(message, diagnostics=d)\<close>.\<close>

definition provider_unavailable :: "string \<Rightarrow> diag_dict \<Rightarrow> provider_error" where
  "provider_unavailable message d =
     ForecastProviderUnavailableError message (if d = [] then [(''message'', DStr message)] else d)"

record provider_result =
  result_summary :: forecast_summary
  result_diagnostics :: diag_dict

text \<open>A provider has the method \<open>get_point_forecast_with_diagnostics\<close> or only \<open>get_point_forecast\<close>.\<close>

datatype forecast_provider =
    WithDiagnostics "pyfloat \<Rightarrow> pyfloat \<Rightarrow> provider_error + provider_result"
  | PointOnly "pyfloat \<Rightarrow> pyfloat \<Rightarrow> provider_error + forecast_summary"

fun get_provider_result :: "forecast_provider \<Rightarrow> forecast_job \<Rightarrow> provider_error + provider_result" where
  "get_provider_result (WithDiagnostics f) j = f (latitude j) (longitude j)"
| "get_provider_result (PointOnly f) j =
     (case f (latitude j) (longitude j) of
        Inl e \<Rightarrow> Inl e
      | Inr s \<Rightarrow> Inr
          \<lparr>result_summary = s,
           result_diagnostics =
             [(''provider'', DStr (provider_str (summary_provider s))),
              (''message'', DStr ''Provider did not return extended job diagnostics.'')]\<rparr>)"

section \<open>Submit, cancel, retry, cleanup\<close>

definition submit_execute ::
    "'s job_store_ops \<Rightarrow> (pyfloat \<Rightarrow> string) \<Rightarrow> pyfloat \<Rightarrow> pyfloat \<Rightarrow> ('s, forecast_job) job_handler" where
  "submit_execute st flt_str lat lon =
     bindM (op_create st lat lon None 1) (\<lambda>j.
     bindM (count_event ''accepted'') (\<lambda>_.
     returnM (with_job_links flt_str j)))"

text \<open>\<open>job.diagnostics.provider if job.diagnostics else None\<close>.\<close>

definition job_provider :: "forecast_job \<Rightarrow> string option" where
  "job_provider j = (case diagnostics j of None \<Rightarrow> None | Some d \<Rightarrow> diag_provider d)"

definition cannot :: "string \<Rightarrow> job_status \<Rightarrow> job_error" where
  "cannot verb s =
     ForecastJobConflictError (''Cannot '' @ verb @ '' a '' @ status_str s @ '' forecast job.'')"

definition cancelled_job :: "forecast_job \<Rightarrow> datetime \<Rightarrow> forecast_job" where
  "cancelled_job j now =
     append_job_event
       (j\<lparr>status := Cancelled, completed_at := Some now,
          diagnostics := Some (make_diagnostics (job_provider j)
                           (Some ''Forecast job cancelled by request.'')),
          error := None\<rparr>)
       Cancelled ''Forecast job cancelled by request.'' now"

definition cancel_execute ::
    "'s job_store_ops \<Rightarrow> (pyfloat \<Rightarrow> string) \<Rightarrow> string \<Rightarrow> ('s, forecast_job) job_handler" where
  "cancel_execute st flt_str jid =
     bindM (op_get st jid) (\<lambda>j.
     if status j \<in> TERMINAL_JOB_STATUSES then raiseM (cannot ''cancel'' (status j))
     else
     bindM clock_now (\<lambda>now.
     bindM (catchM
       (bindM (op_update_if_status st (cancelled_job j now) ACTIVE_JOB_STATUSES)
          (\<lambda>u. returnM (with_job_links flt_str u)))
       (\<lambda>e. case e of
              ForecastJobTransitionError _ current _ \<Rightarrow> raiseM (cannot ''cancel'' current)
            | _ \<Rightarrow> raiseM e)) (\<lambda>cancelled.
     bindM (count_event ''cancelled'') (\<lambda>_.
     returnM cancelled))))"

definition retry_execute ::
    "'s job_store_ops \<Rightarrow> (pyfloat \<Rightarrow> string) \<Rightarrow> string \<Rightarrow> ('s, forecast_job) job_handler" where
  "retry_execute st flt_str jid =
     bindM (op_get st jid) (\<lambda>source.
     if status source \<notin> TERMINAL_JOB_STATUSES then raiseM (cannot ''retry'' (status source))
     else
     bindM (op_create st (latitude source) (longitude source) (Some (job_id source))
              (attempt source + 1)) (\<lambda>retry.
     bindM (count_event ''retry_accepted'') (\<lambda>_.
     returnM (with_job_links flt_str retry))))"

text \<open>\<open>older_than_hours or default\<close>: both \<open>None\<close> and \<open>0\<close> give the default.\<close>

definition int_or :: "int option \<Rightarrow> int \<Rightarrow> int" where
  "int_or v d = (case v of None \<Rightarrow> d | Some n \<Rightarrow> if n = 0 then d else n)"

definition statuses_or_terminal :: "job_status list option \<Rightarrow> job_status set" where
  "statuses_or_terminal v =
     (case v of None \<Rightarrow> TERMINAL_JOB_STATUSES
      | Some ss \<Rightarrow> if ss = [] then TERMINAL_JOB_STATUSES else set ss)"

definition cleanup_execute ::
    "'s job_store_ops \<Rightarrow> int \<Rightarrow> int option \<Rightarrow> job_status list option \<Rightarrow>
     ('s, job_cleanup_response) job_handler" where
  "cleanup_execute st default_retention_hours older_than_hours statuses =
     (let retention_hours = int_or older_than_hours default_retention_hours;
          wanted = statuses_or_terminal statuses
      in bindM clock_now (\<lambda>now.
         bindM (liftM (minus_hours now retention_hours)) (\<lambda>cutoff.
         bindM (op_delete_older_than st cutoff wanted) (\<lambda>n.
         returnM \<lparr>deleted_count = n, cleanup_cutoff = cutoff,
                  cleanup_statuses = sorted_list_of_set wanted\<rparr>))))"

section \<open>Run\<close>

text \<open>
  A guarded update whose refusal is not an error: \<open>True\<close> when the store took the update, \<open>False\<close>
  when \<open>ForecastJobTransitionError\<close> was raised, and any other exception passed on.
\<close>

definition try_update ::
    "'s job_store_ops \<Rightarrow> forecast_job \<Rightarrow> job_status set \<Rightarrow> ('s, bool) job_handler" where
  "try_update st j expected =
     catchM (bindM (op_update_if_status st j expected) (\<lambda>_. returnM True))
       (\<lambda>e. case e of
              ForecastJobTransitionError _ _ _ \<Rightarrow> returnM False
            | _ \<Rightarrow> raiseM e)"

definition running_job :: "forecast_job \<Rightarrow> datetime \<Rightarrow> forecast_job" where
  "running_job j now =
     append_job_event
       (j\<lparr>status := Running, started_at := Some now,
          diagnostics := Some (make_diagnostics None (Some ''Forecast provider request is running.'')),
          error := None\<rparr>)
       Running ''Forecast provider request started.'' now"

text \<open>\<open>Some job\<close> when this call started the job and now awaits the provider for it.\<close>

definition run_start :: "'s job_store_ops \<Rightarrow> string \<Rightarrow> ('s, forecast_job option) job_handler" where
  "run_start st jid =
     bindM (op_get st jid) (\<lambda>j.
     if status j \<noteq> Queued then returnM None
     else
     bindM clock_now (\<lambda>now.
     bindM (try_update st (running_job j now) {Queued}) (\<lambda>updated.
     if \<not> updated then returnM None
     else
     bindM (count_event ''started'') (\<lambda>_.
     returnM (Some j)))))"

definition failed_job :: "forecast_job \<Rightarrow> datetime \<Rightarrow> string \<Rightarrow> job_diagnostics \<Rightarrow> forecast_job" where
  "failed_job j failed_at err d =
     append_job_event
       (j\<lparr>status := Failed, completed_at := Some failed_at, error := Some err,
          diagnostics := Some d\<rparr>)
       Failed ''Forecast job failed.'' failed_at"

definition mark_failed ::
    "'s job_store_ops \<Rightarrow> string \<Rightarrow> string \<Rightarrow> diag_dict option \<Rightarrow> ('s, unit) job_handler" where
  "mark_failed st jid err diags =
     bindM (op_get st jid) (\<lambda>j.
     if status j \<noteq> Running then returnM ()
     else
     bindM clock_now (\<lambda>failed_at.
     let payload = (case diags of None \<Rightarrow> [] | Some d \<Rightarrow> d);
         message = dict_or (map_of payload ''message'') (DStr ''Forecast job failed.'')
     in
     bindM (liftM (diagnostics_of_dict (AList.update ''message'' message payload))) (\<lambda>d.
     bindM (try_update st (failed_job j failed_at err d) {Running}) (\<lambda>updated.
     if updated then count_event ''failed'' else returnM ()))))"

definition succeeded_job ::
    "forecast_job \<Rightarrow> datetime \<Rightarrow> forecast_summary \<Rightarrow> job_diagnostics \<Rightarrow> forecast_job" where
  "succeeded_job j completed s d =
     append_job_event
       (j\<lparr>status := Succeeded, completed_at := Some completed, forecast := Some s,
          diagnostics := Some d, error := None\<rparr>)
       Succeeded ''Forecast summary is ready.'' completed"

definition run_finish ::
    "'s job_store_ops \<Rightarrow> string \<Rightarrow> provider_error + provider_result \<Rightarrow> ('s, unit) job_handler" where
  "run_finish st jid answer =
     (case answer of
        Inl (ForecastProviderUnavailableError message d) \<Rightarrow> mark_failed st jid message (Some d)
      | Inl (OtherProviderError message) \<Rightarrow>
          mark_failed st jid (''Unexpected forecast job error: '' @ message) None
      | Inr result \<Rightarrow>
          bindM clock_now (\<lambda>completed.
          bindM (op_get st jid) (\<lambda>current.
          if status current \<noteq> Running then returnM ()
          else
          bindM (liftM (diagnostics_of_dict
                   (AList.update ''message'' (DStr ''Forecast summary is ready.'')
                      (result_diagnostics result)))) (\<lambda>d.
          bindM (try_update st (succeeded_job current completed (result_summary result) d) {Running})
            (\<lambda>updated.
          if updated then count_event ''succeeded'' else returnM ())))))"

definition run_execute ::
    "'s job_store_ops \<Rightarrow> forecast_provider \<Rightarrow> string \<Rightarrow> ('s, unit) job_handler" where
  "run_execute st provider jid =
     bindM (run_start st jid) (\<lambda>started.
     case started of
       None \<Rightarrow> returnM ()
     | Some j \<Rightarrow> run_finish st jid (get_provider_result provider j))"

section \<open>The commands do the same with every store adapter\<close>

lemma storable_command_job [simp]:
  "storable (cancelled_job j t) = storable j"
  "storable (running_job j t) = storable j"
  "storable (failed_job j t e d) = storable j"
  by (simp_all add: cancelled_job_def running_job_def failed_job_def)

lemma storable_succeeded_job:
  "storable j \<Longrightarrow> storable_summary s \<Longrightarrow> storable (succeeded_job j t s d)"
  using storable_set_forecast [of j s] by (simp add: succeeded_job_def storable_def forecast_job_valid_def)

definition answer_storable :: "provider_error + provider_result \<Rightarrow> bool" where
  "answer_storable answer = (case answer of Inl _ \<Rightarrow> True | Inr r \<Rightarrow> storable_summary (result_summary r))"

context job_store
begin

lemma sim_submit:
  "simulates ok amap (\<lambda>_. True) (submit_execute st f la lo) (submit_execute ref_store f la lo)"
  unfolding submit_execute_def
  by (rule simulates_bind [OF sim_create], rule simulates_bind [OF simulates_count],
      rule simulates_return) simp

lemma sim_retry: "simulates ok amap (\<lambda>_. True) (retry_execute st f jid) (retry_execute ref_store f jid)"
  unfolding retry_execute_def
  by (rule simulates_bind [OF sim_get], rule simulates_if, rule simulates_raise,
      rule simulates_bind [OF sim_create], rule simulates_bind [OF simulates_count],
      rule simulates_return) simp

lemma sim_cancel: "simulates ok amap (\<lambda>_. True) (cancel_execute st f jid) (cancel_execute ref_store f jid)"
proof -
  have attempt: "simulates ok amap (\<lambda>_. True)
      (catchM (bindM (op_update_if_status st j X) (\<lambda>u. returnM (with_job_links f u)))
         (\<lambda>e. case e of ForecastJobTransitionError _ c _ \<Rightarrow> raiseM (E c) | _ \<Rightarrow> raiseM e))
      (catchM (bindM (op_update_if_status ref_store j X) (\<lambda>u. returnM (with_job_links f u)))
         (\<lambda>e. case e of ForecastJobTransitionError _ c _ \<Rightarrow> raiseM (E c) | _ \<Rightarrow> raiseM e))"
    if "storable j" for j X E
    by (rule simulates_catch, rule simulates_bind [OF sim_update_if_status [OF that]],
        rule simulates_return, simp, simp split: job_error.split add: simulates_raise)
  show ?thesis
    unfolding cancel_execute_def
    by (rule simulates_bind [OF sim_get], rule simulates_if, rule simulates_raise,
        rule simulates_bind [OF simulates_clock], rule simulates_bind [OF attempt], simp,
        rule simulates_bind [OF simulates_count], rule simulates_return) simp
qed

lemma sim_cleanup:
  "simulates ok amap (\<lambda>_. True) (cleanup_execute st h o' ss) (cleanup_execute ref_store h o' ss)"
  unfolding cleanup_execute_def Let_def
  by (rule simulates_bind [OF simulates_clock], rule simulates_bind [where Q = "\<lambda>_. True"],
      rule simulates_lift, simp, rule simulates_bind [OF sim_delete], rule simulates_return) simp

lemma sim_try_update:
  assumes "storable j"
  shows "simulates ok amap (\<lambda>_. True) (try_update st j X) (try_update ref_store j X)"
  unfolding try_update_def
  by (rule simulates_catch, rule simulates_bind [OF sim_update_if_status [OF assms]],
      rule simulates_return, simp,
      simp split: job_error.split add: simulates_raise simulates_return)

lemma sim_run_start:
  "simulates ok amap (\<lambda>_. True) (run_start st jid) (run_start ref_store jid)"
  unfolding run_start_def
  by (rule simulates_bind [OF sim_get], rule simulates_if, rule simulates_return, simp,
      rule simulates_bind [OF simulates_clock], rule simulates_bind [OF sim_try_update], simp,
      rule simulates_if, rule simulates_return, simp,
      rule simulates_bind [OF simulates_count], rule simulates_return) simp

lemma sim_mark_failed:
  "simulates ok amap (\<lambda>_. True) (mark_failed st jid e d) (mark_failed ref_store jid e d)"
  unfolding mark_failed_def Let_def
  by (rule simulates_bind [OF sim_get], rule simulates_if, rule simulates_return, simp,
      rule simulates_bind [OF simulates_clock], rule simulates_bind [where Q = "\<lambda>_. True"],
      rule simulates_lift, simp, rule simulates_bind [OF sim_try_update], simp,
      rule simulates_if, rule simulates_count, rule simulates_return) simp

lemma sim_run_finish:
  assumes "answer_storable answer"
  shows "simulates ok amap (\<lambda>_. True) (run_finish st jid answer) (run_finish ref_store jid answer)"
proof (cases answer)
  case (Inl e)
  then show ?thesis by (cases e) (simp_all add: run_finish_def sim_mark_failed)
next
  case (Inr r)
  with assms have r: "storable_summary (result_summary r)" by (simp add: answer_storable_def)
  show ?thesis
    unfolding Inr run_finish_def sum.case
    by (rule simulates_bind [OF simulates_clock], rule simulates_bind [OF sim_get],
        rule simulates_if, rule simulates_return, simp,
        rule simulates_bind [where Q = "\<lambda>_. True"], rule simulates_lift, simp,
        rule simulates_bind [OF sim_try_update], erule storable_succeeded_job [OF _ r],
        rule simulates_if, rule simulates_count, rule simulates_return) simp
qed

lemma sim_run_execute:
  assumes "\<And>j. answer_storable (get_provider_result p j)"
  shows "simulates ok amap (\<lambda>_. True) (run_execute st p jid) (run_execute ref_store p jid)"
  unfolding run_execute_def
  by (rule simulates_bind [OF sim_run_start])
    (simp split: option.split add: simulates_return sim_run_finish assms)

end

end
