(* ===== verification/Job_Recovery.thy ===== *)
theory Job_Recovery imports
  Job_Commands
begin

text \<open>
  \<open>application/services/forecast_job_recovery_service.py\<close>: what the application does with the
  active jobs it finds when it starts. The ids handed to \<open>worker.enqueue\<close> are collected in the
  order of the calls and returned, also when an exception ends the recovery: an enqueued job stays
  enqueued.
\<close>

definition attemptM :: "('s, 'e, 'a) handler \<Rightarrow> ('s, 'e, 'e + 'a) handler" where
  "attemptM m = (\<lambda>s. case m s of (r, s') \<Rightarrow> (Inr r, s'))"

record recovery_report =
  scanned_count :: int
  requeued_count :: int
  timed_out_count :: int
  skipped_count :: int

definition timeout_message :: "int \<Rightarrow> string" where
  "timeout_message timeout_seconds =
     ''Forecast worker timed out after '' @ int_str timeout_seconds @ '' seconds without progress.''"

definition timed_out_job :: "forecast_job \<Rightarrow> datetime \<Rightarrow> int \<Rightarrow> forecast_job" where
  "timed_out_job j now timeout_seconds =
     append_job_event
       (j\<lparr>status := Failed, completed_at := Some now, error := Some (timeout_message timeout_seconds),
          diagnostics := Some (make_diagnostics (job_provider j) (Some ''Forecast worker timed out.''))\<rparr>)
       Failed ''Forecast worker timed out.'' now"

definition mark_timed_out ::
    "'s job_store_ops \<Rightarrow> forecast_job \<Rightarrow> datetime \<Rightarrow> int \<Rightarrow> ('s, bool) job_handler" where
  "mark_timed_out st j now timeout_seconds =
     try_update st (timed_out_job j now timeout_seconds) ACTIVE_JOB_STATUSES"

definition recovered_job :: "forecast_job \<Rightarrow> datetime \<Rightarrow> forecast_job" where
  "recovered_job j now =
     append_job_event
       (j\<lparr>status := Queued, started_at := None,
          diagnostics := Some (make_diagnostics (job_provider j)
                           (Some ''Forecast job recovered for worker retry.'')),
          error := None\<rparr>)
       Queued ''Forecast job recovered for worker retry.'' now"

text \<open>One turn of the loop: the job is requeued under an id, timed out or skipped.\<close>

datatype recovery_outcome = Requeued string | TimedOut | Skipped

definition recover_job ::
    "'s job_store_ops \<Rightarrow> datetime \<Rightarrow> int \<Rightarrow> forecast_job \<Rightarrow> ('s, recovery_outcome) job_handler" where
  "recover_job st now timeout j =
     bindM (liftM (should_mark_job_stale (updated_at j) now timeout)) (\<lambda>stale.
     if stale then
       bindM (mark_timed_out st j now timeout) (\<lambda>marked.
         returnM (if marked then TimedOut else Skipped))
     else if status j = Running then
       catchM
         (bindM (op_update_if_status st (recovered_job j now) {Running}) (\<lambda>u.
            returnM (Requeued (job_id u))))
         (\<lambda>e. case e of
                ForecastJobTransitionError _ _ _ \<Rightarrow> returnM Skipped
              | _ \<Rightarrow> raiseM e)
     else returnM (Requeued (job_id j)))"

fun recover_loop ::
    "'s job_store_ops \<Rightarrow> datetime \<Rightarrow> int \<Rightarrow> forecast_job list \<Rightarrow> recovery_report \<Rightarrow> string list \<Rightarrow>
     ('s, string list \<times> (job_error + recovery_report)) job_handler" where
  "recover_loop st now timeout [] rep enqueued = returnM (enqueued, Inr rep)"
| "recover_loop st now timeout (j # js) rep enqueued =
     bindM (attemptM (recover_job st now timeout j)) (\<lambda>outcome.
     case outcome of
       Inl e \<Rightarrow> returnM (enqueued, Inl e)
     | Inr (Requeued k) \<Rightarrow>
         recover_loop st now timeout js (rep\<lparr>requeued_count := requeued_count rep + 1\<rparr>) (enqueued @ [k])
     | Inr TimedOut \<Rightarrow>
         recover_loop st now timeout js (rep\<lparr>timed_out_count := timed_out_count rep + 1\<rparr>) enqueued
     | Inr Skipped \<Rightarrow>
         recover_loop st now timeout js (rep\<lparr>skipped_count := skipped_count rep + 1\<rparr>) enqueued)"

definition recover_interrupted_jobs ::
    "'s job_store_ops \<Rightarrow> int \<Rightarrow> int option \<Rightarrow>
     ('s, string list \<times> (job_error + recovery_report)) job_handler" where
  "recover_interrupted_jobs st default_stale_timeout_seconds stale_timeout_seconds =
     (let timeout = int_or stale_timeout_seconds default_stale_timeout_seconds
      in bindM clock_now (\<lambda>now.
         bindM (op_list_active st) (\<lambda>active.
         recover_loop st now timeout active
           \<lparr>scanned_count = int (length active), requeued_count = 0, timed_out_count = 0,
            skipped_count = 0\<rparr> [])))"

lemma attemptM_run [run_simps]: "m s = (r, s') \<Longrightarrow> attemptM m s = (Inr r, s')"
  by (simp add: attemptM_def)

lemma storable_recovery_job [simp]:
  "storable (timed_out_job j t n) = storable j" "storable (recovered_job j t) = storable j"
  by (simp_all add: timed_out_job_def recovered_job_def)

lemma simulates_attempt:
  "simulates ok amap P m m' \<Longrightarrow> simulates ok amap (\<lambda>_. True) (attemptM m) (attemptM m')"
  by (auto simp: simulates_def attemptM_def split: prod.splits)

context job_store
begin

lemma sim_recover_job:
  assumes "storable j"
  shows "simulates ok amap (\<lambda>_. True) (recover_job st now n j) (recover_job ref_store now n j)"
proof -
  have attempt: "simulates ok amap (\<lambda>_. True)
      (catchM (bindM (op_update_if_status st j' X) (\<lambda>u. returnM (Requeued (job_id u))))
         (\<lambda>e. case e of ForecastJobTransitionError _ _ _ \<Rightarrow> returnM Skipped | _ \<Rightarrow> raiseM e))
      (catchM (bindM (op_update_if_status ref_store j' X) (\<lambda>u. returnM (Requeued (job_id u))))
         (\<lambda>e. case e of ForecastJobTransitionError _ _ _ \<Rightarrow> returnM Skipped | _ \<Rightarrow> raiseM e))"
    if "storable j'" for j' X
    by (rule simulates_catch, rule simulates_bind [OF sim_update_if_status [OF that]],
        rule simulates_return, simp,
        simp split: job_error.split add: simulates_raise simulates_return)
  show ?thesis
    unfolding recover_job_def mark_timed_out_def
    by (rule simulates_bind [where Q = "\<lambda>_. True"], rule simulates_lift, simp,
        rule simulates_if, rule simulates_bind [OF sim_try_update], simp add: assms,
        rule simulates_return, simp, rule simulates_if, rule attempt, simp add: assms,
        rule simulates_return) simp
qed

lemma sim_recover_loop:
  "list_all storable js \<Longrightarrow>
   simulates ok amap (\<lambda>_. True) (recover_loop st now n js rep enq) (recover_loop ref_store now n js rep enq)"
proof (induction js arbitrary: rep enq)
  case Nil
  show ?case unfolding recover_loop.simps by (rule simulates_return) simp
next
  case (Cons j js)
  then have j: "storable j" and js: "list_all storable js" by simp_all
  show ?case
    unfolding recover_loop.simps
    by (rule simulates_bind [OF simulates_attempt [OF sim_recover_job [OF j]]])
      (simp split: sum.split recovery_outcome.split add: simulates_return Cons.IH [OF js])
qed

lemma sim_recover:
  "simulates ok amap (\<lambda>_. True) (recover_interrupted_jobs st d n) (recover_interrupted_jobs ref_store d n)"
  unfolding recover_interrupted_jobs_def Let_def
  by (rule simulates_bind [OF simulates_clock], rule simulates_bind [OF sim_list_active],
      erule sim_recover_loop)

end

section \<open>What a recovery leaves behind\<close>

definition after_recovery :: "datetime \<Rightarrow> datetime \<Rightarrow> int \<Rightarrow> forecast_job \<Rightarrow> forecast_job" where
  "after_recovery limit now timeout j =
     (if updated_at j \<le> limit then timed_out_job j now timeout
      else if status j = Running then recovered_job j now else j)"

lemma command_job_id [simp]:
  "job_id (timed_out_job j t n) = job_id j" "job_id (recovered_job j t) = job_id j"
  "job_id (after_recovery l t n j) = job_id j"
  "job_id (cancelled_job j t) = job_id j" "job_id (running_job j t) = job_id j"
  "job_id (failed_job j t e d) = job_id j" "job_id (succeeded_job j t sm d) = job_id j"
  by (simp_all add: timed_out_job_def recovered_job_def after_recovery_def cancelled_job_def
      running_job_def failed_job_def succeeded_job_def)

lemma command_job_status [simp]:
  "status (timed_out_job j t n) = Failed" "status (recovered_job j t) = Queued"
  "status (cancelled_job j t) = Cancelled" "status (running_job j t) = Running"
  "status (failed_job j t e d) = Failed" "status (succeeded_job j t sm d) = Succeeded"
  by (simp_all add: timed_out_job_def recovered_job_def cancelled_job_def
      running_job_def failed_job_def succeeded_job_def)

lemma try_update_found [run_simps]:
  "uuid_canonical (job_id j) \<Longrightarrow> stored w (job_id j) = Some c \<Longrightarrow>
   try_update ref_store j X w =
     (if status c \<in> X
      then (Inr True, w\<lparr>ticks := Suc (ticks w),
              stored := (stored w)(job_id j \<mapsto> j\<lparr>updated_at := clock_fn w (ticks w)\<rparr>)\<rparr>)
      else (Inr False, w\<lparr>ticks := Suc (ticks w)\<rparr>))"
  by (simp add: try_update_def catchM_def bindM_def ref_update_found ref_update_refused)

lemma recover_job_run:
  assumes t: "minus_seconds now n = Inr limit" and j: "stored w (job_id j) = Some j"
    and k: "uuid_canonical (job_id j)" and active: "status j \<in> ACTIVE_JOB_STATUSES"
  shows "\<exists>u w'. recover_job ref_store now n j w =
           (Inr (if updated_at j \<le> limit then TimedOut else Requeued (job_id j)), w') \<and>
         stored w' = (stored w)(job_id j \<mapsto> (after_recovery limit now n j)\<lparr>updated_at := u\<rparr>)"
proof (cases "updated_at j \<le> limit \<or> status j = Running")
  case True
  then show ?thesis
    using t j k active
    by (auto simp: recover_job_def should_mark_job_stale_def mark_timed_out_def bindM_def catchM_def
        try_update_found ref_update_found after_recovery_def intro!: exI)
next
  case False
  then show ?thesis
    using t j by (auto simp: recover_job_def should_mark_job_stale_def bindM_def after_recovery_def
        intro!: exI [of _ "updated_at j"] exI [of _ w])
qed

definition fresh_jobs :: "datetime \<Rightarrow> forecast_job list \<Rightarrow> forecast_job list" where
  "fresh_jobs limit js = filter (\<lambda>j. \<not> updated_at j \<le> limit) js"

lemma recover_loop_run:
  assumes t: "minus_seconds now n = Inr limit"
  shows "\<forall>j\<in>set js. stored w (job_id j) = Some j \<and> uuid_canonical (job_id j) \<and> status j \<in> ACTIVE_JOB_STATUSES
    \<Longrightarrow> distinct (map job_id js) \<Longrightarrow>
    \<exists>w'. recover_loop ref_store now n js rep enq w =
        (Inr (enq @ map job_id (fresh_jobs limit js),
              Inr (rep\<lparr>requeued_count := requeued_count rep + int (length (fresh_jobs limit js)),
                       timed_out_count := timed_out_count rep +
                         int (length js - length (fresh_jobs limit js))\<rparr>)), w') \<and>
      (\<forall>k. k \<notin> job_id ` set js \<longrightarrow> stored w' k = stored w k) \<and>
      (\<forall>j\<in>set js. \<exists>u. stored w' (job_id j) = Some ((after_recovery limit now n j)\<lparr>updated_at := u\<rparr>))"
proof (induction js arbitrary: rep enq w)
  case Nil
  show ?case by (simp add: fresh_jobs_def)
next
  case (Cons j js)
  obtain u w1 where run: "recover_job ref_store now n j w =
        (Inr (if updated_at j \<le> limit then TimedOut else Requeued (job_id j)), w1)"
    and w1: "stored w1 = (stored w)(job_id j \<mapsto> (after_recovery limit now n j)\<lparr>updated_at := u\<rparr>)"
    using recover_job_run [OF t, of w j] Cons.prems by auto
  have apart: "job_id i \<noteq> job_id j" if "i \<in> set js" for i
    using that Cons.prems(2) by (metis distinct.simps(2) image_eqI list.map(2) list.set_map)
  have rest: "\<forall>j\<in>set js. stored w1 (job_id j) = Some j \<and> uuid_canonical (job_id j) \<and>
        status j \<in> ACTIVE_JOB_STATUSES"
    using Cons.prems(1) apart unfolding w1 by (metis fun_upd_other list.set_intros(2))
  have rest2: "distinct (map job_id js)" using Cons.prems(2) by simp
  have short: "length (fresh_jobs limit js) \<le> length js" by (simp add: fresh_jobs_def)
  have j_kept: "\<exists>u. s (job_id j) = Some ((after_recovery limit now n j)\<lparr>updated_at := u\<rparr>)"
    if "\<forall>k. k \<notin> job_id ` set js \<longrightarrow> s k = stored w1 k" for s
    using that Cons.prems(2) by (intro exI [of _ u]) (simp add: w1 image_iff)
  show ?case
  proof (cases "updated_at j \<le> limit")
    case True
    obtain w' where w': "recover_loop ref_store now n js
          (rep\<lparr>timed_out_count := timed_out_count rep + 1\<rparr>) enq w1 =
        (Inr (enq @ map job_id (fresh_jobs limit js),
              Inr (rep\<lparr>requeued_count := requeued_count rep + int (length (fresh_jobs limit js)),
                       timed_out_count := timed_out_count rep + 1 +
                         int (length js - length (fresh_jobs limit js))\<rparr>)), w')"
      and keep: "\<forall>k. k \<notin> job_id ` set js \<longrightarrow> stored w' k = stored w1 k"
      and fin: "\<forall>j\<in>set js. \<exists>u. stored w' (job_id j) = Some ((after_recovery limit now n j)\<lparr>updated_at := u\<rparr>)"
      using Cons.IH [OF rest rest2, of "rep\<lparr>timed_out_count := timed_out_count rep + 1\<rparr>" enq] by auto
    have fj: "fresh_jobs limit (j # js) = fresh_jobs limit js" using True by (simp add: fresh_jobs_def)
    show ?thesis
      using w' keep fin j_kept [OF keep] True short
      by (intro exI [of _ w'] conjI)
        (simp_all add: bindM_def attemptM_def run fj w1 Suc_diff_le algebra_simps)
  next
    case False
    obtain w' where w': "recover_loop ref_store now n js
          (rep\<lparr>requeued_count := requeued_count rep + 1\<rparr>) (enq @ [job_id j]) w1 =
        (Inr ((enq @ [job_id j]) @ map job_id (fresh_jobs limit js),
              Inr (rep\<lparr>requeued_count := requeued_count rep + 1 + int (length (fresh_jobs limit js)),
                       timed_out_count := timed_out_count rep +
                         int (length js - length (fresh_jobs limit js))\<rparr>)), w')"
      and keep: "\<forall>k. k \<notin> job_id ` set js \<longrightarrow> stored w' k = stored w1 k"
      and fin: "\<forall>j\<in>set js. \<exists>u. stored w' (job_id j) = Some ((after_recovery limit now n j)\<lparr>updated_at := u\<rparr>)"
      using Cons.IH [OF rest rest2, of "rep\<lparr>requeued_count := requeued_count rep + 1\<rparr>" "enq @ [job_id j]"] by auto
    have fj: "fresh_jobs limit (j # js) = j # fresh_jobs limit js" using False by (simp add: fresh_jobs_def)
    show ?thesis
      using w' keep fin j_kept [OF keep] False
      by (intro exI [of _ w'] conjI)
        (simp_all add: bindM_def attemptM_def run fj w1 algebra_simps)
  qed
qed

definition active_jobs :: "job_map \<Rightarrow> forecast_job list" where
  "active_jobs m = job_listing (\<lambda>j. status j \<in> ACTIVE_JOB_STATUSES) m"

lemma active_jobs_set: "store_wf m \<Longrightarrow> set (active_jobs m) = {j \<in> ran m. status j \<in> ACTIVE_JOB_STATUSES}"
  using job_listing_is_listing [of m] by (simp add: active_jobs_def is_listing_def)

lemma active_jobs_distinct: "store_wf m \<Longrightarrow> distinct (map job_id (active_jobs m))"
  using job_listing_is_listing [of m] by (simp add: active_jobs_def is_listing_def)

lemma active_jobs_found:
  "store_wf m \<Longrightarrow> j \<in> set (active_jobs m) \<Longrightarrow>
   m (job_id j) = Some j \<and> uuid_canonical (job_id j) \<and> status j \<in> ACTIVE_JOB_STATUSES"
  by (auto simp: active_jobs_set ran_def dest: store_wfD(1,2))

lemma active_jobs_mem:
  "store_wf m \<Longrightarrow> m k = Some j \<Longrightarrow> k \<in> job_id ` set (active_jobs m) \<longleftrightarrow> status j \<in> ACTIVE_JOB_STATUSES"
  by (auto simp: active_jobs_set ran_def dest: store_wfD(1) intro: rev_image_eqI)

text \<open>
  The whole recovery of an abstract store: which ids are enqueued, what the report says, and what
  becomes of every job.
\<close>

definition recovered_store :: "datetime \<Rightarrow> datetime \<Rightarrow> int \<Rightarrow> job_map \<Rightarrow> job_map \<Rightarrow> bool" where
  "recovered_store limit now timeout m m' \<longleftrightarrow>
     (\<forall>k. case m k of
            None \<Rightarrow> m' k = None
          | Some j \<Rightarrow>
              if status j \<in> TERMINAL_JOB_STATUSES then m' k = Some j
              else \<exists>u. m' k = Some ((after_recovery limit now timeout j)\<lparr>updated_at := u\<rparr>))"

definition recovery_report_of :: "datetime \<Rightarrow> job_map \<Rightarrow> recovery_report" where
  "recovery_report_of limit m =
     \<lparr>scanned_count = int (length (active_jobs m)),
      requeued_count = int (length (fresh_jobs limit (active_jobs m))),
      timed_out_count = int (length (active_jobs m) - length (fresh_jobs limit (active_jobs m))),
      skipped_count = 0\<rparr>"

lemma recover_ref:
  assumes wf: "store_wf (stored w)" and n: "n = int_or stale default_timeout"
    and now: "now = clock_fn w (ticks w)" and t: "minus_seconds now n = Inr limit"
  shows "\<exists>w'. recover_interrupted_jobs ref_store default_timeout stale w =
           (Inr (map job_id (fresh_jobs limit (active_jobs (stored w))),
                 Inr (recovery_report_of limit (stored w))), w') \<and>
         recovered_store limit now n (stored w) (stored w')"
proof -
  let ?w = "w\<lparr>ticks := Suc (ticks w)\<rparr>" and ?js = "active_jobs (stored w)"
  have js: "\<forall>j\<in>set ?js. stored ?w (job_id j) = Some j \<and> uuid_canonical (job_id j) \<and>
              status j \<in> ACTIVE_JOB_STATUSES"
    using active_jobs_found [OF wf] by simp
  obtain w' where w': "recover_loop ref_store now n ?js
        \<lparr>scanned_count = int (length ?js), requeued_count = 0, timed_out_count = 0, skipped_count = 0\<rparr> [] ?w =
        (Inr (map job_id (fresh_jobs limit ?js), Inr (recovery_report_of limit (stored w))), w')"
    and keep: "\<forall>k. k \<notin> job_id ` set ?js \<longrightarrow> stored w' k = stored w k"
    and fin: "\<forall>j\<in>set ?js. \<exists>u. stored w' (job_id j) = Some ((after_recovery limit now n j)\<lparr>updated_at := u\<rparr>)"
    using recover_loop_run [OF t js active_jobs_distinct [OF wf], of
        "\<lparr>scanned_count = int (length ?js), requeued_count = 0, timed_out_count = 0, skipped_count = 0\<rparr>" "[]"]
    by (auto simp: recovery_report_of_def)
  have "recovered_store limit now n (stored w) (stored w')"
    unfolding recovered_store_def
  proof
    fix k
    show "case stored w k of None \<Rightarrow> stored w' k = None
          | Some j \<Rightarrow> if status j \<in> TERMINAL_JOB_STATUSES then stored w' k = Some j
              else \<exists>u. stored w' k = Some ((after_recovery limit now n j)\<lparr>updated_at := u\<rparr>)"
    proof (cases "stored w k")
      case None
      then have "k \<notin> job_id ` set ?js" using active_jobs_found [OF wf] by fastforce
      with None keep show ?thesis by simp
    next
      case (Some j)
      show ?thesis
      proof (cases "status j \<in> TERMINAL_JOB_STATUSES")
        case True
        then have "k \<notin> job_id ` set ?js" using active_jobs_mem [OF wf Some] by (simp add: status_cases)
        with Some True keep show ?thesis by simp
      next
        case False
        then have "j \<in> set ?js" using Some by (auto simp: active_jobs_set [OF wf] status_cases ran_def)
        with fin store_wfD(1) [OF wf Some] Some False show ?thesis by auto
      qed
    qed
  qed
  then show ?thesis
    using w' by (intro exI [of _ w'])
      (simp add: recover_interrupted_jobs_def Let_def bindM_def clock_now_def n now active_jobs_def)
qed

text \<open>Nothing interrupted is lost: what is active afterwards is queued and handed to the worker.\<close>

lemma recovered_store_active:
  assumes wf: "store_wf m" and r: "recovered_store limit now n m m'"
  shows "set (map job_id (fresh_jobs limit (active_jobs m))) =
           {k. \<exists>j. m' k = Some j \<and> status j \<in> ACTIVE_JOB_STATUSES}"
    and "m' k = Some j \<Longrightarrow> status j \<noteq> Running"
    and "dom m' = dom m"
proof -
  have orig: "\<exists>i. m k = Some i \<and> (if status i \<in> TERMINAL_JOB_STATUSES then j = i
          else \<exists>u. j = (after_recovery limit now n i)\<lparr>updated_at := u\<rparr>)"
    if "m' k = Some j" for k j
    using r [unfolded recovered_store_def, THEN spec, of k] that by (auto split: option.splits if_splits)
  have queued: "status (after_recovery limit now n i) = (if updated_at i \<le> limit then Failed else Queued)"
    if "status i \<in> ACTIVE_JOB_STATUSES" for i
    using that by (auto simp: after_recovery_def ACTIVE_JOB_STATUSES_def)
  show "status j \<noteq> Running" if m': "m' k = Some j"
  proof -
    obtain i where i: "if status i \<in> TERMINAL_JOB_STATUSES then j = i
          else \<exists>u. j = (after_recovery limit now n i)\<lparr>updated_at := u\<rparr>"
      using orig [OF m'] by blast
    show ?thesis
    proof (cases "status i \<in> TERMINAL_JOB_STATUSES")
      case True
      with i show ?thesis by (auto simp: TERMINAL_JOB_STATUSES_def)
    next
      case False
      then have "status j = (if updated_at i \<le> limit then Failed else Queued)"
        using i queued [of i] by (auto simp: status_cases simp del: command_job_status)
      then show ?thesis by simp
    qed
  qed
  show "dom m' = dom m"
    using r unfolding recovered_store_def by (auto simp: dom_def split: option.splits if_splits)
  show "set (map job_id (fresh_jobs limit (active_jobs m))) =
           {k. \<exists>j. m' k = Some j \<and> status j \<in> ACTIVE_JOB_STATUSES}" (is "?A = ?B")
  proof (rule set_eqI)
    fix k
    show "k \<in> ?A \<longleftrightarrow> k \<in> ?B"
    proof
      assume "k \<in> ?A"
      then obtain j where j: "j \<in> set (active_jobs m)" "\<not> updated_at j \<le> limit" "k = job_id j"
        by (auto simp: fresh_jobs_def)
      note f = active_jobs_found [OF wf j(1)]
      then obtain u where "m' k = Some ((after_recovery limit now n j)\<lparr>updated_at := u\<rparr>)"
        using r [unfolded recovered_store_def, THEN spec, of k] j(3) by (auto simp: status_cases)
      with queued [of j] f j(2) show "k \<in> ?B" by (auto simp: ACTIVE_JOB_STATUSES_def)
    next
      assume "k \<in> ?B"
      then obtain j where j: "m' k = Some j" "status j \<in> ACTIVE_JOB_STATUSES" by auto
      from orig [OF j(1)] j(2) obtain i u where i: "m k = Some i" "status i \<in> ACTIVE_JOB_STATUSES"
        and ji: "j = (after_recovery limit now n i)\<lparr>updated_at := u\<rparr>"
        by (auto simp: status_cases split: if_splits)
      with queued [of i] j(2) have "\<not> updated_at i \<le> limit" by (auto simp: ACTIVE_JOB_STATUSES_def split: if_splits)
      moreover have "i \<in> set (active_jobs m)" using i by (auto simp: active_jobs_set [OF wf] ran_def)
      ultimately show "k \<in> ?A" using store_wfD(1) [OF wf i(1)] by (auto simp: fresh_jobs_def)
    qed
  qed
qed

context job_store
begin

lemma recover_exact:
  assumes "ok (stored w)" and "minus_seconds (clock_fn w (ticks w)) (int_or stale d) = Inr limit"
  shows "\<exists>w'. recover_interrupted_jobs st d stale w =
           (Inr (map job_id (fresh_jobs limit (active_jobs (amap (stored w)))),
                 Inr (recovery_report_of limit (amap (stored w)))), w') \<and>
         recovered_store limit (clock_fn w (ticks w)) (int_or stale d) (amap (stored w)) (amap (stored w'))"
proof -
  obtain r w' where run: "recover_interrupted_jobs st d stale w = (r, w')" by fastforce
  show ?thesis
    using recover_ref [of "abs_world amap w" "int_or stale d" stale d "clock_fn w (ticks w)" limit]
      assms inv_wf simulatesD(2) [OF sim_recover assms(1) run] run
    by auto
qed

end

end
