(* ===== verification/Job_Lifecycle.thy ===== *)
theory Job_Lifecycle imports
  Job_Recovery
begin

text \<open>
  What each command does to the abstract store, on every branch, and the life of a single job:
  the relation \<open>job_change\<close> holds between a stored job and what one handler may replace it with,
  and \<open>job_ok\<close> is what every stored job satisfies at all times.
\<close>

section \<open>The commands on the abstract store\<close>

abbreviation counted :: "string \<Rightarrow> 's world \<Rightarrow> 's world" where
  "counted ev w \<equiv> w\<lparr>registry := increment_forecast_job_event ev (registry w)\<rparr>"

lemma ref_get_found:
  "normalize_job_id jid = Inr k \<Longrightarrow> stored w k = Some j \<Longrightarrow> ref_get jid w = (Inr j, w)"
  by (simp add: ref_get_def)

lemma ref_get_absent:
  "normalize_job_id jid = Inr k \<Longrightarrow> stored w k = None \<Longrightarrow>
   ref_get jid w = (Inl (ForecastJobNotFoundError jid), w)"
  by (simp add: ref_get_def)

lemma ref_get_bad: "normalize_job_id jid = Inl e \<Longrightarrow> ref_get jid w = (Inl e, w)"
  by (simp add: ref_get_def)

lemma cancel_run:
  assumes "store_wf (stored w)" and "normalize_job_id jid = Inr k" and "stored w k = Some j"
  shows "cancel_execute ref_store f jid w =
    (if status j \<in> TERMINAL_JOB_STATUSES then (Inl (cannot ''cancel'' (status j)), w)
     else let c = (cancelled_job j (clock_fn w (ticks w)))\<lparr>updated_at := clock_fn w (Suc (ticks w))\<rparr>
          in (Inr (with_job_links f c),
              counted ''cancelled'' (w\<lparr>ticks := Suc (Suc (ticks w)), stored := (stored w)(k \<mapsto> c)\<rparr>)))"
  using assms store_wfD(1,2) [OF assms(1,3)]
  by (simp add: cancel_execute_def bindM_def catchM_def ref_get_found clock_now_def count_event_def
      ref_update_found status_cases Let_def)

lemma run_start_run:
  assumes "store_wf (stored w)" and "normalize_job_id jid = Inr k" and "stored w k = Some j"
  shows "run_start ref_store jid w =
    (if status j \<noteq> Queued then (Inr None, w)
     else let c = (running_job j (clock_fn w (ticks w)))\<lparr>updated_at := clock_fn w (Suc (ticks w))\<rparr>
          in (Inr (Some j),
              counted ''started'' (w\<lparr>ticks := Suc (Suc (ticks w)), stored := (stored w)(k \<mapsto> c)\<rparr>)))"
  using assms store_wfD(1,2) [OF assms(1,3)]
  by (simp add: run_start_def bindM_def ref_get_found clock_now_def count_event_def
      try_update_found Let_def)

definition failure_diagnostics :: "diag_dict option \<Rightarrow> job_error + job_diagnostics" where
  "failure_diagnostics diags =
     (let payload = (case diags of None \<Rightarrow> [] | Some d \<Rightarrow> d)
      in diagnostics_of_dict (AList.update ''message''
           (dict_or (map_of payload ''message'') (DStr ''Forecast job failed.'')) payload))"

lemma mark_failed_run:
  assumes "store_wf (stored w)" and "normalize_job_id jid = Inr k" and "stored w k = Some j"
  shows "mark_failed ref_store jid msg diags w =
    (if status j \<noteq> Running then (Inr (), w)
     else case failure_diagnostics diags of
       Inl e \<Rightarrow> (Inl e, w\<lparr>ticks := Suc (ticks w)\<rparr>)
     | Inr d \<Rightarrow>
         (let c = (failed_job j (clock_fn w (ticks w)) msg d)\<lparr>updated_at := clock_fn w (Suc (ticks w))\<rparr>
          in (Inr (),
              counted ''failed'' (w\<lparr>ticks := Suc (Suc (ticks w)), stored := (stored w)(k \<mapsto> c)\<rparr>))))"
  using assms store_wfD(1,2) [OF assms(1,3)]
  by (simp add: mark_failed_def failure_diagnostics_def bindM_def ref_get_found clock_now_def
      count_event_def try_update_found Let_def split: sum.split)

definition success_diagnostics :: "provider_result \<Rightarrow> job_error + job_diagnostics" where
  "success_diagnostics r =
     diagnostics_of_dict (AList.update ''message'' (DStr ''Forecast summary is ready.'')
       (result_diagnostics r))"

lemma run_success_run:
  assumes "store_wf (stored w)" and "normalize_job_id jid = Inr k" and "stored w k = Some j"
  shows "run_finish ref_store jid (Inr r) w =
    (if status j \<noteq> Running then (Inr (), w\<lparr>ticks := Suc (ticks w)\<rparr>)
     else case success_diagnostics r of
       Inl e \<Rightarrow> (Inl e, w\<lparr>ticks := Suc (ticks w)\<rparr>)
     | Inr d \<Rightarrow>
         (let c = (succeeded_job j (clock_fn w (ticks w)) (result_summary r) d)
                    \<lparr>updated_at := clock_fn w (Suc (ticks w))\<rparr>
          in (Inr (),
              counted ''succeeded'' (w\<lparr>ticks := Suc (Suc (ticks w)), stored := (stored w)(k \<mapsto> c)\<rparr>))))"
  using assms store_wfD(1,2) [OF assms(1,3)]
  by (simp add: run_finish_def success_diagnostics_def bindM_def ref_get_found clock_now_def
      count_event_def try_update_found Let_def split: sum.split)

section \<open>The life of one job\<close>

inductive job_change :: "forecast_job \<Rightarrow> forecast_job \<Rightarrow> bool" where
  start: "status j = Queued \<Longrightarrow> job_change j ((running_job j t)\<lparr>updated_at := u\<rparr>)"
| cancel: "status j \<in> ACTIVE_JOB_STATUSES \<Longrightarrow> job_change j ((cancelled_job j t)\<lparr>updated_at := u\<rparr>)"
| succeed: "status j = Running \<Longrightarrow> storable_summary s \<Longrightarrow>
    job_change j ((succeeded_job j t s d)\<lparr>updated_at := u\<rparr>)"
| fail: "status j = Running \<Longrightarrow> job_change j ((failed_job j t msg d)\<lparr>updated_at := u\<rparr>)"
| time_out: "status j \<in> ACTIVE_JOB_STATUSES \<Longrightarrow> job_change j ((timed_out_job j t n)\<lparr>updated_at := u\<rparr>)"
| requeue: "status j = Running \<Longrightarrow> job_change j ((recovered_job j t)\<lparr>updated_at := u\<rparr>)"
| keep: "status j \<in> ACTIVE_JOB_STATUSES \<Longrightarrow> job_change j (j\<lparr>updated_at := u\<rparr>)"

inductive_cases job_changeE: "job_change j j'"

text \<open>The transitions between statuses the handlers make.\<close>

fun can_follow :: "job_status \<Rightarrow> job_status \<Rightarrow> bool" where
  "can_follow Queued t = (t \<in> {Running, Failed, Cancelled})"
| "can_follow Running t = (t \<in> {Queued, Succeeded, Failed, Cancelled})"
| "can_follow _ _ = False"

fun status_path :: "job_status list \<Rightarrow> bool" where
  "status_path [] = False"
| "status_path [s] = True"
| "status_path (s # t # ss) = (can_follow s t \<and> status_path (t # ss))"

definition history :: "forecast_job \<Rightarrow> job_status list" where
  "history j = map event_status (events j)"

definition job_ok :: "forecast_job \<Rightarrow> bool" where
  "job_ok j \<longleftrightarrow>
     (completed_at j \<noteq> None \<longleftrightarrow> status j \<in> TERMINAL_JOB_STATUSES) \<and>
     (forecast j \<noteq> None \<longleftrightarrow> status j = Succeeded) \<and>
     (error j \<noteq> None \<longleftrightarrow> status j = Failed) \<and>
     (status j = Running \<longrightarrow> started_at j \<noteq> None) \<and>
     (status j = Succeeded \<longrightarrow> started_at j \<noteq> None) \<and>
     (status j = Queued \<longrightarrow> started_at j = None) \<and>
     diagnostics j \<noteq> None \<and>
     1 \<le> attempt j \<and> (parent_job_id j = None \<longleftrightarrow> attempt j = 1) \<and>
     status_path (history j) \<and> hd (history j) = Queued \<and> last (history j) = status j \<and>
     links j = []"

lemma status_path_snoc:
  "status_path ss \<Longrightarrow> can_follow (last ss) t \<Longrightarrow> status_path (ss @ [t])"
  by (induction ss rule: status_path.induct) auto

lemma status_path_not_Nil: "status_path ss \<Longrightarrow> ss \<noteq> []"
  by auto

lemma history_append_event [simp]:
  "history (append_job_event j s m t) = history j @ [s]"
  "history (append_job_event j s m t\<lparr>updated_at := u\<rparr>) = history j @ [s]"
  by (simp_all add: history_def)

lemma history_update [simp]:
  "history (j\<lparr>status := s\<rparr>) = history j" "history (j\<lparr>started_at := ot\<rparr>) = history j"
  "history (j\<lparr>completed_at := ot\<rparr>) = history j" "history (j\<lparr>forecast := fc\<rparr>) = history j"
  "history (j\<lparr>diagnostics := d\<rparr>) = history j" "history (j\<lparr>error := e\<rparr>) = history j"
  "history (j\<lparr>updated_at := u\<rparr>) = history j"
  by (simp_all add: history_def)

lemmas command_job_defs = running_job_def cancelled_job_def succeeded_job_def failed_job_def
  timed_out_job_def recovered_job_def

lemmas status_set_defs = ACTIVE_JOB_STATUSES_def TERMINAL_JOB_STATUSES_def

lemma job_change_active: "job_change j j' \<Longrightarrow> status j \<in> ACTIVE_JOB_STATUSES"
  by (auto simp: ACTIVE_JOB_STATUSES_def elim!: job_changeE)

lemma job_change_frame:
  "job_change j j' \<Longrightarrow> job_id j' = job_id j \<and> attempt j' = attempt j \<and> parent_job_id j' = parent_job_id j \<and>
     latitude j' = latitude j \<and> longitude j' = longitude j \<and> created_at j' = created_at j"
  by (auto simp: command_job_defs elim!: job_changeE)

lemma job_change_storable: "job_change j j' \<Longrightarrow> storable j \<Longrightarrow> storable j'"
  by (auto elim!: job_changeE intro: storable_succeeded_job)

lemma job_change_history:
  "job_change j j' \<Longrightarrow> history j' = history j \<and> status j' = status j \<or>
     history j' = history j @ [status j'] \<and> can_follow (status j) (status j')"
  by (erule job_changeE) (auto simp: command_job_defs ACTIVE_JOB_STATUSES_def)

lemma job_change_ok:
  assumes c: "job_change j j'" and ok: "job_ok j"
  shows "job_ok j'"
proof -
  have path: "status_path (history j') \<and> hd (history j') = Queued \<and> last (history j') = status j'"
    using job_change_history [OF c] ok status_path_snoc [of "history j" "status j'"]
      status_path_not_Nil [of "history j"]
    by (auto simp: job_ok_def)
  show ?thesis
    using c
    by cases (use ok path in \<open>auto simp: job_ok_def command_job_defs status_set_defs\<close>)
qed

lemma new_job_ok:
  "make_attempt n p = Inr a \<Longrightarrow> job_ok (new_job_record c p a now k msg)"
  by (auto simp: job_ok_def new_job_record_def make_attempt_Inr history_def status_set_defs)

end
