(* ===== verification/Job_System.thy ===== *)
theory Job_System imports
  Job_Lifecycle
begin

text \<open>
  The running service as a transition system. A state is the process and the ids of the jobs for
  which a provider call is under way; a step is one handler from its first instruction to its next
  suspension, which is its end or, in \<open>RunForecastJob.execute\<close>, the await of the provider.
  A restart drops the provider calls and runs the recovery on the store it finds.

  \<open>worker.enqueue\<close> is only ever called with the id of a stored job, so the ids given to
  \<open>run_start\<close> are canonical. A restart whose recovery raises does not serve requests, and since the
  recovery can only raise before it changes a job, such a restart is no step.
\<close>

type_synonym 's system = "'s world \<times> string list"

inductive sys_step ::
    "'s job_store_ops \<Rightarrow> (pyfloat \<Rightarrow> string) \<Rightarrow> (provider_error + provider_result \<Rightarrow> bool) \<Rightarrow>
     's system \<Rightarrow> 's system \<Rightarrow> bool"
  for st :: "'s job_store_ops" and flt_str :: "pyfloat \<Rightarrow> string"
    and answers :: "provider_error + provider_result \<Rightarrow> bool"
where
  submit: "submit_execute st flt_str la lo w = (r, w') \<Longrightarrow> sys_step st flt_str answers (w, p) (w', p)"
| cancel: "cancel_execute st flt_str jid w = (r', w') \<Longrightarrow> sys_step st flt_str answers (w, p) (w', p)"
| retry: "retry_execute st flt_str jid w = (r, w') \<Longrightarrow> sys_step st flt_str answers (w, p) (w', p)"
| cleanup: "cleanup_execute st h older statuses w = (rc, w') \<Longrightarrow>
    sys_step st flt_str answers (w, p) (w', p)"
| start: "uuid_canonical jid \<Longrightarrow> run_start st jid w = (rs, w') \<Longrightarrow>
    sys_step st flt_str answers (w, p) (w', (case rs of Inr (Some _) \<Rightarrow> jid # p | _ \<Rightarrow> p))"
| finish: "jid \<in> set p \<Longrightarrow> answers a \<Longrightarrow> run_finish st jid a w = (ru, w') \<Longrightarrow>
    sys_step st flt_str answers (w, p) (w', remove1 jid p)"
| restart: "recover_interrupted_jobs st default_timeout timeout (w\<lparr>registry := empty_registry\<rparr>) =
      (Inr (enqueued, Inr rep), w') \<Longrightarrow>
    sys_step st flt_str answers (w, p) (w', [])"

inductive_cases sys_stepE: "sys_step st flt_str answers (w, p) s"

inductive sys_reach ::
    "'s job_store_ops \<Rightarrow> (pyfloat \<Rightarrow> string) \<Rightarrow> (provider_error + provider_result \<Rightarrow> bool) \<Rightarrow>
     's system \<Rightarrow> 's system \<Rightarrow> bool"
  for st :: "'s job_store_ops" and flt_str :: "pyfloat \<Rightarrow> string"
    and answers :: "provider_error + provider_result \<Rightarrow> bool" and s :: "'s system"
where
  init: "sys_reach st flt_str answers s s"
| step: "sys_reach st flt_str answers s s' \<Longrightarrow> sys_step st flt_str answers s' s'' \<Longrightarrow>
    sys_reach st flt_str answers s s''"

text \<open>
  Answers whose diagnostics \<open>ForecastJobDiagnostics\<close> accepts and whose summary can be stored. The
  provider adapters build such answers.
\<close>

definition answer_ok :: "provider_error + provider_result \<Rightarrow> bool" where
  "answer_ok a =
     (case a of
        Inl (ForecastProviderUnavailableError m d) \<Rightarrow> \<not> isl (failure_diagnostics (Some d))
      | Inl (OtherProviderError m) \<Rightarrow> True
      | Inr r \<Rightarrow> storable_summary (result_summary r) \<and> \<not> isl (success_diagnostics r))"

text \<open>The ids the generator will produce are new, as those of \<open>uuid4\<close> are.\<close>

definition ids_fresh :: "'s world \<Rightarrow> string set \<Rightarrow> bool" where
  "ids_fresh w used \<longleftrightarrow>
     (\<forall>i k. ids_used w \<le> i \<longrightarrow> identity_parse (id_fn w i) = Inr k \<longrightarrow>
        k \<notin> used \<and> (\<forall>i'. ids_used w \<le> i' \<longrightarrow> identity_parse (id_fn w i') = Inr k \<longrightarrow> i' = i))"

definition sys_inv :: "job_map system \<Rightarrow> bool" where
  "sys_inv s \<longleftrightarrow>
     (case s of (w, p) \<Rightarrow>
        store_wf (stored w) \<and> ids_fresh w (dom (stored w) \<union> set p) \<and>
        distinct p \<and> list_all uuid_canonical p \<and>
        (\<forall>k j. stored w k = Some j \<longrightarrow> job_ok j \<and> (k \<in> set p \<longrightarrow> status j \<noteq> Queued)))"

text \<open>The runner of a running job has not been lost.\<close>

definition attended :: "job_map system \<Rightarrow> bool" where
  "attended s \<longleftrightarrow>
     (case s of (w, p) \<Rightarrow> \<forall>k j. stored w k = Some j \<longrightarrow> status j = Running \<longrightarrow> k \<in> set p)"

section \<open>Effects of the handlers on the abstract store\<close>

definition same_ids :: "job_map world \<Rightarrow> job_map world \<Rightarrow> bool" where
  "same_ids w w' \<longleftrightarrow> id_fn w' = id_fn w \<and> ids_used w' = ids_used w"

definition quiet :: "job_map world \<Rightarrow> job_map world \<Rightarrow> bool" where
  "quiet w w' \<longleftrightarrow> stored w' = stored w \<and> same_ids w w'"

definition touched :: "job_map world \<Rightarrow> string \<Rightarrow> forecast_job \<Rightarrow> forecast_job \<Rightarrow> job_map world \<Rightarrow> bool" where
  "touched w k j c w' \<longleftrightarrow>
     stored w k = Some j \<and> job_change j c \<and> stored w' = (stored w)(k \<mapsto> c) \<and> same_ids w w'"

definition fresh_record :: "forecast_job \<Rightarrow> bool" where
  "fresh_record j \<longleftrightarrow>
     (\<exists>c n p a now msg. j = new_job_record c p a now (job_id j) msg \<and> make_attempt n p = Inr a)"

definition created :: "job_map world \<Rightarrow> forecast_job \<Rightarrow> job_map world \<Rightarrow> bool" where
  "created w j w' \<longleftrightarrow>
     identity_parse (id_fn w (ids_used w)) = Inr (job_id j) \<and>
     fresh_record j \<and> storable j \<and> stored w' = (stored w)(job_id j \<mapsto> j) \<and>
     id_fn w' = id_fn w \<and> ids_used w' = Suc (ids_used w)"

definition aged :: "job_map world \<Rightarrow> job_map world \<Rightarrow> bool" where
  "aged w w' \<longleftrightarrow> stored w' = stored w \<and> id_fn w' = id_fn w \<and> ids_used w \<le> ids_used w'"

lemma cancel_effect:
  assumes wf: "store_wf (stored w)" and run: "cancel_execute ref_store f jid w = (r, w')"
  shows "quiet w w' \<or> (\<exists>k j c. touched w k j c w' \<and> status c = Cancelled)"
proof (cases "normalize_job_id jid")
  case (Inl e)
  then show ?thesis using run by (simp add: cancel_execute_def bindM_def ref_get_bad quiet_def same_ids_def)
next
  case (Inr k)
  show ?thesis
  proof (cases "stored w k")
    case None
    then show ?thesis
      using run Inr by (simp add: cancel_execute_def bindM_def ref_get_absent quiet_def same_ids_def)
  next
    case (Some j)
    show ?thesis
    proof (cases "status j \<in> TERMINAL_JOB_STATUSES")
      case True
      then show ?thesis using run by (simp add: cancel_run [OF wf Inr Some] quiet_def same_ids_def)
    next
      case False
      then show ?thesis
        using run Some
        by (intro disjI2 exI [of _ k] exI [of _ j] exI)
          (auto simp: cancel_run [OF wf Inr Some] Let_def touched_def same_ids_def status_cases
            intro: job_change.cancel)
    qed
  qed
qed

lemma start_effect:
  assumes wf: "store_wf (stored w)" and k: "uuid_canonical k"
    and run: "run_start ref_store k w = (r, w')"
  shows "(\<exists>j c. r = Inr (Some j) \<and> status j = Queued \<and> touched w k j c w' \<and> status c = Running) \<or>
         (\<forall>j. r \<noteq> Inr (Some j)) \<and> quiet w w'"
proof (cases "stored w k")
  case None
  then show ?thesis
    using run k by (auto simp: run_start_def bindM_def ref_get_run quiet_def same_ids_def)
next
  case (Some j)
  show ?thesis
    using run Some
    by (auto simp: run_start_run [OF wf normalize_canonical [OF k] Some] Let_def quiet_def
        touched_def same_ids_def intro: job_change.start split: if_splits)
qed

lemma mark_failed_effect:
  assumes wf: "store_wf (stored w)" and k: "uuid_canonical k"
    and run: "mark_failed ref_store k msg d w = (r, w')"
  shows "(\<exists>j c. touched w k j c w' \<and> status j = Running \<and> status c \<in> TERMINAL_JOB_STATUSES) \<or>
         quiet w w' \<and> (\<not> isl (failure_diagnostics d) \<longrightarrow> (\<forall>j. stored w k = Some j \<longrightarrow> status j \<noteq> Running))"
proof (cases "stored w k")
  case None
  then show ?thesis
    using run k by (auto simp: mark_failed_def bindM_def ref_get_run quiet_def same_ids_def)
next
  case (Some j)
  show ?thesis
    using run Some
    by (auto simp: mark_failed_run [OF wf normalize_canonical [OF k] Some] Let_def quiet_def
        touched_def same_ids_def TERMINAL_JOB_STATUSES_def intro: job_change.fail split: if_splits sum.splits)
qed

lemma success_effect:
  assumes wf: "store_wf (stored w)" and k: "uuid_canonical k" and s: "storable_summary (result_summary a)"
    and run: "run_finish ref_store k (Inr a) w = (r, w')"
  shows "(\<exists>j c. touched w k j c w' \<and> status j = Running \<and> status c \<in> TERMINAL_JOB_STATUSES) \<or>
         quiet w w' \<and> (\<not> isl (success_diagnostics a) \<longrightarrow> (\<forall>j. stored w k = Some j \<longrightarrow> status j \<noteq> Running))"
proof (cases "stored w k")
  case None
  then show ?thesis
    using run k by (auto simp: run_finish_def bindM_def clock_now_def ref_get_run quiet_def same_ids_def)
next
  case (Some j)
  show ?thesis
    using run Some
    by (auto simp: run_success_run [OF wf normalize_canonical [OF k] Some] Let_def quiet_def
        touched_def same_ids_def TERMINAL_JOB_STATUSES_def intro: job_change.succeed [OF _ s] split: if_splits sum.splits)
qed

lemma failure_diagnostics_None: "\<not> isl (failure_diagnostics None)"
  by (simp add: failure_diagnostics_def diagnostics_of_dict_def dict_or_def)

lemma finish_effect:
  assumes wf: "store_wf (stored w)" and k: "uuid_canonical k" and a: "answer_storable a"
    and run: "run_finish ref_store k a w = (r, w')"
  shows "(\<exists>j c. touched w k j c w' \<and> status j = Running \<and> status c \<in> TERMINAL_JOB_STATUSES) \<or>
         quiet w w' \<and> (answer_ok a \<longrightarrow> (\<forall>j. stored w k = Some j \<longrightarrow> status j \<noteq> Running))"
proof (cases a)
  case (Inl e)
  show ?thesis
  proof (cases e)
    case (ForecastProviderUnavailableError m d)
    then show ?thesis
      using mark_failed_effect [OF wf k, of m "Some d" r w'] run Inl
      by (auto simp: run_finish_def answer_ok_def)
  next
    case (OtherProviderError m)
    then show ?thesis
      using mark_failed_effect [OF wf k, of _ None r w'] run Inl failure_diagnostics_None
      by (auto simp: run_finish_def answer_ok_def)
  qed
next
  case (Inr b)
  then show ?thesis
    using success_effect [OF wf k, of b r w'] run a
    by (auto simp: answer_ok_def answer_storable_def)
qed

lemma build_new_job_effect:
  assumes "build_new_job la lo parent n w = (r, w')"
  shows "aged w w' \<and> isl r \<or>
    (\<exists>j. r = Inr j \<and> fresh_record j \<and> identity_parse (id_fn w (ids_used w)) = Inr (job_id j) \<and>
         stored w' = stored w \<and> id_fn w' = id_fn w \<and> ids_used w' = Suc (ids_used w))"
proof -
  have fresh: "fresh_record (new_job_record c p a now k msg)" if "make_attempt n p = Inr a" for c p a now k msg
  proof -
    have "new_job_record c p a now k msg = new_job_record c p a now (job_id (new_job_record c p a now k msg)) msg"
      by (simp add: new_job_record_def)
    with that show ?thesis unfolding fresh_record_def by blast
  qed
  have key: "job_id (new_job_record c p a now k msg) = k" for c p a now k msg
    by (simp add: new_job_record_def)
  show ?thesis
    using assms fresh
    by (auto simp: build_new_job_def bindM_def clock_now_def new_id_def aged_def key split: sum.splits)
qed

lemma ref_create_effect:
  assumes run: "ref_create la lo parent n w = (r, w')" and wf: "store_wf (stored w)"
  shows "aged w w' \<and> isl r \<or> (\<exists>j. created w j w' \<and> r = Inr j)"
proof -
  have st: "\<forall>j. r = Inr j \<longrightarrow> storable j"
    using simulatesD(3) [OF ref.sim_create, of w la lo parent n r w'] wf run by auto
  obtain rb wb where b: "build_new_job la lo parent n w = (rb, wb)" by fastforce
  from build_new_job_effect [OF this] show ?thesis
    using run b st by (auto simp: ref_create_def bindM_def created_def aged_def split: sum.splits)
qed

lemma count_event_run: "count_event ev w = (Inr (), counted ev w)"
  by (simp add: count_event_def)

lemma submit_effect:
  assumes wf: "store_wf (stored w)" and run: "submit_execute ref_store f la lo w = (r, w')"
  shows "aged w w' \<or> (\<exists>j. created w j w')"
proof -
  obtain rc wc where c: "ref_create la lo None 1 w = (rc, wc)" by fastforce
  from ref_create_effect [OF this wf] show ?thesis
    using run c
    by (auto simp: submit_execute_def bindM_def count_event_run created_def split: sum.splits)
qed

lemma retry_effect:
  assumes wf: "store_wf (stored w)" and run: "retry_execute ref_store f jid w = (r, w')"
  shows "aged w w' \<or> (\<exists>j. created w j w')"
proof -
  obtain rg wg where g: "ref_get jid w = (rg, wg)" by fastforce
  then have wg: "wg = w" by (rule ref_get_world)
  show ?thesis
  proof (cases rg)
    case (Inl e)
    then show ?thesis using run g wg by (simp add: retry_execute_def bindM_def aged_def)
  next
    case (Inr j)
    obtain rc wc where c: "ref_create (latitude j) (longitude j) (Some (job_id j)) (attempt j + 1) w = (rc, wc)"
      by fastforce
    from ref_create_effect [OF this wf] show ?thesis
      using run c g wg Inr
      by (auto simp: retry_execute_def bindM_def count_event_run aged_def created_def
          split: sum.splits if_splits)
  qed
qed

lemma cleanup_effect:
  assumes run: "cleanup_execute ref_store h older ss w = (r, w')"
  shows "\<exists>A. stored w' = stored w |` A \<and> same_ids w w'"
proof -
  have "stored w = stored w |` dom (stored w)" by (auto simp: restrict_map_def domIff)
  then show ?thesis
    using run
    by (auto simp: cleanup_execute_def Let_def bindM_def clock_now_def ref_delete_older_than_def
        same_ids_def split: sum.splits)
qed

section \<open>A recovery generates no ids\<close>

definition keeps_ids :: "('s, 'a) job_handler \<Rightarrow> bool" where
  "keeps_ids h \<longleftrightarrow> (\<forall>w r w'. h w = (r, w') \<longrightarrow> id_fn w' = id_fn w \<and> ids_used w' = ids_used w)"

lemma keeps_ids_return: "keeps_ids (returnM x)"
  and keeps_ids_raise: "keeps_ids (raiseM e)"
  and keeps_ids_lift: "keeps_ids (liftM v)"
  and keeps_ids_clock: "keeps_ids clock_now"
  by (auto simp: keeps_ids_def clock_now_def)

lemma keeps_ids_bind: "keeps_ids m \<Longrightarrow> (\<And>x. keeps_ids (f x)) \<Longrightarrow> keeps_ids (bindM m f)"
  unfolding keeps_ids_def bindM_def by (fastforce split: prod.splits sum.splits)

lemma keeps_ids_catch: "keeps_ids m \<Longrightarrow> (\<And>e. keeps_ids (h e)) \<Longrightarrow> keeps_ids (catchM m h)"
  unfolding keeps_ids_def catchM_def by (fastforce split: prod.splits sum.splits)

lemma keeps_ids_attempt: "keeps_ids m \<Longrightarrow> keeps_ids (attemptM m)"
  unfolding keeps_ids_def attemptM_def by (auto split: prod.splits)

lemma keeps_ids_if: "keeps_ids g \<Longrightarrow> keeps_ids h \<Longrightarrow> keeps_ids (if b then g else h)"
  by simp

lemmas keeps_ids_rules = keeps_ids_bind keeps_ids_catch keeps_ids_attempt keeps_ids_return
  keeps_ids_raise keeps_ids_lift keeps_ids_clock keeps_ids_if

lemma keeps_ids_update: "keeps_ids (ref_update_if_status j X)"
  unfolding ref_update_if_status_def prepare_job_for_update_def
  by (intro keeps_ids_rules) (auto simp: keeps_ids_def split: option.splits sum.splits)

lemma keeps_ids_recover_job: "keeps_ids (recover_job ref_store now n j)"
  unfolding recover_job_def mark_timed_out_def try_update_def ref_store_sel
  by (intro keeps_ids_rules keeps_ids_update; simp split: job_error.split add: keeps_ids_rules)

lemma keeps_ids_recover_loop: "keeps_ids (recover_loop ref_store now n js rep enq)"
proof (induction js arbitrary: rep enq)
  case Nil
  show ?case unfolding recover_loop.simps by (rule keeps_ids_return)
next
  case (Cons j js)
  show ?case
    unfolding recover_loop.simps
    by (intro keeps_ids_bind keeps_ids_attempt keeps_ids_recover_job)
      (simp split: sum.split recovery_outcome.split add: keeps_ids_return Cons.IH)
qed

lemma keeps_ids_recover: "keeps_ids (recover_interrupted_jobs ref_store d n)"
  unfolding recover_interrupted_jobs_def Let_def
  by (intro keeps_ids_bind keeps_ids_clock keeps_ids_recover_loop) (simp add: keeps_ids_def)

text \<open>A recovery that returns a report had a limit to compare with, or nothing to compare.\<close>

lemma recover_loop_Inl:
  assumes "minus_seconds now n = Inl e" and "recover_loop ref_store now n js rep enq w = (Inr (q, Inr r), w')"
  shows "js = []"
  using assms by (cases js) (auto simp: recover_job_def should_mark_job_stale_def bindM_def attemptM_def)

lemma restart_effect:
  assumes wf: "store_wf (stored w)"
    and run: "recover_interrupted_jobs ref_store d n w = (Inr (enq, Inr rep), w')"
  shows "same_ids w w' \<and>
    (\<exists>limit now timeout. recovered_store limit now timeout (stored w) (stored w'))"
proof -
  have ids: "same_ids w w'" using keeps_ids_recover run by (auto simp: keeps_ids_def same_ids_def)
  let ?now = "clock_fn w (ticks w)" and ?n = "int_or n d"
  show ?thesis
  proof (cases "minus_seconds ?now ?n")
    case (Inr limit)
    from recover_ref [OF wf refl refl Inr] run have
      "recovered_store limit ?now ?n (stored w) (stored w')" by auto
    with ids show ?thesis by blast
  next
    case (Inl e)
    have none: "active_jobs (stored w) = []"
      using run by (intro recover_loop_Inl [OF Inl])
        (auto simp: recover_interrupted_jobs_def bindM_def clock_now_def active_jobs_def)
    then have "w' = w\<lparr>ticks := Suc (ticks w)\<rparr>"
      using run by (simp add: recover_interrupted_jobs_def bindM_def clock_now_def active_jobs_def)
    moreover have "recovered_store l ?now ?n (stored w) (stored w)" for l
      using active_jobs_set [OF wf] none
      by (auto simp: recovered_store_def status_cases ran_def split: option.split)
    ultimately show ?thesis using ids by auto
  qed
qed

section \<open>The invariants\<close>

lemma ids_fresh_same:
  "ids_fresh w used \<Longrightarrow> same_ids w w' \<Longrightarrow> used' \<subseteq> used \<Longrightarrow> ids_fresh w' used'"
  unfolding ids_fresh_def same_ids_def by (metis subsetD)

lemma ids_fresh_aged: "ids_fresh w used \<Longrightarrow> aged w w' \<Longrightarrow> ids_fresh w' used"
  unfolding ids_fresh_def aged_def by (metis le_trans)

lemma ids_fresh_created:
  "ids_fresh w used \<Longrightarrow> created w j w' \<Longrightarrow> ids_fresh w' (insert (job_id j) used)"
  unfolding ids_fresh_def created_def
  by (metis Suc_leD insert_iff le_refl not_less_eq_eq)

lemma sys_invI:
  assumes "store_wf (stored w)" and "ids_fresh w (dom (stored w) \<union> set p)" and "distinct p"
    and "list_all uuid_canonical p"
    and "\<And>k j. stored w k = Some j \<Longrightarrow> job_ok j"
    and "\<And>k j. stored w k = Some j \<Longrightarrow> k \<in> set p \<Longrightarrow> status j \<noteq> Queued"
  shows "sys_inv (w, p)"
  using assms by (auto simp: sys_inv_def)

lemma sys_invD:
  assumes "sys_inv (w, p)"
  shows "store_wf (stored w)" and "ids_fresh w (dom (stored w) \<union> set p)" and "distinct p"
    and "list_all uuid_canonical p"
    and "stored w k = Some j \<Longrightarrow> job_ok j"
    and "stored w k = Some j \<Longrightarrow> k \<in> set p \<Longrightarrow> status j \<noteq> Queued"
  using assms by (auto simp: sys_inv_def)

lemma sys_inv_quiet:
  assumes "sys_inv (w, p)" and "quiet w w'" and "set p' \<subseteq> set p" and "distinct p'"
  shows "sys_inv (w', p')"
  using assms by (auto simp: sys_inv_def quiet_def list_all_iff intro: ids_fresh_same)

lemma sys_inv_touched:
  assumes inv': "sys_inv (w, p)" and t: "touched w k j c w'"
    and p': "set p' \<subseteq> insert k (set p)" "distinct p'" and k: "k \<in> set p' \<Longrightarrow> status c \<noteq> Queued"
  shows "sys_inv (w', p')"
proof (rule sys_invI)
  note D = sys_invD [OF inv']
  have st: "stored w k = Some j" "job_change j c" "stored w' = (stored w)(k \<mapsto> c)" "same_ids w w'"
    using t by (simp_all add: touched_def)
  note key = store_wfD [OF D(1)]
  show "store_wf (stored w')"
    unfolding st(3) using D(1) key(1,2,3) st(1) job_change_frame [OF st(2)] job_change_storable [OF st(2)]
    by (intro store_wf_upd) auto
  show "ids_fresh w' (dom (stored w') \<union> set p')"
    by (rule ids_fresh_same [OF D(2) st(4)]) (use st(1,3) p'(1) in auto)
  show "distinct p'" by (rule p'(2))
  show "list_all uuid_canonical p'" using D(4) p'(1) key(2) [OF st(1)] by (auto simp: list_all_iff)
  show "job_ok i" if "stored w' k' = Some i" for k' i
    using that D(5) job_change_ok [OF st(2)] st(1,3) by (auto split: if_splits)
  show "status i \<noteq> Queued" if "stored w' k' = Some i" "k' \<in> set p'" for k' i
  proof (cases "k' = k")
    case True
    then show ?thesis using that st(3) k by auto
  next
    case False
    then show ?thesis using that st(3) p'(1) D(6) [of k' i] by auto
  qed
qed

lemma fresh_record_ok: "fresh_record j \<Longrightarrow> job_ok j \<and> status j = Queued"
  unfolding fresh_record_def by (metis new_job_ok new_job_record_def forecast_job.select_convs(2))

lemma sys_inv_created:
  assumes inv': "sys_inv (w, p)" and c: "created w j w'"
  shows "sys_inv (w', p)"
proof (rule sys_invI)
  note D = sys_invD [OF inv']
  have new: "job_id j \<notin> set p"
    using D(2) c unfolding ids_fresh_def created_def by blast
  have st: "stored w' = (stored w)(job_id j \<mapsto> j)" using c by (simp add: created_def)
  show "store_wf (stored w')"
    unfolding st using D(1) c by (intro store_wf_upd) (auto simp: created_def identity_parse_canonical)
  show "ids_fresh w' (dom (stored w') \<union> set p)"
    using ids_fresh_created [OF D(2) c] by (simp add: st)
  show "distinct p" "list_all uuid_canonical p" by (rule D(3), rule D(4))
  show "job_ok i" if "stored w' k' = Some i" for k' i
    using that D(5) c fresh_record_ok [of j] by (auto simp: st created_def split: if_splits)
  show "status i \<noteq> Queued" if "stored w' k' = Some i" "k' \<in> set p" for k' i
    using that D(6) [of k' i] new by (auto simp: st split: if_splits)
qed

lemma sys_inv_aged: "sys_inv (w, p) \<Longrightarrow> aged w w' \<Longrightarrow> sys_inv (w', p)"
  using ids_fresh_aged [of w "dom (stored w) \<union> set p" w'] by (auto simp: sys_inv_def aged_def)

lemma recovered_store_change:
  assumes "recovered_store limit now n m m'" and "m' k = Some j'"
  obtains j where "m k = Some j" and "j' = j \<or> job_change j j'"
proof -
  have at_k: "case m k of None \<Rightarrow> m' k = None
          | Some j \<Rightarrow> if status j \<in> TERMINAL_JOB_STATUSES then m' k = Some j
              else \<exists>u. m' k = Some ((after_recovery limit now n j)\<lparr>updated_at := u\<rparr>)"
    using assms(1) unfolding recovered_store_def by (rule spec)
  obtain j where j: "m k = Some j" using at_k assms(2) by (cases "m k") auto
  with at_k assms(2) have c: "if status j \<in> TERMINAL_JOB_STATUSES then j' = j
        else \<exists>u. j' = (after_recovery limit now n j)\<lparr>updated_at := u\<rparr>"
    by (simp split: if_splits) fastforce?
  have "j' = j \<or> job_change j j'"
    using c by (auto simp: after_recovery_def status_cases split: if_splits intro: job_change.intros)
  with j that show ?thesis by blast
qed

lemma sys_inv_restart:
  assumes inv': "sys_inv (w, p)" and ids: "same_ids w w'" and r: "recovered_store limit now n (stored w) (stored w')"
  shows "sys_inv (w', [])"
proof (rule sys_invI)
  note D = sys_invD [OF inv']
  have sub: "dom (stored w') \<subseteq> dom (stored w)"
    by (auto elim!: recovered_store_change [OF r])
  show "store_wf (stored w')"
    unfolding store_wf_def
  proof (intro conjI allI impI)
    show "finite (dom (stored w'))" by (rule finite_subset [OF sub store_wfD(4) [OF D(1)]])
    fix k j' assume "stored w' k = Some j'"
    with r obtain j where j: "stored w k = Some j" "j' = j \<or> job_change j j'"
      by (rule recovered_store_change)
    show "job_id j' = k" "uuid_canonical k" "storable j'"
      using j store_wfD(1,2,3) [OF D(1) j(1)] job_change_frame job_change_storable by auto
  qed
  show "ids_fresh w' (dom (stored w') \<union> set [])" using ids_fresh_same [OF D(2) ids] sub by auto
  show "job_ok j'" if "stored w' k = Some j'" for k j'
    using recovered_store_change [OF r that] D(5) job_change_ok by metis
qed simp_all

text \<open>How a step of the abstract service changes the store: the ways the proofs distinguish.\<close>

lemma sys_step_effects:
  assumes run: "sys_step ref_store f answers (w, p) (w', p')" and inv': "sys_inv (w, p)"
    and storable: "\<forall>a. answers a \<longrightarrow> answer_storable a"
  obtains (idle) "quiet w w'" and "p' = p"
  | (aged) "aged w w'" and "p' = p"
  | (created) j where "created w j w'" and "p' = p"
  | (cancelled) k j c where "touched w k j c w'" and "status c = Cancelled" and "p' = p"
  | (deleted) A where "stored w' = stored w |` A" and "same_ids w w'" and "p' = p"
  | (started) k j c where "touched w k j c w'" and "status j = Queued" and "status c = Running"
      and "p' = k # p"
  | (finished) k j c where "touched w k j c w'" and "status j = Running"
      and "status c \<in> TERMINAL_JOB_STATUSES" and "k \<in> set p" and "p' = remove1 k p"
  | (dropped) k a where "quiet w w'" and "k \<in> set p" and "p' = remove1 k p" and "answers a"
      and "answer_ok a \<longrightarrow> (\<forall>j. stored w k = Some j \<longrightarrow> status j \<noteq> Running)"
  | (restarted) limit now n where "recovered_store limit now n (stored w) (stored w')"
      and "same_ids w w'" and "p' = []"
proof -
  note wf = sys_invD(1) [OF inv']
  from run show thesis
  proof cases
    case (submit la lo r)
    from submit_effect [OF wf submit(2)] submit(1) show thesis by (auto intro: that)
  next
    case (cancel jid r')
    from cancel_effect [OF wf cancel(2)] cancel(1) show thesis by (auto intro: that)
  next
    case (retry jid r)
    from retry_effect [OF wf retry(2)] retry(1) show thesis by (auto intro: that)
  next
    case (cleanup h older statuses rc)
    from cleanup_effect [OF cleanup(2)] cleanup(1) show thesis by (auto intro: that)
  next
    case (start jid rs)
    from start_effect [OF wf start(2,3)] start(1) show thesis
      by (auto intro: that split: sum.splits option.splits)
  next
    case (finish jid a ru)
    then have "uuid_canonical jid" using sys_invD(4) [OF inv'] by (auto simp: list_all_iff)
    from finish_effect [OF wf this storable [rule_format, OF finish(3)] finish(4)] finish(1,2,3) show thesis
      by (auto intro: that)
  next
    case (restart d n enq rep)
    have "store_wf (stored (w\<lparr>registry := empty_registry\<rparr>))" using wf by simp
    from restart_effect [OF this restart(2)] restart(1) show thesis
      by (auto intro: that simp: same_ids_def)
  qed
qed

lemma sys_inv_step:
  assumes "sys_step ref_store f answers (w, p) (w', p')" and inv': "sys_inv (w, p)"
    and "\<forall>a. answers a \<longrightarrow> answer_storable a"
  shows "sys_inv (w', p')"
  using assms
proof (cases rule: sys_step_effects)
  case (deleted A)
  note D = sys_invD [OF inv']
  show ?thesis
    unfolding deleted(3)
  proof (rule sys_invI)
    show "store_wf (stored w')" unfolding deleted(1) by (rule store_wf_restrict [OF D(1)])
    show "ids_fresh w' (dom (stored w') \<union> set p)"
      by (rule ids_fresh_same [OF D(2) deleted(2)]) (auto simp: deleted(1))
    show "distinct p" "list_all uuid_canonical p" by (rule D(3), rule D(4))
    show "job_ok j" if "stored w' k = Some j" for k j
      using that D(5) unfolding deleted(1) by (auto simp: restrict_map_def split: if_splits)
    show "status j \<noteq> Queued" if "stored w' k = Some j" "k \<in> set p" for k j
      using that D(6) unfolding deleted(1) by (auto simp: restrict_map_def split: if_splits)
  qed
next
  case (started k j c)
  have "k \<notin> set p" using started sys_invD(6) [OF inv'] by (auto simp: touched_def)
  then show ?thesis
    using started sys_invD(3) [OF inv'] by (intro sys_inv_touched [OF inv' started(1)]) auto
next
  case (finished k j c)
  then show ?thesis
    using sys_invD(3) [OF inv'] set_remove1_subset [of k p]
    by (intro sys_inv_touched [OF inv' finished(1)]) auto
next
  case (cancelled k j c)
  then show ?thesis
    using sys_invD(3) [OF inv'] by (intro sys_inv_touched [OF inv' cancelled(1)]) auto
next
  case (dropped k a)
  then show ?thesis
    using sys_invD(3) [OF inv'] set_remove1_subset [of k p] by (intro sys_inv_quiet [OF inv']) auto
next
  case idle
  then show ?thesis using sys_inv_quiet [OF inv' idle(1)] sys_invD(3) [OF inv'] by simp
qed (auto intro: sys_inv_aged [OF inv'] sys_inv_created [OF inv'] sys_inv_restart [OF inv'])

lemma attended_step:
  assumes "sys_step ref_store f answers (w, p) (w', p')" and inv': "sys_inv (w, p)"
    and "\<forall>a. answers a \<longrightarrow> answer_storable a"
    and ok: "\<And>a. answers a \<Longrightarrow> answer_ok a" and att: "attended (w, p)"
  shows "attended (w', p')"
  using assms(1-3)
proof (cases rule: sys_step_effects)
  case (created j)
  then show ?thesis
    using att fresh_record_ok [of j] by (auto simp: attended_def created_def split: if_splits)
next
  case (deleted A)
  then show ?thesis using att by (auto simp: attended_def restrict_map_def split: if_splits)
next
  case (finished k j c)
  then show ?thesis
    using att sys_invD(3) [OF inv']
    by (auto simp: attended_def touched_def TERMINAL_JOB_STATUSES_def split: if_splits)
next
  case (dropped k a)
  then show ?thesis
    using att ok [OF dropped(4)] sys_invD(3) [OF inv'] by (auto simp: attended_def quiet_def)
next
  case (restarted limit now n)
  have "status j \<noteq> Running" if "stored w' k = Some j" for k j
    by (rule recovered_store_active(2) [OF sys_invD(1) [OF inv'] restarted(1) that])
  then show ?thesis by (auto simp: attended_def)
qed (use att in \<open>auto simp: attended_def quiet_def aged_def touched_def split: if_splits\<close>)

text \<open>An id that was used is never produced again.\<close>

definition spent :: "job_map world \<Rightarrow> string \<Rightarrow> bool" where
  "spent w k \<longleftrightarrow> (\<forall>i. ids_used w \<le> i \<longrightarrow> identity_parse (id_fn w i) \<noteq> Inr k)"

text \<open>
  What may become of one stored job in one step: it stays, it changes as \<open>job_change\<close> says, or it
  is deleted; and its id is not given to another job afterwards.
\<close>

lemma job_step:
  assumes "sys_step ref_store f answers (w, p) (w', p')" and inv': "sys_inv (w, p)"
    and "\<forall>a. answers a \<longrightarrow> answer_storable a"
    and k: "spent w k"
  shows "spent w' k \<and>
    (case stored w k of
       None \<Rightarrow> stored w' k = None
     | Some j \<Rightarrow> stored w' k = None \<or> (\<exists>j'. stored w' k = Some j' \<and> (j' = j \<or> job_change j j')))"
  using assms(1-3)
proof (cases rule: sys_step_effects)
  case (restarted limit now n)
  have "case stored w k of
       None \<Rightarrow> stored w' k = None
     | Some j \<Rightarrow> stored w' k = None \<or> (\<exists>j'. stored w' k = Some j' \<and> (j' = j \<or> job_change j j'))"
  proof (cases "stored w' k")
    case None
    then show ?thesis by (simp split: option.split)
  next
    case (Some j')
    with restarted(1) obtain j where "stored w k = Some j" "j' = j \<or> job_change j j'"
      by (rule recovered_store_change)
    with Some show ?thesis by auto
  qed
  then show ?thesis using restarted(2) k by (simp add: spent_def same_ids_def)
qed (use k in \<open>auto simp: spent_def quiet_def aged_def touched_def same_ids_def created_def
       restrict_map_def split: option.split\<close>)

lemma sys_inv_spent: "sys_inv (w, p) \<Longrightarrow> stored w k = Some j \<Longrightarrow> spent w k"
  using sys_invD(2) [of w p] by (auto simp: ids_fresh_def spent_def)

lemma sys_reach_inv:
  assumes "sys_reach ref_store f answers s s'" and "sys_inv s" and "\<forall>a. answers a \<longrightarrow> answer_storable a"
  shows "sys_inv s'"
  using assms
proof induction
  case (step s' s'')
  then show ?case by (cases s', cases s'') (auto intro: sys_inv_step)
qed

lemma sys_reach_attended:
  assumes "sys_reach ref_store f answers s s'" and "sys_inv s" and "attended s"
    and st: "\<forall>a. answers a \<longrightarrow> answer_storable a" and ok: "\<And>a. answers a \<Longrightarrow> answer_ok a"
  shows "attended s'"
  using assms(1-3)
proof induction
  case (step s' s'')
  have "sys_inv s'" using sys_reach_inv [OF step(1) step(4) st] .
  with step st ok show ?case by (cases s', cases s'') (auto intro: attended_step)
qed

inductive job_changes :: "forecast_job \<Rightarrow> forecast_job \<Rightarrow> bool" where
  refl: "job_changes j j"
| step: "job_changes j j' \<Longrightarrow> job_change j' j'' \<Longrightarrow> job_changes j j''"

lemma job_changes_terminal:
  "job_changes j j' \<Longrightarrow> status j \<in> TERMINAL_JOB_STATUSES \<Longrightarrow> j' = j"
  by (induction rule: job_changes.induct) (auto dest: job_change_active simp: status_cases)

lemma job_changes_frame:
  "job_changes j j' \<Longrightarrow> job_id j' = job_id j \<and> attempt j' = attempt j \<and> parent_job_id j' = parent_job_id j \<and>
     latitude j' = latitude j \<and> longitude j' = longitude j \<and> created_at j' = created_at j"
  by (induction rule: job_changes.induct) (auto dest: job_change_frame)

lemma job_changes_history: "job_changes j j' \<Longrightarrow> \<exists>ss. history j' = history j @ ss"
  by (induction rule: job_changes.induct) (auto dest: job_change_history)

lemma sys_reach_job:
  assumes "sys_reach ref_store f answers (w, p) s'" and inv': "sys_inv (w, p)"
    and st: "\<forall>a. answers a \<longrightarrow> answer_storable a" and k: "stored w k = Some j"
  shows "spent (fst s') k \<and> (\<forall>j'. stored (fst s') k = Some j' \<longrightarrow> job_changes j j')"
  using assms(1)
proof induction
  case init
  show ?case using k sys_inv_spent [OF inv' k] by (simp add: job_changes.refl)
next
  case (step s' s'')
  obtain w1 p1 w2 p2 where s: "s' = (w1, p1)" "s'' = (w2, p2)" by (cases s', cases s'') auto
  have i: "sys_inv (w1, p1)" using sys_reach_inv [OF step(1) inv' st] s by simp
  from job_step [OF step(2) [unfolded s] i st, of k] step(3) s show ?case
    by (auto split: option.splits intro: job_changes.step)
qed

section \<open>Every store adapter\<close>

definition abs_sys :: "('s \<Rightarrow> job_map) \<Rightarrow> 's system \<Rightarrow> job_map system" where
  "abs_sys amap s = (abs_world amap (fst s), snd s)"

lemma abs_sys_pair [simp]: "abs_sys amap (w, p) = (abs_world amap w, p)"
  by (simp add: abs_sys_def)

lemma answer_ok_storable: "answer_ok a \<Longrightarrow> answer_storable a"
  by (auto simp: answer_ok_def answer_storable_def split: sum.splits)

context job_store
begin

lemma sys_step_sim:
  assumes "sys_step st f answers (w, p) (w', p')" and ok: "ok (stored w)"
    and an: "\<forall>a. answers a \<longrightarrow> answer_storable a"
  shows "ok (stored w') \<and> sys_step ref_store f answers (abs_sys amap (w, p)) (abs_sys amap (w', p'))"
  using assms(1)
proof cases
  case (submit la lo r)
  from simulatesD [OF sim_submit ok submit(2)] submit(1) show ?thesis by (auto intro: sys_step.submit)
next
  case (cancel jid r)
  from simulatesD [OF sim_cancel ok cancel(2)] cancel(1) show ?thesis by (auto intro: sys_step.cancel)
next
  case (retry jid r)
  from simulatesD [OF sim_retry ok retry(2)] retry(1) show ?thesis by (auto intro: sys_step.retry)
next
  case (cleanup h older statuses rc)
  from simulatesD [OF sim_cleanup ok cleanup(2)] cleanup(1) show ?thesis by (auto intro: sys_step.cleanup)
next
  case (start jid rs)
  from simulatesD [OF sim_run_start ok start(3)] start(1,2) show ?thesis
    using sys_step.start [of jid ref_store "abs_world amap w" rs "abs_world amap w'" f answers p] by simp
next
  case (finish jid a ru)
  from simulatesD [OF sim_run_finish [OF an [rule_format, OF finish(3)]] ok finish(4)] finish(1-3)
  show ?thesis by (auto intro: sys_step.finish)
next
  case (restart d n enq rep)
  have "ok (stored (w\<lparr>registry := empty_registry\<rparr>))" using ok by simp
  from simulatesD [OF sim_recover this restart(2)] restart(1) show ?thesis
    using sys_step.restart [of ref_store d n "abs_world amap w" enq rep "abs_world amap w'" f answers p]
    by simp
qed

lemma sys_reach_sim:
  assumes "sys_reach st f answers s s'" and "ok (stored (fst s))"
    and an: "\<forall>a. answers a \<longrightarrow> answer_storable a"
  shows "ok (stored (fst s')) \<and> sys_reach ref_store f answers (abs_sys amap s) (abs_sys amap s')"
  using assms(1,2)
proof induction
  case init
  then show ?case by (simp add: sys_reach.init)
next
  case (step s' s'')
  obtain w1 p1 w2 p2 where s: "s' = (w1, p1)" "s'' = (w2, p2)" by (cases s', cases s'') auto
  from sys_step_sim [OF step(2) [unfolded s] _ an] step(3,4) s show ?case
    by (auto intro: sys_reach.step)
qed

end

end
