(* ===== verification/Job_Api.thy ===== *)
theory Job_Api imports
  Job_System
begin

text \<open>
  \<open>api/http/v1/routers/forecast_jobs.py\<close>: the HTTP routes of the job API over the service, which
  only forwards (\<open>services/jobs.py\<close>, \<open>ForecastJobCommandService\<close>, \<open>ForecastJobQueryService\<close>).

  A response is a status code with its document, an \<open>HTTPException\<close> with its detail, or an
  exception no route catches, for which the server answers 500. Requests that break the declared
  bounds of a body or query field get FastAPI's 422. A route also returns the ids it handed to the
  queue worker.
\<close>

datatype 'b http_response =
    Response nat 'b
  | HttpError nat string
  | Unhandled job_error

definition not_found_detail :: string where
  "not_found_detail = ''Forecast job not found.''"

definition route_error :: "job_error \<Rightarrow> 'b http_response" where
  "route_error e =
     (case e of
        ForecastJobNotFoundError _ \<Rightarrow> HttpError 404 not_found_detail
      | _ \<Rightarrow> if is_conflict_error e then HttpError 409 (conflict_message e) else Unhandled e)"

definition lookup_error :: "job_error \<Rightarrow> 'b http_response" where
  "lookup_error e =
     (case e of
        ForecastJobNotFoundError _ \<Rightarrow> HttpError 404 not_found_detail
      | _ \<Rightarrow> Unhandled e)"

type_synonym ('s, 'b) route = "'s world \<Rightarrow> ('b http_response \<times> string list) \<times> 's world"

definition answer :: "(job_error \<Rightarrow> 'b http_response) \<Rightarrow> nat \<Rightarrow> ('b \<Rightarrow> string list) \<Rightarrow>
    ('s, 'b) job_handler \<Rightarrow> ('s, 'b) route" where
  "answer on_error code jobs h w =
     (case h w of
        (Inl e, w') \<Rightarrow> ((on_error e, []), w')
      | (Inr b, w') \<Rightarrow> ((Response code b, jobs b), w'))"

definition create_forecast_job ::
    "'s job_store_ops \<Rightarrow> (pyfloat \<Rightarrow> string) \<Rightarrow> pyfloat \<Rightarrow> pyfloat \<Rightarrow> ('s, forecast_job) route" where
  "create_forecast_job st flt_str lat lon w =
     (if \<not> (flt_between (-90) lat 90 \<and> flt_between (-180) lon 180) then ((HttpError 422 [], []), w)
      else answer Unhandled 202 (\<lambda>j. [job_id j]) (submit_execute st flt_str lat lon) w)"

definition list_forecast_jobs ::
    "'s job_store_ops \<Rightarrow> (pyfloat \<Rightarrow> string) \<Rightarrow> int \<Rightarrow> job_status option \<Rightarrow> ('s, job_list_response) route" where
  "list_forecast_jobs st flt_str limit s w =
     (if \<not> (1 \<le> limit \<and> limit \<le> 100) then ((HttpError 422 [], []), w)
      else answer Unhandled 200 (\<lambda>_. []) (list_recent_jobs st flt_str limit s) w)"

text \<open>\<open>ForecastJobCleanupRequest\<close>: a field the body leaves out has its default.\<close>

record cleanup_request =
  req_older_than_hours :: "int option"
  req_statuses :: "job_status list option"

definition request_hours :: "cleanup_request \<Rightarrow> int" where
  "request_hours r = (case req_older_than_hours r of None \<Rightarrow> 168 | Some h \<Rightarrow> h)"

definition request_statuses :: "cleanup_request \<Rightarrow> job_status list" where
  "request_statuses r = (case req_statuses r of None \<Rightarrow> [Succeeded, Failed, Cancelled] | Some s \<Rightarrow> s)"

definition cleanup_request_valid :: "cleanup_request \<Rightarrow> bool" where
  "cleanup_request_valid r =
     (1 \<le> request_hours r \<and> request_hours r \<le> 8760 \<and>
      list_all is_terminal_job_status (request_statuses r))"

definition cleanup_forecast_jobs ::
    "'s job_store_ops \<Rightarrow> int \<Rightarrow> cleanup_request option \<Rightarrow> ('s, job_cleanup_response) route" where
  "cleanup_forecast_jobs st retention request w =
     (if \<not> pred_option cleanup_request_valid request then ((HttpError 422 [], []), w)
      else answer Unhandled 200 (\<lambda>_. [])
        (cleanup_execute st retention (map_option request_hours request) (map_option request_statuses request)) w)"

definition get_forecast_job ::
    "'s job_store_ops \<Rightarrow> (pyfloat \<Rightarrow> string) \<Rightarrow> string \<Rightarrow> ('s, forecast_job) route" where
  "get_forecast_job st flt_str jid = answer lookup_error 200 (\<lambda>_. []) (get_job st flt_str jid)"

definition poll_forecast_job ::
    "'s job_store_ops \<Rightarrow> (pyfloat \<Rightarrow> string) \<Rightarrow> string \<Rightarrow> ('s, job_poll_response) route" where
  "poll_forecast_job st flt_str jid = answer lookup_error 200 (\<lambda>_. []) (poll_job st flt_str jid)"

definition cancel_forecast_job ::
    "'s job_store_ops \<Rightarrow> (pyfloat \<Rightarrow> string) \<Rightarrow> string \<Rightarrow> ('s, forecast_job) route" where
  "cancel_forecast_job st flt_str jid = answer route_error 200 (\<lambda>_. []) (cancel_execute st flt_str jid)"

definition retry_forecast_job ::
    "'s job_store_ops \<Rightarrow> (pyfloat \<Rightarrow> string) \<Rightarrow> string \<Rightarrow> ('s, forecast_job) route" where
  "retry_forecast_job st flt_str jid =
     answer route_error 202 (\<lambda>j. [job_id j]) (retry_execute st flt_str jid)"

section \<open>The routes do the same with every store adapter\<close>

lemma answer_sim:
  assumes "simulates ok amap P h g" and "ok (stored w)"
  shows "fst (answer e c jobs g (abs_world amap w)) = fst (answer e c jobs h w)"
    and "snd (answer e c jobs g (abs_world amap w)) = abs_world amap (snd (answer e c jobs h w))"
  using simulatesD [OF assms, of "fst (h w)" "snd (h w)"]
  by (auto simp: answer_def split: prod.splits sum.splits)

section \<open>Responses over the abstract store\<close>

text \<open>The job a route finds under an id of any spelling.\<close>

definition find_job :: "job_map \<Rightarrow> string \<Rightarrow> forecast_job option" where
  "find_job m jid = (case normalize_job_id jid of Inl _ \<Rightarrow> None | Inr k \<Rightarrow> m k)"

lemma find_job_cases:
  obtains (bad) e where "normalize_job_id jid = Inl e" and "find_job m jid = None"
  | (absent) k where "normalize_job_id jid = Inr k" and "m k = None" and "find_job m jid = None"
  | (found) k j where "normalize_job_id jid = Inr k" and "m k = Some j" and "find_job m jid = Some j"
  by (cases "normalize_job_id jid"; cases "find_job m jid") (auto simp: find_job_def)

lemma ref_get_find:
  "ref_get jid w = (case find_job (stored w) jid of
     None \<Rightarrow> (Inl (ForecastJobNotFoundError jid), w) | Some j \<Rightarrow> (Inr j, w))"
  by (auto simp: ref_get_def find_job_def split: sum.splits option.splits dest: normalize_job_id_Inl)

lemma cancel_response:
  assumes wf: "store_wf (stored w)"
  shows "fst (fst (cancel_forecast_job ref_store f jid w)) =
    (case find_job (stored w) jid of
       None \<Rightarrow> HttpError 404 not_found_detail
     | Some j \<Rightarrow>
         if status j \<in> TERMINAL_JOB_STATUSES then HttpError 409 (conflict_message (cannot ''cancel'' (status j)))
         else Response 200 (with_job_links f
                ((cancelled_job j (clock_fn w (ticks w)))\<lparr>updated_at := clock_fn w (Suc (ticks w))\<rparr>)))"
proof (cases rule: find_job_cases [of jid "stored w"])
  case (bad e)
  then show ?thesis
    using normalize_job_id_Inl [OF bad(1)]
    by (simp add: cancel_forecast_job_def answer_def cancel_execute_def bindM_def ref_get_bad route_error_def)
next
  case (absent k)
  then show ?thesis
    by (simp add: cancel_forecast_job_def answer_def cancel_execute_def bindM_def ref_get_absent route_error_def)
next
  case (found k j)
  then show ?thesis
    by (simp add: cancel_forecast_job_def answer_def cancel_run [OF wf found(1,2)] Let_def route_error_def
        cannot_def)
qed

lemma get_response:
  "fst (fst (get_forecast_job ref_store f jid w)) =
     (case find_job (stored w) jid of
        None \<Rightarrow> HttpError 404 not_found_detail
      | Some j \<Rightarrow> Response 200 (with_job_links f j))"
  by (simp add: get_forecast_job_def answer_def get_job_def bindM_def ref_get_find lookup_error_def
      split: option.split)

lemma poll_response:
  "fst (fst (poll_forecast_job ref_store f jid w)) =
     (case find_job (stored w) jid of
        None \<Rightarrow> HttpError 404 not_found_detail
      | Some j \<Rightarrow> Response 200 (to_job_poll_response (with_job_links f j)))"
  by (simp add: poll_forecast_job_def answer_def poll_job_def bindM_def ref_get_find lookup_error_def
      split: option.split)

lemma poll_found:
  assumes "job_store st ok amap" and "ok (stored w)" and "find_job (amap (stored w)) jid = Some j"
  shows "fst (fst (poll_forecast_job st f jid w)) = Response 200 (to_job_poll_response (with_job_links f j))"
proof -
  have "fst (poll_forecast_job st f jid w) = fst (poll_forecast_job ref_store f jid (abs_world amap w))"
    using answer_sim(1) [OF job_store.sim_poll_job [OF assms(1)] assms(2)] by (simp add: poll_forecast_job_def)
  moreover have "find_job (stored (abs_world amap w)) jid = Some j" using assms(3) by simp
  ultimately show ?thesis using poll_response [of f jid "abs_world amap w"] by simp
qed

definition accepted_message :: "string option \<Rightarrow> string" where
  "accepted_message parent =
     (case parent of None \<Rightarrow> ''Forecast job accepted.'' | Some _ \<Rightarrow> ''Forecast retry accepted.'')"

lemma uuid_canonical_not_Nil: "uuid_canonical k \<Longrightarrow> k \<noteq> []"
  by (auto elim!: uuid_canonicalE dest!: arg_cong [of _ _ length] simp: length_uuid_str)

lemma build_new_job_run:
  assumes "flt_between (-90) la 90" and "flt_between (-180) lo 180"
    and "pred_option uuid_canonical parent" and "1 \<le> n" and "parent = None \<longleftrightarrow> n = 1"
    and "identity_parse (id_fn w (ids_used w)) = Inr k"
  shows "build_new_job la lo parent n w =
    (Inr (new_job_record \<lparr>coord_latitude = la, coord_longitude = lo\<rparr> parent
            \<lparr>attempt_value = n, attempt_parent = parent\<rparr> (clock_fn w (ticks w)) k (accepted_message parent)),
     w\<lparr>ticks := Suc (ticks w), ids_used := Suc (ids_used w)\<rparr>)"
  using assms uuid_canonical_not_Nil [of "[]"]
  by (auto simp: build_new_job_def bindM_def make_coordinates_def make_attempt_def parse_parent_def
      clock_now_def new_id_def accepted_message_def split: option.splits)

lemma create_response:
  assumes id: "identity_parse (id_fn w (ids_used w)) = Inr k"
    and range: "flt_between (-90) la 90" "flt_between (-180) lo 180"
  shows "\<exists>j. fst (create_forecast_job ref_store f la lo w) = (Response 202 (with_job_links f j), [k]) \<and>
    stored (snd (create_forecast_job ref_store f la lo w)) = (stored w)(k \<mapsto> j) \<and>
    job_id j = k \<and> status j = Queued \<and> latitude j = la \<and> longitude j = lo \<and>
    attempt j = 1 \<and> parent_job_id j = None \<and> forecast j = None"
  by (rule exI [of _ "new_job_record \<lparr>coord_latitude = la, coord_longitude = lo\<rparr> None
            \<lparr>attempt_value = 1, attempt_parent = None\<rparr> (clock_fn w (ticks w)) k (accepted_message None)"])
    (simp add: create_forecast_job_def range answer_def submit_execute_def bindM_def ref_create_def
      build_new_job_run [OF range _ _ _ id] count_event_run new_job_record_def)

lemma retry_response:
  assumes wf: "store_wf (stored w)" and id: "identity_parse (id_fn w (ids_used w)) = Inr k"
    and j: "find_job (stored w) jid = Some j" and terminal: "status j \<in> TERMINAL_JOB_STATUSES"
  shows "\<exists>n. fst (retry_forecast_job ref_store f jid w) = (Response 202 (with_job_links f n), [k]) \<and>
    stored (snd (retry_forecast_job ref_store f jid w)) = (stored w)(k \<mapsto> n) \<and>
    job_id n = k \<and> status n = Queued \<and> latitude n = latitude j \<and> longitude n = longitude j \<and>
    attempt n = attempt j + 1 \<and> parent_job_id n = Some (job_id j) \<and> forecast n = None"
proof -
  obtain k' where k': "stored w k' = Some j"
    using j by (auto simp: find_job_def split: sum.splits)
  note S = store_wfD(1-3) [OF wf k']
  have st: "flt_between (-90) (latitude j) 90" "flt_between (-180) (longitude j) 180" "1 \<le> attempt j"
    using S(3) by (simp_all add: storable_def forecast_job_valid_def)
  show ?thesis
    using st S(1,2)
    by (intro exI [of _ "new_job_record \<lparr>coord_latitude = latitude j, coord_longitude = longitude j\<rparr>
            (Some (job_id j)) \<lparr>attempt_value = attempt j + 1, attempt_parent = Some (job_id j)\<rparr>
            (clock_fn w (ticks w)) k (accepted_message (Some (job_id j)))"])
      (simp add: retry_forecast_job_def answer_def retry_execute_def bindM_def ref_get_find j terminal
        ref_create_def build_new_job_run [OF st(1,2) _ _ _ id] count_event_run new_job_record_def)
qed

lemma retry_refused:
  assumes "find_job (stored w) jid = None \<or> find_job (stored w) jid = Some j \<and> status j \<in> ACTIVE_JOB_STATUSES"
  shows "retry_forecast_job ref_store f jid w =
     ((if find_job (stored w) jid = None then HttpError 404 not_found_detail
       else HttpError 409 (conflict_message (cannot ''retry'' (status j))), []), w)"
  using assms
  by (auto simp: retry_forecast_job_def answer_def retry_execute_def bindM_def ref_get_find route_error_def
      status_cases cannot_def)

text \<open>Cleanup through the API: what it keeps and what it deletes.\<close>

definition api_hours :: "int \<Rightarrow> cleanup_request option \<Rightarrow> int" where
  "api_hours retention request = int_or (map_option request_hours request) retention"

definition api_statuses :: "cleanup_request option \<Rightarrow> job_status set" where
  "api_statuses request = statuses_or_terminal (map_option request_statuses request)"

lemma cleanup_run:
  assumes "pred_option cleanup_request_valid request"
    and "minus_hours (clock_fn w (ticks w)) (api_hours retention request) = Inr cutoff"
  shows "\<exists>r. fst (cleanup_forecast_jobs ref_store retention request w) = (Response 200 r, []) \<and>
     cleanup_cutoff r = cutoff \<and>
     stored (snd (cleanup_forecast_jobs ref_store retention request w)) =
       (\<lambda>k. case stored w k of None \<Rightarrow> None
            | Some j \<Rightarrow> if cleanup_match cutoff (api_statuses request) j then None else Some j) \<and>
     deleted_count r = int (card {k. \<exists>j. stored w k = Some j \<and> cleanup_match cutoff (api_statuses request) j})"
proof -
  let ?del = "{k \<in> dom (stored w). cleanup_match cutoff (api_statuses request) (the (stored w k))}"
  have eq: "?del = {k. \<exists>j. stored w k = Some j \<and> cleanup_match cutoff (api_statuses request) j}" by auto
  have keep: "(stored w) |` (- {k. \<exists>j. stored w k = Some j \<and> cleanup_match cutoff (api_statuses request) j}) = (\<lambda>k. case stored w k of None \<Rightarrow> None
            | Some j \<Rightarrow> if cleanup_match cutoff (api_statuses request) j then None else Some j)"
    by (rule ext) (auto simp: restrict_map_def split: option.split)
  show ?thesis
    using assms
    by (simp add: cleanup_forecast_jobs_def answer_def cleanup_execute_def Let_def bindM_def clock_now_def
        ref_delete_older_than_def api_hours_def [symmetric] api_statuses_def [symmetric] keep eq)
qed

lemma api_statuses_terminal:
  assumes "pred_option cleanup_request_valid request"
  shows "api_statuses request \<subseteq> TERMINAL_JOB_STATUSES"
proof (cases request)
  case (Some r)
  have "list_all is_terminal_job_status (request_statuses r)"
    using assms Some by (simp add: cleanup_request_valid_def)
  then show ?thesis
    using Some by (auto simp: api_statuses_def statuses_or_terminal_def list_all_iff is_terminal_job_status_def)
qed (simp add: api_statuses_def statuses_or_terminal_def)

lemma cleanup_match_status: "cleanup_match cutoff S j \<Longrightarrow> status j \<in> S"
  by (simp add: cleanup_match_def should_cleanup_job_def split: if_splits)

end
