(* ===== verification/Fixtures.thy ===== *)
theory Fixtures imports
  Memory_Store
  File_Store
  Job_Api
begin

text \<open>
  Concrete states of the service at which the properties are instantiated: one process whose store
  holds a single job, queued, running or cancelled.
\<close>

definition ex_id :: string where
  "ex_id = uuid_str 0"

definition ex_queued :: forecast_job where
  "ex_queued =
     new_job_record \<lparr>coord_latitude = Fin 37, coord_longitude = Fin 127\<rparr> None
       \<lparr>attempt_value = 1, attempt_parent = None\<rparr> 63900000000000000 ex_id ''Forecast job accepted.''"

definition ex_running :: forecast_job where
  "ex_running = (running_job ex_queued 63900000000000001)\<lparr>updated_at := 63900000000000002\<rparr>"

definition ex_cancelled :: forecast_job where
  "ex_cancelled = (cancelled_job ex_queued 63900000000000001)\<lparr>updated_at := 63900000000000002\<rparr>"

definition ex_world :: "'s \<Rightarrow> 's world" where
  "ex_world s =
     \<lparr>clock_fn = (\<lambda>i. 63900000001000000 + int i), ticks = 0,
      id_fn = (\<lambda>i. if i = 0 then uuid_str 1 else []), ids_used = 0,
      registry = empty_registry, stored = s\<rparr>"

definition ex_memory :: "forecast_job \<Rightarrow> memory_store" where
  "ex_memory j = \<lparr>mem_jobs = [(ex_id, j)]\<rparr>"

definition ex_links :: "pyfloat \<Rightarrow> string" where
  "ex_links x = ''0''"

lemma ex_id_canonical [simp]: "uuid_canonical ex_id"
  by (simp add: ex_id_def uuid_canonical_str)

lemma ex_queued_facts: "job_ok ex_queued" "storable ex_queued" "job_id ex_queued = ex_id" "status ex_queued = Queued"
proof -
  show "job_ok ex_queued" unfolding ex_queued_def by (rule new_job_ok [of 1]) (simp add: make_attempt_def)
  show "storable ex_queued"
    by (simp add: storable_def forecast_job_valid_def ex_queued_def new_job_record_def flt_between_iff)
  show "job_id ex_queued = ex_id" "status ex_queued = Queued" by (simp_all add: ex_queued_def new_job_record_def)
qed

lemma ex_running_change: "job_change ex_queued ex_running"
  unfolding ex_running_def by (rule job_change.start) (simp add: ex_queued_facts)

lemma ex_cancelled_change: "job_change ex_queued ex_cancelled"
  unfolding ex_cancelled_def by (rule job_change.cancel) (simp add: ex_queued_facts ACTIVE_JOB_STATUSES_def)

lemma ex_running_facts: "job_ok ex_running" "storable ex_running" "job_id ex_running = ex_id" "status ex_running = Running"
  using job_change_ok [OF ex_running_change] job_change_storable [OF ex_running_change] ex_queued_facts
  by (simp_all add: ex_running_def)

lemma ex_cancelled_facts:
  "job_ok ex_cancelled" "storable ex_cancelled" "job_id ex_cancelled = ex_id" "status ex_cancelled = Cancelled"
  using job_change_ok [OF ex_cancelled_change] job_change_storable [OF ex_cancelled_change] ex_queued_facts
  by (simp_all add: ex_cancelled_def)

lemmas ex_facts = ex_queued_facts ex_running_facts ex_cancelled_facts

lemma ex_memory_map: "mem_map (ex_memory j) = [ex_id \<mapsto> j]"
  by (simp add: mem_map_def ex_memory_def)

lemma ex_single_wf: "storable j \<Longrightarrow> job_id j = ex_id \<Longrightarrow> store_wf [ex_id \<mapsto> j]"
  by (simp add: store_wf_def)

lemma ex_memory_ok: "storable j \<Longrightarrow> job_id j = ex_id \<Longrightarrow> mem_ok (ex_memory j)"
  unfolding mem_ok_def ex_memory_map by (simp add: ex_single_wf) (simp add: ex_memory_def)

lemma ex_ids: "identity_parse [] = Inl (InvalidForecastJobIdentityError [])"
  "identity_parse (uuid_str 1) = Inr (uuid_str 1)"
proof -
  show "identity_parse [] = Inl (InvalidForecastJobIdentityError [])" by code_simp
  show "identity_parse (uuid_str 1) = Inr (uuid_str 1)" by (simp add: uuid_canonical_str)
qed

lemma ex_fresh: "ids_fresh (ex_world s) {ex_id}"
proof -
  have "uuid_str 1 \<noteq> uuid_str 0" using uuid_str_inj [of 1 0] by auto
  then show ?thesis
    using ex_ids by (auto simp: ids_fresh_def ex_world_def ex_id_def split: if_splits)
qed

lemma ex_world_sel [simp]:
  "stored (ex_world s) = s" "ticks (ex_world s) = 0" "ids_used (ex_world s) = 0"
  "clock_fn (ex_world s) i = 63900000001000000 + int i"
  "id_fn (ex_world s) 0 = uuid_str 1"
  by (simp_all add: ex_world_def)

lemma ex_abs: "abs_world mem_map (ex_world (ex_memory j)) = ex_world [ex_id \<mapsto> j]"
  by (simp add: abs_world_def ex_world_def ex_memory_map)

lemma ex_inv:
  assumes "job_ok j" and "storable j" and "job_id j = ex_id" and "set p \<subseteq> {ex_id}" and "distinct p"
    and "p = [] \<or> status j \<noteq> Queued"
  shows "sys_inv (abs_sys mem_map (ex_world (ex_memory j), p))"
proof -
  have sub: "dom [ex_id \<mapsto> j] \<union> set p \<subseteq> {ex_id}" using assms(4) by auto
  have fresh: "ids_fresh (ex_world [ex_id \<mapsto> j]) (dom [ex_id \<mapsto> j] \<union> set p)"
    by (rule ids_fresh_same [OF ex_fresh _ sub]) (simp add: same_ids_def)
  show ?thesis
    unfolding abs_sys_pair ex_abs
    by (rule sys_invI)
      (use assms fresh ex_single_wf in \<open>auto simp: list_all_iff split: if_splits\<close>)
qed

end
