(* ===== verification/Job_Properties.thy ===== *)
theory Job_Properties imports
  Fixtures
begin

text \<open>
  The properties of the job service. Those about runs of the service hold for every store adapter
  that keeps the contract \<open>job_store\<close>; \<open>memory_store_contract\<close> and \<open>file_store_contract\<close> say that
  the two adapters of the code do.
\<close>

section \<open>Runs of the service\<close>



text \<open>C2. At every moment of every run each stored job is a consistent record: a completion time
  exactly in a terminal status, a forecast exactly when succeeded, an error exactly when failed, a
  start time when running and none when queued, an attempt number that fits the parent, no links,
  and an event history that starts with queued, takes only allowed transitions and ends with the
  job's status.\<close>

theorem stored_jobs_consistent:
  assumes "job_store st ok amap" and "ok (stored w)" and "sys_inv (abs_sys amap (w, p))"
    and "\<forall>a. answers a \<longrightarrow> answer_storable a"
    and "sys_reach st flt_str answers (w, p) (w', p')"
    and "amap (stored w') k = Some j"
  shows "job_id j = k \<and> job_ok j"
proof -
  have "sys_reach ref_store flt_str answers (abs_sys amap (w, p)) (abs_sys amap (w', p'))"
    using job_store.sys_reach_sim [OF assms(1,5) _ assms(4)] assms(2) by simp
  from sys_reach_inv [OF this assms(3,4)] assms(6) show ?thesis
    using sys_invD(1,5) [of "abs_world amap w'" p'] store_wfD(1) by auto
qed

theorem stored_jobs_consistent_witness: "job_id ex_running = ex_id \<and> job_ok ex_running"
  by (rule stored_jobs_consistent [OF mem.job_store_axioms, of "ex_world (ex_memory ex_running)" "[ex_id]"
        answer_ok ex_links "ex_world (ex_memory ex_running)" "[ex_id]"])
    (use ex_inv [of ex_running "[ex_id]"] ex_facts ex_memory_ok [of ex_running] answer_ok_storable in
      \<open>simp_all add: ex_memory_map sys_reach.init\<close>)

text \<open>C3. No running job is orphaned: as long as the provider's answers can be recorded, every job
  that is running has a provider call under way, in every state the service reaches from one where
  this holds; a restart leaves no job running.\<close>

theorem running_jobs_attended:
  assumes "job_store st ok amap" and "ok (stored w)" and "sys_inv (abs_sys amap (w, p))"
    and "attended (abs_sys amap (w, p))"
    and "sys_reach st flt_str answer_ok (w, p) (w', p')"
    and "amap (stored w') k = Some j" and "status j = Running"
  shows "k \<in> set p'"
proof -
  have an: "\<forall>a. answer_ok a \<longrightarrow> answer_storable a" by (simp add: answer_ok_storable)
  have "sys_reach ref_store flt_str answer_ok (abs_sys amap (w, p)) (abs_sys amap (w', p'))"
    using job_store.sys_reach_sim [OF assms(1,5) _ an] assms(2) by simp
  from sys_reach_attended [OF this assms(3,4) an] assms(6,7) show ?thesis by (simp add: attended_def)
qed

theorem running_jobs_attended_witness: "ex_id \<in> set [ex_id]"
  by (rule running_jobs_attended [OF mem.job_store_axioms, of "ex_world (ex_memory ex_running)" "[ex_id]"
        ex_links "ex_world (ex_memory ex_running)" "[ex_id]" ex_id ex_running])
    (use ex_inv [of ex_running "[ex_id]"] ex_facts ex_memory_ok [of ex_running] in
      \<open>simp_all add: ex_memory_map sys_reach.init attended_def\<close>)

text \<open>C4. A job has at most one provider call at a time: the ids of the calls under way are
  distinct, and none of them belongs to a queued job that a worker could start again.\<close>

theorem one_runner_per_job:
  assumes "job_store st ok amap" and "ok (stored w)" and "sys_inv (abs_sys amap (w, p))"
    and "\<forall>a. answers a \<longrightarrow> answer_storable a"
    and "sys_reach st flt_str answers (w, p) (w', p')"
  shows "distinct p' \<and> (\<forall>k j. k \<in> set p' \<longrightarrow> amap (stored w') k = Some j \<longrightarrow> status j \<noteq> Queued)"
proof -
  have "sys_reach ref_store flt_str answers (abs_sys amap (w, p)) (abs_sys amap (w', p'))"
    using job_store.sys_reach_sim [OF assms(1,5) _ assms(4)] assms(2) by simp
  from sys_reach_inv [OF this assms(3,4)] show ?thesis
    using sys_invD(3,6) [of "abs_world amap w'" p'] by auto
qed

theorem one_runner_per_job_witness:
  "distinct (case fst (run_start memory_ops ex_id (ex_world (ex_memory ex_queued))) of Inr (Some _) \<Rightarrow> ex_id # [] | _ \<Rightarrow> [])"
proof -
  let ?w = "ex_world (ex_memory ex_queued)"
  have "sys_reach memory_ops ex_links answer_ok (?w, [])
      (snd (run_start memory_ops ex_id ?w), (case fst (run_start memory_ops ex_id ?w) of Inr (Some _) \<Rightarrow> ex_id # [] | _ \<Rightarrow> []))"
    by (rule sys_reach.step [OF sys_reach.init], rule sys_step.start) simp_all
  from one_runner_per_job [OF mem.job_store_axioms _ _ _ this] show ?thesis
    using ex_inv [of ex_queued "[]"] ex_memory_ok [of ex_queued] answer_ok_storable
    by (simp only: ex_facts ex_world_sel) simp
qed



section \<open>The store adapters\<close>

text \<open>C6. The in-memory store refines the abstract store: from every well-formed dict each of its
  seven methods returns the same value or exception as the abstract map of jobs, leaves the same
  clock, ids and metrics, and ends in the dict of the map that the abstract method ends in.\<close>

theorem memory_store_contract: "job_store memory_ops mem_ok mem_map"
  by (rule mem.job_store_axioms)

text \<open>C7. So does the directory of JSON files, when what pydantic writes of a valid job is read back
  as that job.\<close>

theorem file_store_contract:
  assumes "codec_ok dump load"
  shows "job_store (file_ops dump load) (file_ok load) (file_map load)"
  by (rule file_store_is_job_store [OF assms])

theorem file_store_contract_witness:
  "job_store (file_ops (\<lambda>j. j) Some) (file_ok Some) (file_map Some)"
  by (rule file_store_contract) (simp add: codec_ok_def)

section \<open>Recovery\<close>

text \<open>C8. A restart loses no accepted job. Unless the timeout lies outside the range of dates, the
  recovery succeeds; afterwards the ids handed to the worker are exactly those of the active jobs,
  each once, none of them is running, terminal jobs are untouched, no job has vanished, and the
  report counts every active job either as requeued or as timed out.\<close>

theorem recovery_loses_no_job:
  assumes "job_store st ok amap" and "ok (stored w)"
    and "minus_seconds (clock_fn w (ticks w)) (int_or timeout default_timeout) = Inr limit"
  shows "\<exists>enqueued rep w'. recover_interrupted_jobs st default_timeout timeout w = (Inr (enqueued, Inr rep), w') \<and>
    distinct enqueued \<and>
    set enqueued = {k. \<exists>j. amap (stored w') k = Some j \<and> is_active_job_status (status j)} \<and>
    (\<forall>k j. amap (stored w') k = Some j \<longrightarrow> status j \<noteq> Running) \<and>
    (\<forall>k j. amap (stored w) k = Some j \<longrightarrow> is_terminal_job_status (status j) \<longrightarrow> amap (stored w') k = Some j) \<and>
    dom (amap (stored w')) = dom (amap (stored w)) \<and>
    scanned_count rep = requeued_count rep + timed_out_count rep \<and>
    requeued_count rep = int (length enqueued) \<and> skipped_count rep = 0"
proof -
  let ?m = "amap (stored w)" and ?fresh = "fresh_jobs limit (active_jobs (amap (stored w)))"
  obtain w' where run: "recover_interrupted_jobs st default_timeout timeout w =
        (Inr (map job_id ?fresh, Inr (recovery_report_of limit ?m)), w')"
    and rs: "recovered_store limit (clock_fn w (ticks w)) (int_or timeout default_timeout) ?m (amap (stored w'))"
    using job_store.recover_exact [OF assms] by blast
  have wf: "store_wf ?m" using job_store.inv_wf [OF assms(1,2)] .
  note after = recovered_store_active [OF wf rs]
  have "distinct (map job_id ?fresh)"
    using active_jobs_distinct [OF wf] by (simp add: fresh_jobs_def distinct_map_filter)
  moreover have "amap (stored w') k = Some j" if "?m k = Some j" "status j \<in> TERMINAL_JOB_STATUSES" for k j
    using rs [unfolded recovered_store_def, THEN spec, of k] that by simp
  moreover have "length ?fresh \<le> length (active_jobs ?m)" by (simp add: fresh_jobs_def)
  ultimately show ?thesis
    using run after
    by (intro exI [of _ "map job_id ?fresh"] exI [of _ "recovery_report_of limit ?m"] exI [of _ w'] conjI)
      (simp_all add: recovery_report_of_def is_active_job_status_def is_terminal_job_status_def)
qed

theorem recovery_loses_no_job_witness:
  "\<exists>enqueued rep w'. recover_interrupted_jobs memory_ops 1800 None (ex_world (ex_memory ex_running)) =
      (Inr (enqueued, Inr rep), w') \<and> (\<forall>k j. mem_map (stored w') k = Some j \<longrightarrow> status j \<noteq> Running)"
  using recovery_loses_no_job [OF mem.job_store_axioms, of "ex_world (ex_memory ex_running)" None 1800
      "63900000001000000 - 1800 * 1000000"] ex_facts ex_memory_ok [of ex_running]
  by (auto simp: int_or_def minus_seconds_def timedelta_max_seconds_def datetime_max_def)

end
