(* ===== verification/FourCastNet_Schema.thy ===== *)
theory FourCastNet_Schema imports
  Forecast_Schema
begin

text \<open>
  The documents of the hosted FourCastNet model, \<open>schemas/fourcastnet.py\<close>, and the values they
  carry: a JSON value is a \<open>json\<close>, \<open>bytes\<close> are a list of 8-bit characters.
\<close>

type_synonym bytes = "char list"

datatype json =
    JNull
  | JBool bool
  | JInt int
  | JFloat pyfloat
  | JString string
  | JArray "json list"
  | JObject "(string \<times> json) list"

fun json_of_num :: "pynum \<Rightarrow> json" where
  "json_of_num (NInt n) = JInt n"
| "json_of_num (NFlt x) = JFloat x"

datatype fcn_variable = W10m | T2m | Msl | Tcwv | Z500

fun fcn_variable_str :: "fcn_variable \<Rightarrow> string" where
  "fcn_variable_str W10m = ''w10m''"
| "fcn_variable_str T2m = ''t2m''"
| "fcn_variable_str Msl = ''msl''"
| "fcn_variable_str Tcwv = ''tcwv''"
| "fcn_variable_str Z500 = ''z500''"

datatype fcn_accept = AcceptJson | AcceptTar

fun fcn_accept_str :: "fcn_accept \<Rightarrow> string" where
  "fcn_accept_str AcceptJson = ''application/json''"
| "fcn_accept_str AcceptTar = ''application/x-tar''"

datatype response_source =
  SourceInline | SourcePoll | SourceRedirect | SourceResponseReference | SourceCache

fun response_source_str :: "response_source \<Rightarrow> string" where
  "response_source_str SourceInline = ''inline''"
| "response_source_str SourcePoll = ''poll''"
| "response_source_str SourceRedirect = ''redirect''"
| "response_source_str SourceResponseReference = ''response_reference''"
| "response_source_str SourceCache = ''cache''"

datatype cache_status = CacheDisabled | CacheHit | CacheMiss | CacheStored

fun cache_status_str :: "cache_status \<Rightarrow> string" where
  "cache_status_str CacheDisabled = ''disabled''"
| "cache_status_str CacheHit = ''hit''"
| "cache_status_str CacheMiss = ''miss''"
| "cache_status_str CacheStored = ''stored''"

text \<open>A noise amplitude that is not given is the integer 0, a given one a float.\<close>

record hosted_request =
  req_input_id :: int
  req_variables :: "fcn_variable list"
  req_simulation_length :: int
  req_ensemble_size :: int
  req_noise_amplitude :: pynum
  req_accept :: fcn_accept
  req_poll_seconds :: int

definition hosted_request_valid :: "hosted_request \<Rightarrow> bool" where
  "hosted_request_valid r =
     (0 \<le> req_input_id r \<and> req_input_id r \<le> 3 \<and>
      1 \<le> req_simulation_length r \<and> req_simulation_length r \<le> 40 \<and>
      1 \<le> req_ensemble_size r \<and> req_ensemble_size r \<le> 4 \<and>
      flt_le (Fin 0) (num_val (req_noise_amplitude r)) \<and>
      flt_le (num_val (req_noise_amplitude r)) (fl64 (1 / 10)) \<and>
      1 \<le> req_poll_seconds r \<and> req_poll_seconds r \<le> 120)"

datatype tar_format = FormatTar | FormatJson | FormatUnknown

record post_processing_report =
  mobile_summary_ready :: bool
  detected_format :: tar_format
  required_steps :: "string list"
  report_notes :: "string list"

record decoded_array =
  da_filename :: string
  da_lead_time_hours :: int
  da_batch_index :: int
  da_shape :: "nat list"
  da_dtype :: string
  da_finite_count :: nat
  da_min_value :: "pyfloat option"
  da_max_value :: "pyfloat option"
  da_mean_value :: "pyfloat option"

record decoded_tar_summary =
  dt_member_count :: nat
  dt_arrays :: "decoded_array list"
  dt_lead_time_hours :: "int list"
  dt_batch_indices :: "int list"
  dt_warnings :: "string list"

record hosted_result =
  res_endpoint :: string
  res_status_code :: int
  res_content_type :: string
  res_byte_length :: int
  res_sha256 :: string
  res_request_payload :: "(string \<times> json) list"
  res_json_preview :: "json option"
  res_decoded_tar :: "decoded_tar_summary option"
  res_post_processing :: "post_processing_report option"
  res_nvcf_request_id :: "string option"
  res_nvcf_status :: "string option"
  res_large_asset_message :: "string option"
  res_poll_attempts :: int
  res_response_source :: response_source
  res_response_reference_present :: bool
  res_cache_status :: cache_status
  res_cached_artifact_id :: "string option"
  res_raw_content :: "bytes option"

end
