(* ===== verification/FourCastNet_Decoder.thy ===== *)
theory FourCastNet_Decoder imports
  FourCastNet_Schema
begin

text \<open>
  From the raw FourCastNet archive to the mobile forecast:
  \<open>infrastructure/nvidia/fourcastnet_decoder.py\<close>. The readers of \<open>tarfile\<close> and \<open>numpy\<close> are
  parameters, collected in \<open>decoder_lib\<close> with the two other things Python leaves open: how a float
  is printed and the order in which the set \<open>REQUIRED_POINT_VARIABLES\<close> is iterated. An array is
  what the code uses of one, its shape, the name of its type and its elements in C order, each
  already converted by \<open>float()\<close>. A function that may raise returns \<open>Inl\<close> of the exception.
\<close>

section \<open>Archives and arrays\<close>

record nd_array =
  nd_shape :: "nat list"
  nd_dtype :: string
  nd_values :: "pyfloat list"

definition nd_ok :: "nd_array \<Rightarrow> bool" where
  "nd_ok a = (length (nd_values a) = prod_list (nd_shape a))"

text \<open>The offset of an index; an index outside its axis is an \<open>IndexError\<close>.\<close>

fun flat_index :: "nat list \<Rightarrow> nat list \<Rightarrow> nat option" where
  "flat_index [] [] = Some 0"
| "flat_index (n # ns) (i # is) =
     (if i < n then map_option (\<lambda>k. i * prod_list ns + k) (flat_index ns is) else None)"
| "flat_index _ _ = None"

definition nd_get :: "nd_array \<Rightarrow> nat list \<Rightarrow> pyfloat option" where
  "nd_get a ix = map_option ((!) (nd_values a)) (flat_index (nd_shape a) ix)"

text \<open>Reading a member of the archive: \<open>extractfile\<close> may return \<open>None\<close>, and reading may raise a
  \<open>TarError\<close>, or one of the errors that the code skips the member for.\<close>

datatype tar_data = NoFile | ReadTarError string | ReadIOError string | ReadBytes bytes

record tar_member =
  tm_name :: string
  tm_isfile :: bool
  tm_data :: tar_data

datatype tar_failure = TarError string | OtherTarFailure string

record decoder_lib =
  lib_open_tar :: "bytes \<Rightarrow> tar_failure + tar_member list"
  lib_load_npy :: "bytes \<Rightarrow> string + nd_array"
  lib_mean :: "nd_array \<Rightarrow> rat list \<Rightarrow> pyfloat"
  lib_float_str :: "pyfloat \<Rightarrow> string"
  lib_variable_order :: "fcn_variable list"

datatype decoder_error =
    PostProcessingError string
  | OtherException string
  | ArrayIndexError
  | FloatError float_error
  | DateOverflow
  | InvalidDocument
  | VariableMissing fcn_variable

record decoded_member =
  dm_filename :: string
  dm_lead_time_hours :: int
  dm_batch_index :: int
  dm_array :: nd_array

section \<open>Text\<close>

definition join :: "string \<Rightarrow> string list \<Rightarrow> string" where
  "join sep xs = (case xs of [] \<Rightarrow> [] | y # ys \<Rightarrow> y @ concat (map (\<lambda>z. sep @ z) ys))"

text \<open>\<open>str\<close> of a tuple and of a list of integers.\<close>

definition tuple_str :: "nat list \<Rightarrow> string" where
  "tuple_str xs = (if length xs = 1 then ''('' @ nat_str (hd xs) @ '',)''
                   else ''('' @ join '', '' (map nat_str xs) @ '')'')"

definition int_list_str :: "int list \<Rightarrow> string" where
  "int_list_str xs = ''['' @ join '', '' (map int_str xs) @ '']''"

definition num_str :: "(pyfloat \<Rightarrow> string) \<Rightarrow> pynum \<Rightarrow> string" where
  "num_str flt_str n = (case n of NInt i \<Rightarrow> int_str i | NFlt x \<Rightarrow> flt_str x)"

text \<open>\<open>repr\<close> of a string of ASCII characters.\<close>

definition hex_digit :: "nat \<Rightarrow> char" where
  "hex_digit n = char_of (if n < 10 then 48 + n else 87 + n)"

definition repr_char :: "char \<Rightarrow> char \<Rightarrow> string" where
  "repr_char quote c =
     (let n = (of_char c :: nat); backslash = CHR 0x5C in
      if c = quote \<or> c = backslash then [backslash, c]
      else if n = 10 then [backslash, CHR ''n'']
      else if n = 13 then [backslash, CHR ''r'']
      else if n = 9 then [backslash, CHR ''t'']
      else if n < 32 \<or> n = 127 then [backslash, CHR ''x'', hex_digit (n div 16), hex_digit (n mod 16)]
      else [c])"

definition repr_str :: "string \<Rightarrow> string" where
  "repr_str s =
     (let quote = (if CHR 0x27 \<in> set s \<and> CHR 0x22 \<notin> set s then CHR 0x22 else CHR 0x27) in
      [quote] @ concat (map (repr_char quote) s) @ [quote])"

definition is_digit :: "char \<Rightarrow> bool" where
  "is_digit c = (48 \<le> (of_char c :: nat) \<and> (of_char c :: nat) \<le> 57)"

definition digits_val :: "string \<Rightarrow> int" where
  "digits_val s = foldl (\<lambda>n c. 10 * n + (of_char c - 48)) 0 s"

text \<open>\<open>name.rsplit("/", maxsplit=1)[-1]\<close>.\<close>

definition base_name :: "string \<Rightarrow> string" where
  "base_name s = rev (takeWhile (\<lambda>c. c \<noteq> CHR ''/'') (rev s))"

text \<open>The pattern \<open>^\d{3}_\d{3}\.npy$\<close>; its \<open>$\<close> also matches before a final newline.\<close>

definition match_member_name :: "string \<Rightarrow> (int \<times> int) option" where
  "match_member_name s =
     (let lead = take 3 s; batch = take 3 (drop 4 s); suffix = drop 7 s in
      if length lead = 3 \<and> list_all is_digit lead \<and> take 1 (drop 3 s) = ''_'' \<and>
         length batch = 3 \<and> list_all is_digit batch \<and>
         (suffix = ''.npy'' \<or> suffix = ''.npy'' @ [CHR 0x0A])
      then Some (digits_val lead, digits_val batch) else None)"

definition detect_format :: "string \<Rightarrow> tar_format" where
  "detect_format content_type =
     (let normalized = py_lower content_type in
      if contains ''tar'' normalized then FormatTar
      else if contains ''json'' normalized then FormatJson
      else FormatUnknown)"

section \<open>Loading the members\<close>

text \<open>
  The loop over the files of the archive. A \<open>TarError\<close> that reading a member raises ends the loop,
  and what was decoded before it is kept.
\<close>

fun load_loop :: "decoder_lib \<Rightarrow> tar_member list \<Rightarrow> decoded_member list \<Rightarrow> string list \<Rightarrow>
    decoded_member list \<times> string list" where
  "load_loop lib [] decoded warnings = (decoded, warnings)"
| "load_loop lib (m # ms) decoded warnings =
     (let filename = base_name (tm_name m) in
      case match_member_name filename of
        None \<Rightarrow> load_loop lib ms decoded
                  (warnings @ [''Skipping unsupported tar member name: '' @ tm_name m])
      | Some (lead, batch) \<Rightarrow>
          (case tm_data m of
             NoFile \<Rightarrow> load_loop lib ms decoded
                         (warnings @ [''Could not extract tar member: '' @ tm_name m])
           | ReadTarError e \<Rightarrow>
               (decoded, warnings @ [''Could not decode FourCastNet tar archive: '' @ e])
           | ReadIOError e \<Rightarrow> load_loop lib ms decoded
               (warnings @ [''Could not load NumPy array from '' @ tm_name m @ '': '' @ e])
           | ReadBytes b \<Rightarrow>
               (case lib_load_npy lib b of
                  Inl e \<Rightarrow> load_loop lib ms decoded
                    (warnings @ [''Could not load NumPy array from '' @ tm_name m @ '': '' @ e])
                | Inr a \<Rightarrow> load_loop lib ms
                    (decoded @ [\<lparr>dm_filename = filename, dm_lead_time_hours = lead,
                                dm_batch_index = batch, dm_array = a\<rparr>]) warnings)))"

definition member_key :: "decoded_member \<Rightarrow> int \<times> int \<times> string" where
  "member_key m = (dm_lead_time_hours m, dm_batch_index m, dm_filename m)"

definition load_tar_members ::
    "decoder_lib \<Rightarrow> bytes \<Rightarrow> decoder_error + decoded_member list \<times> string list" where
  "load_tar_members lib content =
     (case lib_open_tar lib content of
        Inl (OtherTarFailure e) \<Rightarrow> Inl (OtherException e)
      | Inl (TarError e) \<Rightarrow> Inr ([], [''Could not decode FourCastNet tar archive: '' @ e])
      | Inr members \<Rightarrow>
          (let (decoded, warnings) = load_loop lib (filter tm_isfile members) [] [] in
           Inr (sort_key member_key decoded, warnings)))"

text \<open>One member per lead time, the first of the batch; the dict \<open>selected_by_lead\<close> is read in the
  order of its keys.\<close>

fun select_loop :: "int \<Rightarrow> decoded_member list \<Rightarrow> (int \<times> decoded_member) list \<Rightarrow> (int \<times> decoded_member) list" where
  "select_loop batch [] selected = selected"
| "select_loop batch (m # ms) selected =
     (if dm_batch_index m = batch \<and> dm_lead_time_hours m \<notin> fst ` set selected
      then select_loop batch ms (selected @ [(dm_lead_time_hours m, m)])
      else select_loop batch ms selected)"

definition select_batch_members :: "decoded_member list \<Rightarrow> decoded_member list" where
  "select_batch_members members =
     (if members = [] then []
      else
        (let batch = (if \<exists>m\<in>set members. dm_batch_index m = 0 then 0
                      else dm_batch_index (hd members));
             selected = select_loop batch members []
         in map (\<lambda>lead. the (map_of selected lead)) (sort (map fst selected))))"

section \<open>The archive summary\<close>

definition finite_values :: "nd_array \<Rightarrow> rat list" where
  "finite_values a = List.map_filter (\<lambda>x. case x of Fin q \<Rightarrow> Some q | _ \<Rightarrow> None) (nd_values a)"

definition summarize_array :: "decoder_lib \<Rightarrow> decoded_member \<Rightarrow> decoded_array" where
  "summarize_array lib m =
     (let a = dm_array m; vs = finite_values a in
      \<lparr>da_filename = dm_filename m, da_lead_time_hours = dm_lead_time_hours m,
       da_batch_index = dm_batch_index m, da_shape = nd_shape a, da_dtype = nd_dtype a,
       da_finite_count = length vs,
       da_min_value = (if vs = [] then None else Some (Fin (Min (set vs)))),
       da_max_value = (if vs = [] then None else Some (Fin (Max (set vs)))),
       da_mean_value = (if vs = [] then None else Some (lib_mean lib a vs))\<rparr>)"

definition decode_tar_bytes :: "decoder_lib \<Rightarrow> bytes \<Rightarrow> decoder_error + decoded_tar_summary" where
  "decode_tar_bytes lib content =
     bindE (load_tar_members lib content) (\<lambda>(members, warnings).
       let arrays = sort_key (\<lambda>a. (da_lead_time_hours a, da_batch_index a, da_filename a))
                      (map (summarize_array lib) members)
       in Inr \<lparr>dt_member_count = length arrays, dt_arrays = arrays,
               dt_lead_time_hours = sort (remdups (map da_lead_time_hours arrays)),
               dt_batch_indices = sort (remdups (map da_batch_index arrays)),
               dt_warnings = warnings\<rparr>)"

definition decode_hosted_result ::
    "decoder_lib \<Rightarrow> hosted_result \<Rightarrow> decoder_error + decoded_tar_summary option" where
  "decode_hosted_result lib result =
     (case res_raw_content result of
        None \<Rightarrow> Inr None
      | Some content \<Rightarrow>
          if detect_format (res_content_type result) \<noteq> FormatTar then Inr None
          else bindE (decode_tar_bytes lib content) (\<lambda>s. Inr (Some s)))"

text \<open>\<open>steps.insert(1, s)\<close> and \<open>steps[1] = s\<close> on the five steps.\<close>

definition describe_hosted_result :: "hosted_result \<Rightarrow> post_processing_report" where
  "describe_hosted_result result =
     (let fmt = detect_format (res_content_type result);
          steps =
            [''Persist raw hosted inference output outside GitHub.'',
             ''Map requested variables to mobile forecast fields.'',
             ''Sample or interpolate the global grid for the requested latitude/longitude.'',
             ''Compute timeline, summary metrics, confidence, and signal levels.'',
             ''Return the existing ForecastSummary contract to the mobile app.''];
          steps = take 1 steps @
            [if res_decoded_tar result \<noteq> None
             then ''Use decoded NumPy member metadata to select lead times and batch outputs.''
             else ''Decode returned tar archive and load contained NumPy arrays.''] @ drop 1 steps;
          steps = (if fmt = FormatJson
                   then steps[1 := ''Inspect JSON response shape before array decoding.''] else steps);
          decoded_note =
            (case res_decoded_tar result of
               None \<Rightarrow> []
             | Some t \<Rightarrow> [''Decoded '' @ nat_str (length (dt_arrays t)) @ '' NumPy array(s) '' @
                          ''across lead times '' @ int_list_str (dt_lead_time_hours t) @ ''.''])
      in \<lparr>mobile_summary_ready = False, detected_format = fmt, required_steps = steps,
          report_notes =
            [''Captured '' @ int_str (res_byte_length result) @ '' bytes from hosted FourCastNet.'',
             ''Response digest is '' @ res_sha256 result @ ''.'',
             ''Response source is '' @ response_source_str (res_response_source result) @
               ''; cache status is '' @ cache_status_str (res_cache_status result) @ ''.''] @
            decoded_note @
            [''Raw model output is intentionally not exposed directly to mobile clients.'']\<rparr>)"

section \<open>Sampling a grid point\<close>

definition REQUIRED_POINT_VARIABLES :: "fcn_variable list" where
  "REQUIRED_POINT_VARIABLES = [W10m, T2m, Msl, Tcwv]"

definition FOURCASTNET_POINT_VARIABLES :: "fcn_variable list" where
  "FOURCASTNET_POINT_VARIABLES = [W10m, T2m, Msl, Tcwv, Z500]"

definition FORECAST_STEP_HOURS :: int where
  "FORECAST_STEP_HOURS = 6"

text \<open>Division of two floats.\<close>

fun flt_divide :: "pyfloat \<Rightarrow> pyfloat \<Rightarrow> float_error + pyfloat" where
  "flt_divide x (Fin b) = (if b = 0 then Inl DivisionByZero else Inr (flt_div x b))"
| "flt_divide (Fin a) NaN = Inr NaN"
| "flt_divide (Fin a) _ = Inr (Fin 0)"
| "flt_divide _ _ = Inr NaN"

text \<open>The row or column of a coordinate: \<open>round(position / step)\<close>.\<close>

definition grid_round :: "pyfloat \<Rightarrow> pyfloat \<Rightarrow> decoder_error + int" where
  "grid_round position step =
     (case flt_divide position step of
        Inl e \<Rightarrow> Inl (FloatError e)
      | Inr x \<Rightarrow> (case py_round_int x of Inl e \<Rightarrow> Inl (FloatError e) | Inr i \<Rightarrow> Inr i))"

definition clamp_index :: "nat \<Rightarrow> int \<Rightarrow> nat" where
  "clamp_index n i = nat (min (int n - 1) (max 0 i))"

definition grid_indices :: "nd_array \<Rightarrow> pyfloat \<Rightarrow> pyfloat \<Rightarrow> decoder_error + nat \<times> nat" where
  "grid_indices a lat lon =
     (let shape = nd_shape a;
          latitude_count = shape ! (length shape - 2);
          longitude_count = shape ! (length shape - 1)
      in if latitude_count = 0 \<or> longitude_count = 0
         then Inl (PostProcessingError (''Invalid grid shape '' @ tuple_str shape @ ''.''))
         else
           (let latitude_step = fl64 (180 / (of_nat latitude_count - 1));
                longitude_step = fl64 (360 / of_nat longitude_count)
            in bindE (if 1 < latitude_count
                      then grid_round (flt_sub (Fin 90) lat) latitude_step
                      else Inr 0) (\<lambda>latitude_index.
               bindE (grid_round (flt_mod lon 360) longitude_step) (\<lambda>column.
               Inr (clamp_index latitude_count latitude_index,
                    clamp_index longitude_count (column mod int longitude_count))))))"

definition read_grid_value :: "nd_array \<Rightarrow> nat \<Rightarrow> nat \<Rightarrow> nat \<Rightarrow> decoder_error + pyfloat" where
  "read_grid_value a variable_index latitude_index longitude_index =
     (let shape = nd_shape a;
          variable_axis = (if length shape = 4 then 1 else 2)
      in if shape ! variable_axis \<le> variable_index
         then Inl (PostProcessingError
                (''Variable index '' @ nat_str variable_index @
                 '' is outside FourCastNet array shape '' @ tuple_str shape @ ''.''))
         else
           (let index = (if length shape = 4
                         then [0, variable_index, latitude_index, longitude_index]
                         else [0, 0, variable_index, latitude_index, longitude_index])
            in case nd_get a index of
                 None \<Rightarrow> Inl ArrayIndexError
               | Some v \<Rightarrow>
                   if \<not> flt_finite v
                   then Inl (PostProcessingError
                          (''Sampled non-finite FourCastNet value at index '' @ tuple_str index @ ''.''))
                   else Inr v))"

text \<open>\<open>variables.index(v)\<close>.\<close>

fun index_of :: "'a \<Rightarrow> 'a list \<Rightarrow> nat option" where
  "index_of x [] = None"
| "index_of x (y # ys) = (if x = y then Some 0 else map_option Suc (index_of x ys))"

definition sample_member_values :: "decoder_lib \<Rightarrow> nd_array \<Rightarrow> fcn_variable list \<Rightarrow>
    pyfloat \<Rightarrow> pyfloat \<Rightarrow> decoder_error + (fcn_variable \<times> pyfloat) list" where
  "sample_member_values lib a variables lat lon =
     (if length (nd_shape a) \<notin> {4, 5}
      then Inl (PostProcessingError
             (''Expected 4D or 5D FourCastNet array, got shape '' @ tuple_str (nd_shape a) @ ''.''))
      else bindE (grid_indices a lat lon) (\<lambda>(latitude_index, longitude_index).
        mapE (\<lambda>v. case index_of v variables of
                    None \<Rightarrow> Inl (VariableMissing v)
                  | Some i \<Rightarrow> bindE (read_grid_value a i latitude_index longitude_index)
                                (\<lambda>x. Inr (v, x)))
             (lib_variable_order lib)))"

section \<open>Derived quantities\<close>

text \<open>The literals of the source are doubles; \<open>decimal\<close> is the double nearest to \<open>n / 10 ^ k\<close>.\<close>

definition decimal :: "int \<Rightarrow> nat \<Rightarrow> pyfloat" where
  "decimal n k = fl64 (of_int n / 10 ^ k)"

definition to_celsius :: "pyfloat \<Rightarrow> pyfloat" where
  "to_celsius v = (if flt_lt (Fin 170) v then flt_sub v (decimal 27315 2) else v)"

definition to_hpa :: "pyfloat \<Rightarrow> pyfloat" where
  "to_hpa v = (if flt_lt (Fin 2000) v then flt_div v 100 else v)"

definition tcwv_to_humidity_percent :: "pyfloat \<Rightarrow> pynum" where
  "tcwv_to_humidity_percent v =
     num_min (NInt 98) (num_max (NInt 15) (NFlt (flt_mul v (decimal 15 1))))"

text \<open>\<open>n - k\<close> of a number and an integer.\<close>

fun num_minus_int :: "pynum \<Rightarrow> int \<Rightarrow> pynum" where
  "num_minus_int (NInt n) k = NInt (n - k)"
| "num_minus_int (NFlt x) k = NFlt (flt_sub x (fl64 (of_int k)))"

definition estimate_precipitation_probability :: "pynum \<Rightarrow> pynum \<Rightarrow> pynum \<Rightarrow> pynum" where
  "estimate_precipitation_probability humidity pressure wind =
     (let pressure_signal =
            flt_mul (num_float (num_max (NInt 0) (NFlt (flt_sub (decimal 101325 2) (num_float pressure)))))
              (decimal 14 1);
          humidity_signal =
            flt_mul (num_float (num_max (NInt 0) (num_minus_int humidity 45))) (decimal 85 2);
          wind_signal = num_min (NInt 12) (NFlt (flt_mul (num_float wind) (decimal 8 1)))
      in num_min (NInt 95) (num_max (NInt 2)
           (NFlt (flt_add (flt_add humidity_signal pressure_signal) (num_float wind_signal)))))"

definition step_confidence :: "int \<Rightarrow> nat \<Rightarrow> pynum" where
  "step_confidence lead warning_count =
     py_round 2 (num_max (NFlt (decimal 55 2)) (num_min (NFlt (decimal 95 2))
       (NFlt (flt_sub (flt_sub (decimal 92 2) (flt_mul (fl64 (of_int lead)) (decimal 3 3)))
                (flt_mul (fl64 (of_nat warning_count)) (decimal 3 2))))))"

definition choose_condition :: "pynum \<Rightarrow> pynum \<Rightarrow> pynum \<Rightarrow> weather_condition" where
  "choose_condition wind humidity precipitation =
     (if flt_le (Fin 45) (num_val precipitation) then RainWatch
      else if flt_le (Fin 8) (num_val wind) then Breezy
      else if flt_le (Fin 74) (num_val humidity) then Humid
      else Clear)"

fun build_headline :: "timeline_step \<Rightarrow> string" where
  "build_headline s =
     (case condition s of
        RainWatch \<Rightarrow> ''Rain risk proxy is elevated in the FourCastNet sample.''
      | Breezy \<Rightarrow> ''FourCastNet indicates breezy near-surface winds.''
      | Humid \<Rightarrow> ''FourCastNet moisture proxy is elevated.''
      | Clear \<Rightarrow> ''FourCastNet point sample is stable for this location.'')"

fun condition_text :: "weather_condition \<Rightarrow> string" where
  "condition_text Clear = ''Stable conditions''"
| "condition_text Breezy = ''Breezy air flow''"
| "condition_text Humid = ''Elevated moisture''"
| "condition_text RainWatch = ''Rain watch proxy''"

definition build_step_summary ::
    "(pyfloat \<Rightarrow> string) \<Rightarrow> weather_condition \<Rightarrow> pynum \<Rightarrow> pynum \<Rightarrow> pynum \<Rightarrow> string" where
  "build_step_summary flt_str c temperature wind precipitation =
     condition_text c @ '': '' @ num_str flt_str temperature @ '' C, wind '' @
     num_str flt_str wind @ '' m/s, '' @ ''rain proxy '' @ num_str flt_str precipitation @ ''%.''"

text \<open>\<open>t + timedelta(hours=n)\<close>.\<close>

definition plus_hours :: "datetime \<Rightarrow> int \<Rightarrow> decoder_error + datetime" where
  "plus_hours t n =
     (let u = t + n * 3600 * 1000000 in
      if u < 0 \<or> datetime_max < u then Inl DateOverflow else Inr u)"

definition value_of :: "(fcn_variable \<times> pyfloat) list \<Rightarrow> fcn_variable \<Rightarrow> decoder_error + pyfloat" where
  "value_of d v = (case map_of d v of None \<Rightarrow> Inl (VariableMissing v) | Some x \<Rightarrow> Inr x)"

text \<open>The step for four sampled values.\<close>

definition timeline_step_of :: "decoder_lib \<Rightarrow> int \<Rightarrow> nat \<Rightarrow> datetime \<Rightarrow>
    pyfloat \<Rightarrow> pyfloat \<Rightarrow> pyfloat \<Rightarrow> pyfloat \<Rightarrow> timeline_step" where
  "timeline_step_of lib lead warning_count valid t2m w10m tcwv msl =
     (let temperature = py_round 1 (NFlt (to_celsius t2m));
          wind = py_round 1 (num_max (NInt 0) (NFlt w10m));
          humidity = py_round 1 (tcwv_to_humidity_percent tcwv);
          pressure = py_round 1 (NFlt (to_hpa msl));
          precipitation = py_round 1 (estimate_precipitation_probability humidity pressure wind);
          c = choose_condition wind humidity precipitation
      in \<lparr>lead_time_hours = lead, valid_at = valid, temperature_c = num_float temperature,
          wind_speed_ms = num_float wind, humidity_percent = num_float humidity,
          precipitation_probability_percent = num_float precipitation,
          pressure_hpa = num_float pressure, confidence = num_float (step_confidence lead warning_count),
          condition = c,
          step_summary = build_step_summary (lib_float_str lib) c temperature wind precipitation\<rparr>)"

definition build_timeline_step :: "decoder_lib \<Rightarrow> fcn_variable list \<Rightarrow> pyfloat \<Rightarrow> pyfloat \<Rightarrow> datetime \<Rightarrow>
    nat \<Rightarrow> decoded_member \<Rightarrow> decoder_error + timeline_step" where
  "build_timeline_step lib variables lat lon generated warning_count member =
     bindE (sample_member_values lib (dm_array member) variables lat lon) (\<lambda>values.
     bindE (value_of values T2m) (\<lambda>t2m.
     bindE (value_of values W10m) (\<lambda>w10m.
     bindE (value_of values Tcwv) (\<lambda>tcwv.
     bindE (value_of values Msl) (\<lambda>msl.
     bindE (plus_hours generated (dm_lead_time_hours member)) (\<lambda>valid.
       let s = timeline_step_of lib (dm_lead_time_hours member) warning_count valid t2m w10m tcwv msl
       in if timeline_step_valid s then Inr s else Inl InvalidDocument))))))"

section \<open>The forecast\<close>

text \<open>\<open>max\<close> and \<open>min\<close> of a non-empty list of floats keep the first of equal elements.\<close>

definition py_max :: "pyfloat list \<Rightarrow> pyfloat" where
  "py_max xs = foldl (\<lambda>m x. if flt_lt m x then x else m) (hd xs) (tl xs)"

definition py_min :: "pyfloat list \<Rightarrow> pyfloat" where
  "py_min xs = foldl (\<lambda>m x. if flt_lt x m then x else m) (hd xs) (tl xs)"

definition build_signals :: "(pyfloat \<Rightarrow> string) \<Rightarrow> timeline_step list \<Rightarrow> decoder_error + forecast_signal list" where
  "build_signals flt_str steps =
     (let max_rain = py_max (map precipitation_probability_percent steps);
          max_wind = py_max (map wind_speed_ms steps);
          min_confidence = py_min (map confidence steps)
      in case py_round_int (flt_mul min_confidence (Fin 100)) of
           Inl e \<Rightarrow> Inl (FloatError e)
         | Inr percent \<Rightarrow> Inr
             [\<lparr>signal_name = ''Precipitation'',
               signal_level_of = (if flt_le (Fin 55) max_rain then LevelElevated
                                  else if flt_le (Fin 35) max_rain then LevelModerate else LevelLow),
               signal_message = ''Peak FourCastNet rain proxy reaches '' @ flt_str max_rain @ ''%.''\<rparr>,
              \<lparr>signal_name = ''Wind'',
               signal_level_of = (if flt_le (Fin 9) max_wind then LevelModerate else LevelLow),
               signal_message = ''Peak sampled wind speed reaches '' @ flt_str max_wind @ '' m/s.''\<rparr>,
              \<lparr>signal_name = ''Model confidence'',
               signal_level_of = (if flt_lt min_confidence (decimal 78 2) then LevelModerate else LevelLow),
               signal_message = ''Lowest sampling confidence across the window is '' @
                 int_str percent @ ''%.''\<rparr>])"

definition fcn_model_info :: forecast_model_info where
  "fcn_model_info =
     \<lparr>model_name = ''FourCastNet hosted'', model_version = ''hosted-api'',
      model_resolution = ''0.25 degree global latitude-longitude grid'', model_run_mode = RunNim\<rparr>"

definition summary_of_timeline :: "decoder_lib \<Rightarrow> datetime \<Rightarrow> pyfloat \<Rightarrow> pyfloat \<Rightarrow>
    timeline_step list \<Rightarrow> forecast_signal list \<Rightarrow> forecast_summary" where
  "summary_of_timeline lib generated lat lon steps sigs =
     \<lparr>summary_provider = FourCastNetProvider, generated_at = generated,
      summary_latitude = lat, summary_longitude = lon,
      headline = build_headline (hd steps),
      summary_metrics =
        [\<lparr>metric_name = ''temperature'', metric_value = temperature_c (hd steps), metric_unit = ''celsius''\<rparr>,
         \<lparr>metric_name = ''wind_speed'', metric_value = wind_speed_ms (hd steps), metric_unit = ''m/s''\<rparr>,
         \<lparr>metric_name = ''humidity'', metric_value = humidity_percent (hd steps), metric_unit = ''percent''\<rparr>],
      summary_model = fcn_model_info,
      forecast_window_of =
        \<lparr>start_at = valid_at (hd steps), end_at = valid_at (last steps),
         step_hours = FORECAST_STEP_HOURS, lead_hours = map lead_time_hours steps\<rparr>,
      timeline = steps, signals = sigs\<rparr>"

definition missing_variables :: "fcn_variable list \<Rightarrow> fcn_variable list" where
  "missing_variables variables = filter (\<lambda>v. v \<notin> set variables) REQUIRED_POINT_VARIABLES"

definition build_summary_from_tar_bytes :: "decoder_lib \<Rightarrow> datetime \<Rightarrow> bytes \<Rightarrow> hosted_request \<Rightarrow>
    pyfloat \<Rightarrow> pyfloat \<Rightarrow> datetime option \<Rightarrow> decoder_error + forecast_summary" where
  "build_summary_from_tar_bytes lib now content request lat lon generated_opt =
     (let variables = req_variables request in
      if missing_variables variables \<noteq> []
      then Inl (PostProcessingError
             (''Point forecast sampling requires variables: '' @
              join '', '' (sort (map fcn_variable_str (missing_variables variables))) @ ''.''))
      else bindE (load_tar_members lib content) (\<lambda>(members, warnings).
        let selected = select_batch_members members in
        if selected = []
        then Inl (PostProcessingError ''No decodable FourCastNet NumPy arrays found.'')
        else
          (let generated = (case generated_opt of None \<Rightarrow> now | Some t \<Rightarrow> t) in
           bindE (mapE (build_timeline_step lib variables lat lon generated
                          (length warnings)) selected) (\<lambda>steps.
           bindE (build_signals (lib_float_str lib) steps) (\<lambda>sigs.
             let s = summary_of_timeline lib generated lat lon steps sigs
             in if forecast_summary_valid s then Inr s else Inl InvalidDocument)))))"

definition build_summary_from_hosted_result :: "decoder_lib \<Rightarrow> datetime \<Rightarrow> hosted_result \<Rightarrow>
    hosted_request \<Rightarrow> pyfloat \<Rightarrow> pyfloat \<Rightarrow> datetime option \<Rightarrow> decoder_error + forecast_summary" where
  "build_summary_from_hosted_result lib now result request lat lon generated_opt =
     (if detect_format (res_content_type result) \<noteq> FormatTar
      then if opt_str_or (res_large_asset_message result) [] \<noteq> []
           then Inl (PostProcessingError
                  (''Hosted FourCastNet returned a large-asset marker without a tar body. '' @
                   ''A downloadable result URL or a local sample tar is required '' @
                   ''for point sampling.''))
           else Inl (PostProcessingError
                  (''Point forecast sampling requires tar output, got '' @
                   repr_str (res_content_type result) @ ''.''))
      else case res_raw_content result of
             None \<Rightarrow> Inl (PostProcessingError ''Point forecast sampling requires raw tar bytes.'')
           | Some content \<Rightarrow>
               build_summary_from_tar_bytes lib now content request lat lon generated_opt)"

end
