(* ===== verification/Nim_Client.thy ===== *)
theory Nim_Client imports
  FourCastNet_Schema
begin

text \<open>
  The HTTP client of the FourCastNet NIM, \<open>infrastructure/nvidia/nim_client.py\<close>. What answers a
  request is the parameter \<open>transport\<close>, a state machine of its own; the client's state also logs
  the requests that were sent and counts the sleeps between polls. \<open>sha256\<close> and the way Python
  prints a JSON value are parameters.
\<close>

section \<open>HTTP\<close>

record client_request =
  hq_method :: string
  hq_url :: string
  hq_headers :: "(string \<times> string) list"
  hq_json :: "(string \<times> json) list option"
  hq_follow_redirects :: bool

text \<open>Of a response the client reads the status, the headers (with lower-case names), the body,
  the body as text, and the body as JSON, which is \<open>None\<close> when \<open>response.json()\<close> raises.\<close>

record client_response =
  hr_status :: int
  hr_headers :: "(string \<times> string) list"
  hr_content :: bytes
  hr_text :: string
  hr_json :: "json option"

text \<open>An \<open>httpx.HTTPError\<close> with the name of its class and its message, or another exception.\<close>

datatype client_failure = HttpFailure string string | OtherHttpFailure string

record 'n net_state =
  net :: 'n
  sent :: "client_request list"
  sleeps :: nat

type_synonym 'n transport = "client_request \<Rightarrow> 'n \<Rightarrow> (client_failure + client_response) \<times> 'n"

definition transport_send :: "'n transport \<Rightarrow> client_request \<Rightarrow> (('n, 'z) net_state_scheme, client_failure, client_response) handler" where
  "transport_send transport q =
     (\<lambda>s. let (r, n) = transport q (net s) in (r, s\<lparr>net := n, sent := sent s @ [q]\<rparr>))"

definition response_header :: "client_response \<Rightarrow> string \<Rightarrow> string option" where
  "response_header r name = map_of (hr_headers r) name"

definition is_success :: "client_response \<Rightarrow> bool" where
  "is_success r = (200 \<le> hr_status r \<and> hr_status r \<le> 299)"

text \<open>\<open>a or b\<close> of optional strings, and \<open>value or None\<close>.\<close>

definition opt_or :: "string option \<Rightarrow> string option \<Rightarrow> string option" where
  "opt_or a b = (case a of None \<Rightarrow> b | Some s \<Rightarrow> if s = [] then b else Some s)"

section \<open>The client\<close>

datatype endpoint_mode = SelfHosted | Hosted

fun endpoint_mode_str :: "endpoint_mode \<Rightarrow> string" where
  "endpoint_mode_str SelfHosted = ''self_hosted''"
| "endpoint_mode_str Hosted = ''hosted''"

record nim_status =
  ns_mode :: endpoint_mode
  ns_endpoint :: string
  ns_ready :: bool
  ns_configured :: bool
  ns_status_code :: "int option"
  ns_detail :: string

record nim_client =
  base_url :: string
  client_mode :: endpoint_mode
  api_key :: "string option"
  status_url :: string
  max_poll_attempts :: int
  poll_interval_seconds :: pyfloat

record nim_lib =
  sha256_hex :: "bytes \<Rightarrow> string"
  json_repr :: "json \<Rightarrow> string"

text \<open>The exceptions that leave the client: its own, with the diagnostics it carries, the
  \<open>HTTPError\<close> of the transport and everything else.\<close>

datatype nim_error =
    InferenceError string diag_dict
  | HttpErrorRaised string string
  | OtherNimError string

definition inference_error :: "string \<Rightarrow> diag_dict \<Rightarrow> nim_error" where
  "inference_error message d = InferenceError message (if d = [] then [(''message'', DStr message)] else d)"

fun nim_error_of :: "client_failure \<Rightarrow> nim_error" where
  "nim_error_of (HttpFailure n m) = HttpErrorRaised n m"
| "nim_error_of (OtherHttpFailure m) = OtherNimError m"

definition client_send :: "'n transport \<Rightarrow> client_request \<Rightarrow> (('n, 'z) net_state_scheme, nim_error, client_response) handler" where
  "client_send transport q =
     (\<lambda>s. case transport_send transport q s of (Inl f, s') \<Rightarrow> (Inl (nim_error_of f), s') | (Inr r, s') \<Rightarrow> (Inr r, s'))"

definition rstrip_slash :: "string \<Rightarrow> string" where
  "rstrip_slash s = rev (dropWhile (\<lambda>c. c = CHR ''/'') (rev s))"

definition hosted_status :: "nim_client \<Rightarrow> nim_status" where
  "hosted_status c =
     (let is_configured = opt_str_or (api_key c) [] \<noteq> [] in
      \<lparr>ns_mode = client_mode c, ns_endpoint = base_url c, ns_ready = is_configured,
       ns_configured = is_configured, ns_status_code = None,
       ns_detail = (if is_configured then ''Hosted FourCastNet API key is configured.''
                    else ''Hosted FourCastNet API key is missing.'')\<rparr>)"

definition get_readiness_status ::
    "nim_client \<Rightarrow> 'n transport \<Rightarrow> (('n, 'z) net_state_scheme, nim_error, nim_status) handler" where
  "get_readiness_status c transport =
     (if client_mode c = Hosted then returnM (hosted_status c)
      else
        (let url = rstrip_slash (base_url c) @ ''/v1/health/ready'';
             q = \<lparr>hq_method = ''GET'', hq_url = url, hq_headers = [(''accept'', ''application/json'')],
                  hq_json = None, hq_follow_redirects = False\<rparr>
         in catchM
              (bindM (client_send transport q) (\<lambda>r. returnM
                 \<lparr>ns_mode = client_mode c, ns_endpoint = url, ns_ready = (hr_status r = 200),
                  ns_configured = True, ns_status_code = Some (hr_status r),
                  ns_detail =
                    (if hr_status r = 200 then ''Self-hosted FourCastNet NIM is ready.''
                     else ''Self-hosted FourCastNet NIM returned '' @ int_str (hr_status r) @ ''.'')\<rparr>))
              (\<lambda>e. case e of
                     HttpErrorRaised n m \<Rightarrow> returnM
                       \<lparr>ns_mode = client_mode c, ns_endpoint = url, ns_ready = False,
                        ns_configured = True, ns_status_code = None,
                        ns_detail = ''Self-hosted FourCastNet NIM readiness check failed: '' @ m\<rparr>
                   | _ \<Rightarrow> raiseM e)))"

definition build_hosted_inference_payload :: "hosted_request \<Rightarrow> (string \<times> json) list" where
  "build_hosted_inference_payload r =
     [(''input_id'', JInt (req_input_id r)),
      (''variables'', JString (concat (case map fcn_variable_str (req_variables r) of
          [] \<Rightarrow> [] | v # vs \<Rightarrow> v # map (\<lambda>w. '','' @ w) vs))),
      (''simulation_length'', JInt (req_simulation_length r)),
      (''ensemble_size'', JInt (req_ensemble_size r)),
      (''noise_amplitude'', json_of_num (req_noise_amplitude r))]"

section \<open>Reading a response\<close>

text \<open>A lookup in a JSON value that is a dict; of another value nothing is read.\<close>

definition json_get :: "json option \<Rightarrow> string \<Rightarrow> json option" where
  "json_get j k = (case j of Some (JObject d) \<Rightarrow> map_of d k | _ \<Rightarrow> None)"

fun first_string :: "json option \<Rightarrow> (string \<Rightarrow> bool) \<Rightarrow> string list \<Rightarrow> string option" where
  "first_string j ok [] = None"
| "first_string j ok (k # ks) =
     (case json_get j k of
        Some (JString s) \<Rightarrow> if ok s then Some s else first_string j ok ks
      | _ \<Rightarrow> first_string j ok ks)"

definition request_id_of :: "client_response \<Rightarrow> string option" where
  "request_id_of r =
     opt_or (response_header r ''nvcf-reqid'')
       (first_string (hr_json r) (\<lambda>s. s \<noteq> []) [''reqId'', ''requestId'', ''request_id'', ''id''])"

definition has_prefix :: "string \<Rightarrow> string \<Rightarrow> bool" where
  "has_prefix p s = (take (length p) s = p)"

definition response_reference :: "json option \<Rightarrow> string option" where
  "response_reference preview =
     first_string preview (\<lambda>s. has_prefix ''http://'' s \<or> has_prefix ''https://'' s)
       [''responseReference'', ''response_reference'', ''downloadUrl'', ''download_url'',
        ''assetUrl'', ''asset_url'']"

definition large_asset_message :: "json option \<Rightarrow> string option" where
  "large_asset_message preview =
     (if json_get preview ''message'' = Some (JString ''Large asset written'')
      then Some ''Large asset written'' else None)"

text \<open>\<open>str(v)\<close> of a JSON value.\<close>

definition json_str :: "nim_lib \<Rightarrow> json \<Rightarrow> string" where
  "json_str lib j = (case j of JString s \<Rightarrow> s | _ \<Rightarrow> json_repr lib j)"

definition response_error_detail :: "nim_lib \<Rightarrow> client_response \<Rightarrow> string" where
  "response_error_detail lib r =
     (case hr_json r of
        None \<Rightarrow> if hr_text r \<noteq> [] then take 500 (hr_text r) else ''No response body.''
      | Some payload \<Rightarrow>
          (case json_get (Some payload) ''detail'' of
             Some d \<Rightarrow> json_str lib d
           | None \<Rightarrow> take 500 (json_str lib payload)))"

fun opt_value :: "string option \<Rightarrow> dict_value" where
  "opt_value None = DNone"
| "opt_value (Some s) = DStr s"

definition error_message :: "nim_lib \<Rightarrow> string \<Rightarrow> client_response \<Rightarrow> string" where
  "error_message lib prefix r =
     (let message = prefix @ '' '' @ int_str (hr_status r) @ '': '' @ response_error_detail lib r;
          content_type = opt_str_or (response_header r ''content-type'') []
      in if content_type \<noteq> [] then message @ '' content_type='' @ content_type else message)"

definition build_error_diagnostics :: "nim_lib \<Rightarrow> string \<Rightarrow> client_response \<Rightarrow> string option \<Rightarrow>
    string option \<Rightarrow> int \<Rightarrow> response_source \<Rightarrow> bool \<Rightarrow> diag_dict" where
  "build_error_diagnostics lib prefix r request_id nvcf_status attempts source reference_present =
     [(''provider'', DStr ''fourcastnet''),
      (''status_code'', DInt (hr_status r)),
      (''content_type'', opt_value (opt_or (response_header r ''content-type'') None)),
      (''response_source'', DStr (response_source_str source)),
      (''nvcf_request_id'', opt_value (opt_or (request_id_of r) request_id)),
      (''nvcf_status'', opt_value (opt_or (response_header r ''nvcf-status'') nvcf_status)),
      (''poll_attempts'', DInt attempts),
      (''response_reference_present'', DBool reference_present),
      (''byte_length'', DInt (int (length (hr_content r)))),
      (''sha256'', if hr_content r \<noteq> [] then DStr (sha256_hex lib (hr_content r)) else DNone),
      (''message'', DStr (error_message lib prefix r))]"

definition response_content_type :: "client_response \<Rightarrow> string" where
  "response_content_type r = opt_str_or (response_header r ''content-type'') []"

text \<open>\<open>_json_preview\<close>; the JSON value \<open>null\<close> is Python's \<open>None\<close>.\<close>

definition json_preview :: "client_response \<Rightarrow> json option" where
  "json_preview r = (case hr_json r of Some JNull \<Rightarrow> None | j \<Rightarrow> j)"

definition build_hosted_result :: "nim_lib \<Rightarrow> nim_client \<Rightarrow> client_response \<Rightarrow> (string \<times> json) list \<Rightarrow>
    string option \<Rightarrow> string option \<Rightarrow> int \<Rightarrow> response_source \<Rightarrow> bool \<Rightarrow> json option \<Rightarrow> hosted_result" where
  "build_hosted_result lib c r payload request_id nvcf_status attempts source reference_present preview =
     (let content = hr_content r;
          preview = (if preview = None \<and> contains ''application/json'' (response_content_type r)
                     then json_preview r else preview)
      in \<lparr>res_endpoint = base_url c, res_status_code = hr_status r,
          res_content_type = response_content_type r,
          res_byte_length = int (length content), res_sha256 = sha256_hex lib content,
          res_request_payload = payload, res_json_preview = preview, res_decoded_tar = None,
          res_post_processing = None,
          res_nvcf_request_id = opt_or (response_header r ''nvcf-reqid'') request_id,
          res_nvcf_status = opt_or (response_header r ''nvcf-status'') nvcf_status,
          res_large_asset_message = large_asset_message preview,
          res_poll_attempts = attempts, res_response_source = source,
          res_response_reference_present = reference_present,
          res_cache_status = CacheDisabled, res_cached_artifact_id = None,
          res_raw_content = Some content\<rparr>)"

section \<open>Running an inference\<close>

definition get_request :: "string \<Rightarrow> (string \<times> string) list \<Rightarrow> bool \<Rightarrow> client_request" where
  "get_request url headers follow =
     \<lparr>hq_method = ''GET'', hq_url = url, hq_headers = headers, hq_json = None,
      hq_follow_redirects = follow\<rparr>"

definition download_url ::
    "nim_lib \<Rightarrow> 'n transport \<Rightarrow> string \<Rightarrow> (('n, 'z) net_state_scheme, nim_error, client_response) handler" where
  "download_url lib transport url =
     bindM (client_send transport (get_request url [] True)) (\<lambda>r.
     if \<not> is_success r
     then raiseM (inference_error
            (error_message lib ''Hosted FourCastNet large result download returned'' r)
            (build_error_diagnostics lib ''Hosted FourCastNet large result download returned'' r
               (request_id_of r) (response_header r ''nvcf-status'') 0 SourceResponseReference True))
     else returnM r)"

definition download_large_response ::
    "nim_lib \<Rightarrow> 'n transport \<Rightarrow> client_response \<Rightarrow> (('n, 'z) net_state_scheme, nim_error, client_response) handler" where
  "download_large_response lib transport r =
     (case opt_or (response_header r ''location'') None of
        None \<Rightarrow>
          (let message = ''Hosted FourCastNet returned 302 without a Location header.''
           in raiseM (inference_error message
                [(''provider'', DStr ''fourcastnet''), (''response_source'', DStr ''redirect''),
                 (''nvcf_request_id'', opt_value (request_id_of r)),
                 (''nvcf_status'', opt_value (response_header r ''nvcf-status'')),
                 (''poll_attempts'', DInt 0), (''response_reference_present'', DBool False),
                 (''message'', DStr message)]))
      | Some location \<Rightarrow> download_url lib transport location)"

text \<open>The variables of the polling loop.\<close>

record poll_state =
  ps_response :: client_response
  ps_request_id :: "string option"
  ps_nvcf_status :: "string option"
  ps_poll_attempts :: int
  ps_source :: response_source

text \<open>The two ways the loop gives up on a response 202.\<close>

definition poll_refused :: "nim_client \<Rightarrow> poll_state \<Rightarrow> nim_error option" where
  "poll_refused c p =
     (case ps_request_id p of
        None \<Rightarrow>
          (let message = ''Hosted FourCastNet returned 202 without an NVCF request id.''
           in Some (inference_error message
                [(''provider'', DStr ''fourcastnet''),
                 (''response_source'', DStr (response_source_str (ps_source p))),
                 (''nvcf_status'', opt_value (ps_nvcf_status p)),
                 (''poll_attempts'', DInt (ps_poll_attempts p)),
                 (''response_reference_present'', DBool False), (''message'', DStr message)]))
      | Some rid \<Rightarrow>
          if max_poll_attempts c \<le> ps_poll_attempts p
          then (let message = ''Hosted FourCastNet polling exceeded '' @
                       int_str (max_poll_attempts c) @ '' attempts.''
                in Some (inference_error message
                     [(''provider'', DStr ''fourcastnet''),
                      (''response_source'', DStr (response_source_str (ps_source p))),
                      (''nvcf_request_id'', DStr rid),
                      (''nvcf_status'', opt_value (ps_nvcf_status p)),
                      (''poll_attempts'', DInt (ps_poll_attempts p)),
                      (''response_reference_present'', DBool False), (''message'', DStr message)]))
          else None)"

definition sleep_interval :: "nim_client \<Rightarrow> (('n, 'z) net_state_scheme, nim_error, unit) handler" where
  "sleep_interval c =
     (if flt_lt (Fin 0) (poll_interval_seconds c)
      then modifyM (\<lambda>s. s\<lparr>sleeps := sleeps s + 1\<rparr>) else returnM ())"

text \<open>The headers of the first request that are sent again with every poll.\<close>

record poll_headers =
  ph_authorization :: string
  ph_poll_seconds :: string
  ph_accept :: string

definition status_request :: "nim_client \<Rightarrow> poll_headers \<Rightarrow> string \<Rightarrow> client_request" where
  "status_request c h rid =
     get_request (rstrip_slash (status_url c) @ ''/'' @ rid)
       [(''Authorization'', ph_authorization h), (''NVCF-POLL-SECONDS'', ph_poll_seconds h),
        (''accept'', ph_accept h)] False"

definition learn_ids :: "poll_state \<Rightarrow> poll_state" where
  "learn_ids p =
     p\<lparr>ps_request_id := opt_or (request_id_of (ps_response p)) (ps_request_id p),
       ps_nvcf_status := opt_or (response_header (ps_response p) ''nvcf-status'') (ps_nvcf_status p)\<rparr>"

definition polled :: "poll_state \<Rightarrow> client_response \<Rightarrow> poll_state" where
  "polled p r =
     p\<lparr>ps_response := r, ps_poll_attempts := ps_poll_attempts p + 1, ps_source := SourcePoll\<rparr>"

function poll_loop :: "nim_client \<Rightarrow> 'n transport \<Rightarrow> poll_headers \<Rightarrow> poll_state \<Rightarrow>
    (('n, 'z) net_state_scheme, nim_error, poll_state) handler" where
  "poll_loop c transport h p =
     (if hr_status (ps_response p) \<noteq> 202 then returnM p
      else case poll_refused c (learn_ids p) of
             Some e \<Rightarrow> raiseM e
           | None \<Rightarrow>
               bindM (sleep_interval c) (\<lambda>_.
               bindM (client_send transport (status_request c h (the (ps_request_id (learn_ids p))))) (\<lambda>r.
               poll_loop c transport h (polled (learn_ids p) r))))"
  by pat_completeness auto
termination
  by (relation "measure (\<lambda>(c, t, h, p). nat (max_poll_attempts c - ps_poll_attempts p))")
    (auto simp: poll_refused_def learn_ids_def polled_def Let_def split: option.splits if_splits)

declare poll_loop.simps [simp del]

definition resolve_hosted_response :: "nim_lib \<Rightarrow> nim_client \<Rightarrow> 'n transport \<Rightarrow> poll_headers \<Rightarrow>
    (string \<times> json) list \<Rightarrow> client_response \<Rightarrow> (('n, 'z) net_state_scheme, nim_error, hosted_result) handler" where
  "resolve_hosted_response lib c transport h payload response =
     bindM (poll_loop c transport h
              \<lparr>ps_response = response, ps_request_id = request_id_of response,
               ps_nvcf_status = response_header response ''nvcf-status'', ps_poll_attempts = 0,
               ps_source = SourceInline\<rparr>) (\<lambda>p.
     if hr_status (ps_response p) = 302
     then bindM (download_large_response lib transport (ps_response p)) (\<lambda>r.
          returnM (build_hosted_result lib c r payload (ps_request_id (learn_ids p))
                     (ps_nvcf_status (learn_ids p)) (ps_poll_attempts p) SourceRedirect True None))
     else if \<not> is_success (ps_response p)
     then raiseM (inference_error (error_message lib ''Hosted FourCastNet returned'' (ps_response p))
            (build_error_diagnostics lib ''Hosted FourCastNet returned'' (ps_response p)
               (ps_request_id p) (ps_nvcf_status p) (ps_poll_attempts p) (ps_source p) False))
     else
       (let preview = (if contains ''application/json'' (response_content_type (ps_response p))
                       then json_preview (ps_response p) else None)
        in case response_reference preview of
             Some url \<Rightarrow>
               bindM (download_url lib transport url) (\<lambda>r.
               returnM (build_hosted_result lib c r payload (ps_request_id (learn_ids p))
                          (ps_nvcf_status (learn_ids p)) (ps_poll_attempts p)
                          SourceResponseReference True None))
           | None \<Rightarrow>
               returnM (build_hosted_result lib c (ps_response p) payload (ps_request_id p)
                          (ps_nvcf_status p) (ps_poll_attempts p) (ps_source p) False preview)))"

definition post_request :: "nim_client \<Rightarrow> string \<Rightarrow> hosted_request \<Rightarrow> client_request" where
  "post_request c key r =
     \<lparr>hq_method = ''POST'', hq_url = base_url c,
      hq_headers = [(''Authorization'', ''Bearer '' @ key),
                    (''NVCF-POLL-SECONDS'', int_str (req_poll_seconds r)),
                    (''accept'', fcn_accept_str (req_accept r)),
                    (''content-type'', ''application/json'')],
      hq_json = Some (build_hosted_inference_payload r), hq_follow_redirects = False\<rparr>"

definition headers_of :: "string \<Rightarrow> hosted_request \<Rightarrow> poll_headers" where
  "headers_of key r =
     \<lparr>ph_authorization = ''Bearer '' @ key, ph_poll_seconds = int_str (req_poll_seconds r),
      ph_accept = fcn_accept_str (req_accept r)\<rparr>"

definition quoted :: "string \<Rightarrow> string" where
  "quoted s = [CHR 0x27] @ s @ [CHR 0x27]"

definition run_hosted_inference :: "nim_lib \<Rightarrow> nim_client \<Rightarrow> 'n transport \<Rightarrow> hosted_request \<Rightarrow>
    (('n, 'z) net_state_scheme, nim_error, hosted_result) handler" where
  "run_hosted_inference lib c transport r =
     (if client_mode c \<noteq> Hosted
      then raiseM (inference_error
             (''Hosted inference requires fourcastnet_endpoint_mode='' @ quoted ''hosted'' @ ''.'') [])
      else case opt_or (api_key c) None of
             None \<Rightarrow> raiseM (inference_error ''Hosted FourCastNet API key is missing.'' [])
           | Some key \<Rightarrow>
               catchM
                 (bindM (client_send transport (post_request c key r)) (\<lambda>response.
                  resolve_hosted_response lib c transport (headers_of key r)
                    (build_hosted_inference_payload r) response))
                 (\<lambda>e. case e of
                        HttpErrorRaised n m \<Rightarrow>
                          (let message = ''Hosted FourCastNet request failed: '' @ n @ '': '' @ m
                           in raiseM (inference_error message
                                [(''provider'', DStr ''fourcastnet''),
                                 (''response_source'', DStr ''inline''),
                                 (''poll_attempts'', DInt 0),
                                 (''response_reference_present'', DBool False),
                                 (''error_type'', DStr n), (''message'', DStr message)]))
                      | _ \<Rightarrow> raiseM e))"

end
