(* ===== verification/Artifact_Cache.thy ===== *)
theory Artifact_Cache imports
  Nim_Client
begin

text \<open>
  The artifact store of the filesystem, \<open>infrastructure/storage/local_artifact_store.py\<close>, and the
  result cache on top of it, \<open>storage/fourcastnet.py\<close>. A directory is the association list of its
  files; it is created by the first save. \<open>hashlib.sha256\<close>, \<open>isoformat\<close>, \<open>json.loads\<close> and the two
  ways the code calls \<open>json.dumps\<close> (indented for a document, compact for a key; both sort the keys)
  are parameters.
\<close>

record artifact_lib = nim_lib +
  json_dumps :: "(string \<times> json) list \<Rightarrow> bytes"
  json_compact :: "(string \<times> json) list \<Rightarrow> bytes"
  json_loads :: "bytes \<Rightarrow> json option"
  iso_format :: "datetime \<Rightarrow> string"

datatype artifact_error = ArtifactValueError string | ArtifactAttributeError

record artifact_record =
  ar_key :: string
  ar_byte_length :: int
  ar_sha256 :: string
  ar_content_type :: string
  ar_created_at :: string
  ar_metadata :: "(string \<times> json) list"

record 'n provider_state = "'n net_state" +
  artifact_files :: "(string \<times> bytes) list"
  wall_clock :: "nat \<Rightarrow> datetime"
  clock_reads :: nat

definition clock_read :: "(('n, 'z) provider_state_scheme, 'e, datetime) handler" where
  "clock_read = (\<lambda>s. (Inr (wall_clock s (clock_reads s)), s\<lparr>clock_reads := clock_reads s + 1\<rparr>))"

section \<open>The artifact store\<close>

definition key_char :: "char \<Rightarrow> bool" where
  "key_char c =
     (let n = (of_char c :: nat) in
      65 \<le> n \<and> n \<le> 90 \<or> 97 \<le> n \<and> n \<le> 122 \<or> 48 \<le> n \<and> n \<le> 57 \<or>
      c = CHR ''.'' \<or> c = CHR ''_'' \<or> c = CHR ''-'')"

definition safe_key :: "string \<Rightarrow> bool" where
  "safe_key key = (key \<noteq> [] \<and> list_all key_char key)"

text \<open>The file name of a key below the root. A name of safe characters is one path component, so
  resolving it leaves the root only for the component \<open>..\<close>.\<close>

definition safe_path :: "string \<Rightarrow> string \<Rightarrow> artifact_error + string" where
  "safe_path key suffix =
     (if \<not> safe_key key then Inl (ArtifactValueError ''Artifact key must be path-safe.'')
      else if key @ suffix = ''..''
      then Inl (ArtifactValueError ''Artifact key resolved outside artifact root.'')
      else Inr (key @ suffix))"

definition CONTENT_SUFFIX :: string where
  "CONTENT_SUFFIX = ''.tar''"

definition content_path :: "string \<Rightarrow> artifact_error + string" where
  "content_path key = safe_path key CONTENT_SUFFIX"

definition metadata_path :: "string \<Rightarrow> artifact_error + string" where
  "metadata_path key = safe_path key ''.json''"

text \<open>\<open>str(v or default)\<close> of a JSON value that may be missing.\<close>

fun json_truthy :: "json \<Rightarrow> bool" where
  "json_truthy JNull = False"
| "json_truthy (JBool b) = b"
| "json_truthy (JInt i) = (i \<noteq> 0)"
| "json_truthy (JFloat x) = (x \<noteq> Fin 0)"
| "json_truthy (JString s) = (s \<noteq> [])"
| "json_truthy (JArray xs) = (xs \<noteq> [])"
| "json_truthy (JObject d) = (d \<noteq> [])"

definition str_or_default :: "('z) nim_lib_scheme \<Rightarrow> json option \<Rightarrow> string \<Rightarrow> string" where
  "str_or_default lib v d =
     (case v of None \<Rightarrow> d
      | Some j \<Rightarrow> if json_truthy j then (case j of JString s \<Rightarrow> s | _ \<Rightarrow> json_repr lib j) else d)"

definition artifact_load :: "artifact_lib \<Rightarrow> string \<Rightarrow>
    (('n, 'z) provider_state_scheme, artifact_error, (bytes \<times> artifact_record) option) handler" where
  "artifact_load lib key =
     bindM (liftM (content_path key)) (\<lambda>content_name.
     bindM (liftM (metadata_path key)) (\<lambda>metadata_name.
     (\<lambda>s. case (map_of (artifact_files s) content_name, map_of (artifact_files s) metadata_name) of
        (Some content, Some text) \<Rightarrow>
          (case json_loads lib text of
             None \<Rightarrow> (Inl (ArtifactValueError ''JSONDecodeError''), s)
           | Some (JObject metadata) \<Rightarrow>
               (let digest = sha256_hex lib content in
                if map_of metadata ''sha256'' \<noteq> Some (JString digest) then (Inr None, s)
                else (Inr (Some (content,
                  \<lparr>ar_key = key, ar_byte_length = int (length content), ar_sha256 = digest,
                   ar_content_type =
                     str_or_default lib (map_of metadata ''content_type'') ''application/octet-stream'',
                   ar_created_at = str_or_default lib (map_of metadata ''created_at'') [],
                   ar_metadata = metadata\<rparr>)), s))
           | Some _ \<Rightarrow> (Inl ArtifactAttributeError, s))
      | _ \<Rightarrow> (Inr None, s))))"

definition write_file :: "string \<Rightarrow> bytes \<Rightarrow> (('n, 'z) provider_state_scheme, 'e, unit) handler" where
  "write_file name content = modifyM (\<lambda>s. s\<lparr>artifact_files := AList.update name content (artifact_files s)\<rparr>)"

text \<open>\<open>{**document, **metadata}\<close>.\<close>

definition dict_merge :: "(string \<times> json) list \<Rightarrow> (string \<times> json) list \<Rightarrow> (string \<times> json) list" where
  "dict_merge d e = foldl (\<lambda>acc (k, v). AList.update k v acc) d e"

definition artifact_save :: "artifact_lib \<Rightarrow> string \<Rightarrow> bytes \<Rightarrow> string \<Rightarrow> (string \<times> json) list \<Rightarrow>
    (('n, 'z) provider_state_scheme, artifact_error, artifact_record) handler" where
  "artifact_save lib key content content_type metadata =
     bindM clock_read (\<lambda>now.
     let digest = sha256_hex lib content;
         created = iso_format lib now;
         document = dict_merge
           [(''key'', JString key), (''created_at'', JString created),
            (''content_type'', JString content_type), (''byte_length'', JInt (int (length content))),
            (''sha256'', JString digest)] metadata
     in
     bindM (liftM (content_path key)) (\<lambda>content_name.
     bindM (write_file content_name content) (\<lambda>_.
     bindM (liftM (metadata_path key)) (\<lambda>metadata_name.
     bindM (write_file metadata_name (json_dumps lib document)) (\<lambda>_.
     returnM \<lparr>ar_key = key, ar_byte_length = int (length content), ar_sha256 = digest,
              ar_content_type = content_type, ar_created_at = created, ar_metadata = document\<rparr>)))))"

section \<open>The result cache\<close>

record cache_record =
  cr_key :: string
  cr_path :: string
  cr_metadata_path :: string
  cr_byte_length :: int
  cr_sha256 :: string
  cr_content_type :: string
  cr_created_at :: string

definition cache_key :: "artifact_lib \<Rightarrow> (string \<times> json) list \<Rightarrow> fcn_accept \<Rightarrow> string" where
  "cache_key lib payload accept =
     sha256_hex lib (json_compact lib
       [(''accept'', JString (fcn_accept_str accept)), (''request_payload'', JObject payload)])"

definition cache_record_of :: "artifact_record \<Rightarrow> artifact_error + cache_record" where
  "cache_record_of r =
     bindE (content_path (ar_key r)) (\<lambda>path.
     bindE (metadata_path (ar_key r)) (\<lambda>metadata.
     Inr \<lparr>cr_key = ar_key r, cr_path = path, cr_metadata_path = metadata,
          cr_byte_length = ar_byte_length r, cr_sha256 = ar_sha256 r,
          cr_content_type = ar_content_type r, cr_created_at = ar_created_at r\<rparr>))"

definition cache_load :: "artifact_lib \<Rightarrow> (string \<times> json) list \<Rightarrow> fcn_accept \<Rightarrow>
    (('n, 'z) provider_state_scheme, artifact_error, (bytes \<times> cache_record) option) handler" where
  "cache_load lib payload accept =
     bindM (artifact_load lib (cache_key lib payload accept)) (\<lambda>loaded.
     case loaded of
       None \<Rightarrow> returnM None
     | Some (content, r) \<Rightarrow>
         bindM (liftM (cache_record_of r)) (\<lambda>c. returnM (Some (content, c))))"

fun opt_json :: "string option \<Rightarrow> json" where
  "opt_json None = JNull"
| "opt_json (Some s) = JString s"

definition cache_save :: "artifact_lib \<Rightarrow> (string \<times> json) list \<Rightarrow> fcn_accept \<Rightarrow> hosted_result \<Rightarrow>
    (('n, 'z) provider_state_scheme, artifact_error, cache_record option) handler" where
  "cache_save lib payload accept result =
     (case res_raw_content result of
        None \<Rightarrow> returnM None
      | Some content \<Rightarrow>
          if \<not> contains ''tar'' (py_lower (res_content_type result)) then returnM None
          else
            bindM (artifact_save lib (cache_key lib payload accept) content (res_content_type result)
                     [(''request_payload'', JObject payload),
                      (''source'', JString (response_source_str (res_response_source result))),
                      (''nvcf_request_id'', opt_json (res_nvcf_request_id result)),
                      (''nvcf_status'', opt_json (res_nvcf_status result))]) (\<lambda>r.
            bindM (liftM (cache_record_of r)) (\<lambda>c. returnM (Some c))))"

end
