(* ===== verification/FourCastNet_Provider.thy ===== *)
theory FourCastNet_Provider imports
  FourCastNet_Decoder
  Artifact_Cache
  Job_Commands
begin

text \<open>
  The forecast provider over the hosted model: \<open>infrastructure/nvidia/fourcastnet_provider.py\<close>. It
  joins the client, the result cache and the decoder, and turns their exceptions into the one the
  job commands expect.
\<close>

record 'n fcn_provider =
  fp_client :: nim_client
  fp_transport :: "'n transport"
  fp_decoder :: decoder_lib
  fp_lib :: artifact_lib
  fp_cached :: bool

text \<open>The exceptions inside the provider.\<close>

datatype fcn_error =
    ClientError nim_error
  | CacheError artifact_error
  | DecoderError decoder_error
  | Unavailable provider_error

definition liftS :: "('e \<Rightarrow> 'f) \<Rightarrow> ('s, 'e, 'a) handler \<Rightarrow> ('s, 'f, 'a) handler" where
  "liftS f m = (\<lambda>s. case m s of (Inl e, s') \<Rightarrow> (Inl (f e), s') | (Inr x, s') \<Rightarrow> (Inr x, s'))"

definition unavailable :: "string \<Rightarrow> diag_dict \<Rightarrow> fcn_error" where
  "unavailable message d = Unavailable (provider_unavailable message d)"

definition fcn_get_status ::
    "'n fcn_provider \<Rightarrow> ('n provider_state, fcn_error, forecast_provider_status) handler" where
  "fcn_get_status f =
     bindM (liftS ClientError (get_readiness_status (fp_client f) (fp_transport f))) (\<lambda>st.
     let supports = (ns_mode st = Hosted \<and> ns_ready st);
         suffix = (if supports
           then ''Hosted point forecast sampling is configured; run inference to verify output.''
           else ''Point forecast sampling requires the hosted API path and a configured API key.'')
     in returnM
       \<lparr>status_provider = FourCastNetProvider, status_mode = endpoint_mode_str (ns_mode st),
        configured = ns_configured st, ready = ns_ready st, supports_point_forecast = supports,
        status_endpoint = Some (ns_endpoint st),
        status_detail = py_strip (ns_detail st @ '' '' @ suffix)\<rparr>)"

definition cached_result :: "'n fcn_provider \<Rightarrow> (string \<times> json) list \<Rightarrow> bytes \<Rightarrow> cache_record \<Rightarrow> hosted_result" where
  "cached_result f payload content r =
     \<lparr>res_endpoint = base_url (fp_client f), res_status_code = 200,
      res_content_type = cr_content_type r, res_byte_length = cr_byte_length r,
      res_sha256 = cr_sha256 r, res_request_payload = payload, res_json_preview = None,
      res_decoded_tar = None, res_post_processing = None, res_nvcf_request_id = None,
      res_nvcf_status = None, res_large_asset_message = None, res_poll_attempts = 0,
      res_response_source = SourceCache, res_response_reference_present = False,
      res_cache_status = CacheHit, res_cached_artifact_id = Some (cr_key r),
      res_raw_content = Some content\<rparr>"

definition run_inference_with_cache ::
    "'n fcn_provider \<Rightarrow> hosted_request \<Rightarrow> ('n provider_state, fcn_error, hosted_result) handler" where
  "run_inference_with_cache f req =
     (let payload = build_hosted_inference_payload req in
      bindM (if fp_cached f
             then liftS CacheError (cache_load (fp_lib f) payload (req_accept req))
             else returnM None) (\<lambda>cached.
      case cached of
        Some (content, r) \<Rightarrow> returnM (cached_result f payload content r)
      | None \<Rightarrow>
          bindM (liftS ClientError
                   (run_hosted_inference (nim_lib.truncate (fp_lib f)) (fp_client f) (fp_transport f) req)) (\<lambda>result.
          if \<not> fp_cached f then returnM (result\<lparr>res_cache_status := CacheDisabled\<rparr>)
          else
            bindM (liftS CacheError (cache_save (fp_lib f) payload (req_accept req) result)) (\<lambda>r.
            case r of
              Some c \<Rightarrow> returnM (result\<lparr>res_cache_status := CacheStored,
                                       res_cached_artifact_id := Some (cr_key c)\<rparr>)
            | None \<Rightarrow> returnM (result\<lparr>res_cache_status := CacheMiss\<rparr>)))))"

definition build_result_diagnostics :: "hosted_result \<Rightarrow> diag_dict" where
  "build_result_diagnostics r =
     [(''provider'', DStr ''fourcastnet''),
      (''response_source'', DStr (response_source_str (res_response_source r))),
      (''cache_status'', DStr (cache_status_str (res_cache_status r))),
      (''cached_artifact_id'', opt_value (res_cached_artifact_id r)),
      (''nvcf_request_id'', opt_value (res_nvcf_request_id r)),
      (''nvcf_status'', opt_value (res_nvcf_status r)),
      (''poll_attempts'', DInt (res_poll_attempts r)),
      (''response_reference_present'', DBool (res_response_reference_present r)),
      (''byte_length'', DInt (res_byte_length r)),
      (''sha256'', DStr (res_sha256 r))]"

text \<open>\<open>_build_error_diagnostics\<close>: of a client exception its own diagnostics with a provider and a
  message, of a decoder exception, which carries none, just these two.\<close>

definition client_error_diagnostics :: "string \<Rightarrow> diag_dict \<Rightarrow> diag_dict" where
  "client_error_diagnostics message d =
     AList.update ''message'' (dict_or (map_of d ''message'') (DStr message))
       (AList.update ''provider'' (dict_or (map_of d ''provider'') (DStr ''fourcastnet'')) d)"

definition decoder_error_diagnostics :: "string \<Rightarrow> diag_dict" where
  "decoder_error_diagnostics message =
     [(''provider'', DStr ''fourcastnet''), (''message'', DStr message)]"

fun fcn_translate :: "fcn_error \<Rightarrow> fcn_error" where
  "fcn_translate (ClientError (InferenceError m d)) = unavailable m (client_error_diagnostics m d)"
| "fcn_translate (DecoderError (PostProcessingError m)) = unavailable m (decoder_error_diagnostics m)"
| "fcn_translate e = e"

definition point_request :: hosted_request where
  "point_request =
     \<lparr>req_input_id = 0, req_variables = FOURCASTNET_POINT_VARIABLES, req_simulation_length = 4,
      req_ensemble_size = 1, req_noise_amplitude = NInt 0, req_accept = AcceptTar,
      req_poll_seconds = 5\<rparr>"

definition LARGE_ASSET :: string where
  "LARGE_ASSET =
     ''Hosted FourCastNet returned a large asset marker instead of tar bytes. '' @
     ''No downloadable responseReference or Location header was available.''"

definition point_forecast_body :: "'n fcn_provider \<Rightarrow> pyfloat \<Rightarrow> pyfloat \<Rightarrow>
    ('n provider_state, fcn_error, provider_result) handler" where
  "point_forecast_body f lat lon =
     bindM (run_inference_with_cache f point_request) (\<lambda>result.
     if opt_str_or (res_large_asset_message result) [] \<noteq> []
     then raiseM (unavailable LARGE_ASSET
            (AList.update ''message'' (DStr LARGE_ASSET) (build_result_diagnostics result)))
     else
       bindM clock_read (\<lambda>now.
       bindM (liftS DecoderError (liftM (build_summary_from_hosted_result (fp_decoder f) now result
                point_request lat lon None))) (\<lambda>s.
       returnM \<lparr>result_summary = s, result_diagnostics = build_result_diagnostics result\<rparr>)))"

definition get_point_forecast_with_diagnostics :: "'n fcn_provider \<Rightarrow> pyfloat \<Rightarrow> pyfloat \<Rightarrow>
    ('n provider_state, fcn_error, provider_result) handler" where
  "get_point_forecast_with_diagnostics f lat lon =
     bindM (fcn_get_status f) (\<lambda>st.
     if \<not> supports_point_forecast st
     then raiseM (unavailable
            (if ready st then status_detail st
             else ''FourCastNet provider is not ready. Use mock provider until NIM is configured.'') [])
     else catchM (point_forecast_body f lat lon) (\<lambda>e. raiseM (fcn_translate e)))"

definition fcn_get_point_forecast :: "'n fcn_provider \<Rightarrow> pyfloat \<Rightarrow> pyfloat \<Rightarrow>
    ('n provider_state, fcn_error, forecast_summary) handler" where
  "fcn_get_point_forecast f lat lon =
     bindM (get_point_forecast_with_diagnostics f lat lon) (\<lambda>r. returnM (result_summary r))"

text \<open>The developer endpoint for a raw inference.\<close>

definition provider_run_hosted_inference ::
    "'n fcn_provider \<Rightarrow> hosted_request \<Rightarrow> ('n provider_state, fcn_error, hosted_result) handler" where
  "provider_run_hosted_inference f req =
     (if client_mode (fp_client f) \<noteq> Hosted
      then raiseM (unavailable ''Hosted inference requires EARTH2_FOURCASTNET_ENDPOINT_MODE=hosted.'' [])
      else
        bindM (catchM (run_inference_with_cache f req) (\<lambda>e.
                 case e of ClientError _ \<Rightarrow> raiseM (fcn_translate e) | _ \<Rightarrow> raiseM e)) (\<lambda>result.
        bindM (liftS DecoderError (liftM (decode_hosted_result (fp_decoder f) result))) (\<lambda>decoded.
        let bare = result\<lparr>res_decoded_tar := decoded, res_raw_content := None\<rparr>
        in returnM (bare\<lparr>res_post_processing := Some (describe_hosted_result bare)\<rparr>))))"

text \<open>What the job commands see of a call: every exception that is not the expected one is caught
  by \<open>except Exception\<close> with its text. The texts of Python's own exceptions are not modelled.\<close>

fun provider_error_of :: "fcn_error \<Rightarrow> provider_error" where
  "provider_error_of (Unavailable e) = e"
| "provider_error_of (ClientError (OtherNimError m)) = OtherProviderError m"
| "provider_error_of (CacheError (ArtifactValueError m)) = OtherProviderError m"
| "provider_error_of (DecoderError (OtherException m)) = OtherProviderError m"
| "provider_error_of _ = OtherProviderError []"

definition fcn_answer :: "fcn_error + provider_result \<Rightarrow> provider_error + provider_result" where
  "fcn_answer r = (case r of Inl e \<Rightarrow> Inl (provider_error_of e) | Inr x \<Rightarrow> Inr x)"

end
