(* ===== verification/Decoder_Forecast.thy ===== *)
theory Decoder_Forecast imports
  Decoder_Correct
begin

text \<open>
  The forecast the decoder builds: the range of every derived quantity, that it is finite and valid,
  which exceptions can leave the decoder, and which node of the quarter-degree grid is sampled.
\<close>

section \<open>Ranges\<close>

definition num_ok :: "int \<Rightarrow> int \<Rightarrow> pynum \<Rightarrow> bool" where
  "num_ok lo hi n =
     (case n of NInt i \<Rightarrow> lo \<le> i \<and> i \<le> hi
      | NFlt x \<Rightarrow> (\<exists>q. x = Fin q \<and> of_int lo \<le> q \<and> q \<le> of_int hi))"

lemma num_clamp_ok: "lo \<le> hi \<Longrightarrow> num_ok lo hi (num_min (NInt hi) (num_max (NInt lo) (NFlt x)))"
  by (cases x) (auto simp: num_ok_def num_min_def num_max_def)

lemma decimal_between:
  assumes "of_int lo \<le> q" and "q \<le> of_int hi" and "\<bar>lo\<bar> \<le> 2 ^ 53" and "\<bar>hi\<bar> \<le> 2 ^ 53"
  obtains r where "fl64 (of_int (round_half_even (q * 10 ^ k)) / 10 ^ k) = Fin r"
    and "of_int lo \<le> r" and "r \<le> of_int hi"
proof -
  have "of_int (lo * 10 ^ k) \<le> q * 10 ^ k" "q * 10 ^ k \<le> of_int (hi * 10 ^ k)"
    using assms(1,2) by (simp_all add: mult_right_mono)
  from decimal_ge [OF this(1)] decimal_le [OF this(2)]
  have "of_int lo \<le> (of_int (round_half_even (q * 10 ^ k)) :: rat) / 10 ^ k"
    and "(of_int (round_half_even (q * 10 ^ k)) :: rat) / 10 ^ k \<le> of_int hi"
    by simp_all
  with is_double_of_int [OF assms(3)] is_double_of_int [OF assms(4)] show thesis
    by (rule fl64_between) (rule that)
qed

lemma py_round_ok:
  assumes "num_ok lo hi n" and "\<bar>lo\<bar> \<le> 2 ^ 53" and "\<bar>hi\<bar> \<le> 2 ^ 53"
  shows "num_ok lo hi (py_round k n)"
proof (cases n)
  case (NFlt x)
  with assms(1) obtain q where q: "x = Fin q" "of_int lo \<le> q" "q \<le> of_int hi" by (auto simp: num_ok_def)
  obtain r where "fl64 (of_int (round_half_even (q * 10 ^ k)) / 10 ^ k) = Fin r" "of_int lo \<le> r" "r \<le> of_int hi"
    by (rule decimal_between [OF q(2,3) assms(2,3)])
  with NFlt q(1) show ?thesis by (simp add: num_ok_def)
qed (use assms in \<open>simp add: num_ok_def\<close>)

lemma num_float_between:
  assumes "num_ok lo hi n" and "\<bar>lo\<bar> \<le> 2 ^ 53" and "\<bar>hi\<bar> \<le> 2 ^ 53"
  shows "flt_between (of_int lo) (num_float n) (of_int hi)"
proof (cases n)
  case (NInt i)
  with assms have "lo \<le> i" "i \<le> hi" "\<bar>i\<bar> \<le> 2 ^ 53" by (auto simp: num_ok_def)
  with is_double_of_int [of i] NInt show ?thesis by (simp add: is_double_def flt_between_iff)
qed (use assms in \<open>auto simp: num_ok_def flt_between_iff\<close>)

lemmas num_ok_round = num_float_between [OF py_round_ok]

lemma decimal_value:
  assumes "of_int lo \<le> (of_int n :: rat) / 10 ^ k" and "(of_int n :: rat) / 10 ^ k \<le> of_int hi"
    and "\<bar>lo\<bar> \<le> 2 ^ 53" and "\<bar>hi\<bar> \<le> 2 ^ 53"
  obtains q where "decimal n k = Fin q" and "of_int lo \<le> q" and "q \<le> of_int hi" and "is_double q"
  using fl64_between [OF is_double_of_int [OF assms(3)] is_double_of_int [OF assms(4)] assms(1,2)]
  unfolding decimal_def by metis

text \<open>The bounds the schema declares always hold, whatever was sampled.\<close>

lemma step_confidence_ok: "num_ok 0 1 (step_confidence lead n)"
proof -
  obtain a where "decimal 55 2 = Fin a" "0 \<le> a" "a \<le> 1"
    by (rule decimal_value [of 0 55 2 1]) auto
  moreover obtain b where "decimal 95 2 = Fin b" "0 \<le> b" "b \<le> 1"
    by (rule decimal_value [of 0 95 2 1]) auto
  ultimately have "num_ok 0 1 (num_max (NFlt (decimal 55 2)) (num_min (NFlt (decimal 95 2)) (NFlt x)))" for x
    by (cases x) (auto simp: num_ok_def num_min_def num_max_def)
  then show ?thesis unfolding step_confidence_def by (intro py_round_ok) simp_all
qed

lemma humidity_ok: "num_ok 15 98 (py_round 1 (tcwv_to_humidity_percent v))"
  unfolding tcwv_to_humidity_percent_def by (intro py_round_ok num_clamp_ok) simp_all

lemma precipitation_ok: "num_ok 2 95 (py_round 1 (estimate_precipitation_probability h p w))"
  unfolding estimate_precipitation_probability_def Let_def by (intro py_round_ok num_clamp_ok) simp_all

lemma flt_between_weaken: "flt_between a x b \<Longrightarrow> a' \<le> a \<Longrightarrow> b \<le> b' \<Longrightarrow> flt_between a' x b'"
  by (auto simp: flt_between_iff)

lemma timeline_step_of_bounds:
  "flt_between 15 (humidity_percent (timeline_step_of lib lead n t a b c d)) 98"
  "flt_between 2 (precipitation_probability_percent (timeline_step_of lib lead n t a b c d)) 95"
  "flt_between 0 (confidence (timeline_step_of lib lead n t a b c d)) 1"
  using num_float_between [OF humidity_ok] num_float_between [OF precipitation_ok]
    num_float_between [OF step_confidence_ok]
  by (simp_all add: timeline_step_of_def Let_def)

lemma timeline_step_of_valid: "0 \<le> lead \<Longrightarrow> timeline_step_valid (timeline_step_of lib lead n t a b c d)"
  using timeline_step_of_bounds [of lib lead n t a b c d]
  by (auto simp: timeline_step_valid_def timeline_step_of_def Let_def intro: flt_between_weaken)

section \<open>Finite results\<close>

text \<open>Rounding a double to decimals cannot overflow.\<close>

lemma is_double_round_finite:
  assumes "is_double q"
  shows "flt_finite (num_float (py_round 1 (NFlt (Fin q))))"
proof -
  let ?r = "of_int (round_half_even (q * 10)) / 10 :: rat"
  have "\<bar>?r - q\<bar> \<le> 1 / 20"
    using round_half_even_dist [of "q * 10"] by (simp add: field_simps abs_le_iff)
  moreover have "\<bar>q\<bar> \<le> 2 ^ 1024 - 2 ^ 971" using assms by (rule is_double_max)
  moreover have "(2::rat) ^ 1024 - 2 ^ 971 + 1 / 20 < 2 ^ 1024 - 2 ^ 970" by simp
  ultimately have "\<bar>?r\<bar> < 2 ^ 1024 - 2 ^ 970" by linarith
  from fl64_finite [OF this] show ?thesis by (auto simp: flt_finite_def)
qed

lemma to_celsius_double:
  assumes "is_double q"
  obtains r where "to_celsius (Fin q) = Fin r" and "is_double r"
proof (cases "170 < q")
  case True
  obtain c where c: "decimal 27315 2 = Fin c" "of_int 0 \<le> c" "c \<le> of_int 274"
    by (rule decimal_value [of 0 27315 2 274]) auto
  have "of_int (- 104) \<le> q - c" "q - c \<le> q" using True c(2,3) by simp_all
  from fl64_between [OF is_double_of_int assms this] True c(1) that show thesis
    by (auto simp: to_celsius_def flt_sub_def)
next
  case False
  with that assms show thesis by (simp add: to_celsius_def)
qed

lemma to_hpa_double:
  assumes "is_double q"
  obtains r where "to_hpa (Fin q) = Fin r" and "is_double r"
proof (cases "2000 < q")
  case True
  then have "0 \<le> q / 100" "q / 100 \<le> q" by simp_all
  from fl64_between [OF is_double_0 assms this] True that show thesis
    by (auto simp: to_hpa_def)
next
  case False
  with that assms show thesis by (simp add: to_hpa_def)
qed

lemma wind_finite:
  assumes "is_double q"
  shows "flt_finite (num_float (py_round 1 (num_max (NInt 0) (NFlt (Fin q)))))"
  using is_double_round_finite [OF assms] by (simp add: num_max_def flt_finite_def)

text \<open>What the code relies on in its libraries: the arrays have as many elements as their shape
  says, the elements are floats, and the set is iterated completely.\<close>

definition decoder_lib_ok :: "decoder_lib \<Rightarrow> bool" where
  "decoder_lib_ok lib =
     ((\<forall>b a. lib_load_npy lib b = Inr a \<longrightarrow>
         nd_ok a \<and> list_all (\<lambda>n. n < 2 ^ 63) (nd_shape a) \<and> (\<forall>q. Fin q \<in> set (nd_values a) \<longrightarrow> is_double q)) \<and>
      set (lib_variable_order lib) = set REQUIRED_POINT_VARIABLES)"

definition step_finite :: "timeline_step \<Rightarrow> bool" where
  "step_finite t = (flt_finite (temperature_c t) \<and> flt_finite (wind_speed_ms t) \<and> flt_finite (pressure_hpa t))"

lemma timeline_step_of_finite:
  assumes "is_double a" and "is_double b" and "is_double d"
  shows "step_finite (timeline_step_of lib lead n t (Fin a) (Fin b) c (Fin d))"
proof -
  obtain r where "to_celsius (Fin a) = Fin r" "is_double r" using to_celsius_double [OF assms(1)] .
  moreover obtain p where "to_hpa (Fin d) = Fin p" "is_double p" using to_hpa_double [OF assms(3)] .
  ultimately show ?thesis
    using is_double_round_finite [of r] is_double_round_finite [of p] wind_finite [OF assms(2)]
    by (simp add: step_finite_def timeline_step_of_def Let_def)
qed

lemma read_grid_value_double:
  assumes "read_grid_value a v i j = Inr x" and "nd_ok a"
    and "\<forall>q. Fin q \<in> set (nd_values a) \<longrightarrow> is_double q"
  obtains q where "x = Fin q" and "is_double q"
proof -
  from assms(1) obtain ix where ix: "nd_get a ix = Some x" and fin: "flt_finite x"
    by (auto simp: read_grid_value_def Let_def split: if_splits option.splits)
  from nd_get_in [OF assms(2) ix] have "x \<in> set (nd_values a)" .
  moreover from fin obtain q where "x = Fin q" by (auto simp: flt_finite_def split: pyfloat.splits)
  ultimately show thesis using assms(3) that by blast
qed

lemma sample_member_values_double:
  assumes "sample_member_values lib a vs la lo = Inr d" and "value_of d v = Inr x"
    and "nd_ok a" and "\<forall>q. Fin q \<in> set (nd_values a) \<longrightarrow> is_double q"
  obtains q where "x = Fin q" and "is_double q"
proof -
  from assms(2) have "(v, x) \<in> set d"
    by (auto simp: value_of_def split: option.splits dest: map_of_SomeD)
  with assms(1) obtain i j k where "read_grid_value a k i j = Inr x"
    by (auto simp: sample_member_values_def bindE_Inr split: if_splits option.splits dest!: mapE_in)
  from read_grid_value_double [OF this assms(3,4)] that show thesis .
qed

text \<open>A step that is built is a valid one with finite values at the lead time of its member.\<close>

lemma build_timeline_step_Inr:
  assumes "build_timeline_step lib vs la lo t n m = Inr s" and "decoder_lib_ok lib" and "member_ok lib m"
  shows "timeline_step_valid s" and "step_finite s" and "lead_time_hours s = dm_lead_time_hours m"
    and "valid_at s = t + dm_lead_time_hours m * 3600 * 1000000"
proof -
  obtain d t2m w10m tcwv msl valid where d: "sample_member_values lib (dm_array m) vs la lo = Inr d"
    and v: "value_of d T2m = Inr t2m" "value_of d W10m = Inr w10m" "value_of d Msl = Inr msl"
    and valid: "plus_hours t (dm_lead_time_hours m) = Inr valid"
    and s: "s = timeline_step_of lib (dm_lead_time_hours m) n valid t2m w10m tcwv msl" "timeline_step_valid s"
    using assms(1) by (auto simp: build_timeline_step_def bindE_Inr Let_def split: if_splits)
  have a: "nd_ok (dm_array m)" "\<forall>q. Fin q \<in> set (nd_values (dm_array m)) \<longrightarrow> is_double q"
    using assms(2,3) by (auto simp: decoder_lib_ok_def member_ok_def)
  obtain x y z where "t2m = Fin x" "is_double x" "w10m = Fin y" "is_double y" "msl = Fin z" "is_double z"
    by (metis sample_member_values_double [OF d v(1) a] sample_member_values_double [OF d v(2) a]
        sample_member_values_double [OF d v(3) a])
  then show "step_finite s" unfolding s(1) by (simp add: timeline_step_of_finite)
  show "timeline_step_valid s" by (rule s)
  show "lead_time_hours s = dm_lead_time_hours m" and "valid_at s = t + dm_lead_time_hours m * 3600 * 1000000"
    using valid by (simp_all add: s(1) timeline_step_of_def Let_def plus_hours_def split: if_splits)
qed

section \<open>The forecast\<close>

lemma build_summary_Inr:
  assumes "build_summary_from_tar_bytes lib now content req la lo g = Inr s" and "decoder_lib_ok lib"
  obtains ms ws where "load_tar_members lib content = Inr (ms, ws)" and "ms \<noteq> []"
    and "missing_variables (req_variables req) = []"
    and "storable_summary s" and "summary_latitude s = la" and "summary_longitude s = lo"
    and "generated_at s = (case g of None \<Rightarrow> now | Some t \<Rightarrow> t)"
    and "map lead_time_hours (timeline s) = map dm_lead_time_hours (select_batch_members ms)"
    and "\<forall>t\<in>set (timeline s). valid_at t = generated_at s + lead_time_hours t * 3600 * 1000000"
    and "lead_hours (forecast_window_of s) = map lead_time_hours (timeline s)"
    and "start_at (forecast_window_of s) = valid_at (hd (timeline s))"
    and "end_at (forecast_window_of s) = valid_at (last (timeline s))"
proof -
  let ?t = "case g of None \<Rightarrow> now | Some t \<Rightarrow> t"
  obtain ms ws steps sigs where load: "load_tar_members lib content = Inr (ms, ws)"
    and miss: "missing_variables (req_variables req) = []" and sel: "select_batch_members ms \<noteq> []"
    and steps: "mapE (build_timeline_step lib (req_variables req) la lo ?t (length ws)) (select_batch_members ms) = Inr steps"
    and s: "s = summary_of_timeline lib ?t la lo steps sigs" and valid: "forecast_summary_valid s"
    using assms(1) by (auto simp: build_summary_from_tar_bytes_def bindE_Inr Let_def split: if_splits)
  have ok: "member_ok lib m" if "m \<in> set (select_batch_members ms)" for m
    using load_tar_members_ok(1) [OF load] select_batch_members_set(1) [OF that] by (simp add: list_all_iff)
  have all: "timeline_step_valid x \<and> step_finite x \<and> valid_at x = ?t + lead_time_hours x * 3600 * 1000000"
    if "x \<in> set steps" for x
    using mapE_in [OF steps that] build_timeline_step_Inr [OF _ assms(2) ok] by metis
  have "list_all2 (\<lambda>m x. dm_lead_time_hours m = lead_time_hours x) (select_batch_members ms) steps"
    using mapE_Inr [OF steps] build_timeline_step_Inr(3) [OF _ assms(2) ok]
    by (auto simp: list_all2_conv_all_nth)
  then have leads: "map lead_time_hours steps = map dm_lead_time_hours (select_batch_members ms)"
    by (rule list_all2_imp_map)
  with sel have "steps \<noteq> []" by auto
  then have first: "step_finite (hd steps)" "flt_between 0 (humidity_percent (hd steps)) 100"
    using all [of "hd steps"] by (simp_all add: timeline_step_valid_def)
  have "forecast_summary_finite s"
    using first all
    by (auto simp: s summary_of_timeline_def forecast_summary_finite_def step_finite_def list_all_iff
        flt_between_iff flt_finite_def)
  moreover have "ms \<noteq> []" using sel by (auto simp: select_batch_members_nonempty)
  ultimately show thesis
    using load miss valid leads all
    by (intro that [OF load]) (simp_all add: s summary_of_timeline_def storable_summary_def)
qed

section \<open>Exceptions\<close>

lemma index_of_Some: "x \<in> set xs \<Longrightarrow> \<exists>i < length xs. index_of x xs = Some i \<and> xs ! i = x"
  by (induction xs) force+

lemma missing_variables_index:
  assumes "missing_variables vs = []" and "v \<in> set REQUIRED_POINT_VARIABLES"
  shows "\<exists>i < length vs. index_of v vs = Some i"
  using assms index_of_Some [of v vs] by (auto simp: missing_variables_def filter_empty_conv)

text \<open>For a coordinate in range the position on the grid is a number, so rounding it is defined.\<close>

lemma grid_step_positive:
  assumes "180 \<le> k" and "k \<le> 360" and "1 \<le> n" and "n \<le> 2 ^ 63"
  obtains r where "fl64 (k / n) = Fin r" and "2 powi (- 56) \<le> r"
proof -
  have "(2::rat) powi (- 56) * n \<le> 2 powi (- 56) * 2 ^ 63"
    using assms(4) by (intro mult_left_mono) simp_all
  also have "\<dots> \<le> k" using assms(1) by (simp add: power_int_def power_one_over)
  finally have "2 powi (- 56) \<le> k / n" using assms(3) by (simp add: field_simps)
  moreover have "k / n \<le> of_int 360"
    using assms mult_mono [of k 360 1 n] by (simp add: field_simps)
  moreover have "is_double (2 powi (- 56))"
    by (rule is_double_exact [of _ 1 "- 56"]) (simp_all add: power_int_def power_one_over)
  ultimately show thesis
    using fl64_between [OF _ is_double_of_int [of 360], of "2 powi (- 56)" "k / n"] that by fastforce
qed

lemma grid_round_total:
  assumes "0 \<le> p" and "p \<le> 360" and "2 powi (- 56) \<le> r"
  obtains i where "grid_round (Fin p) (Fin r) = Inr i" and "0 \<le> i"
proof -
  have r: "0 < r" using assms(3) by (rule less_le_trans [OF pow2_pos])
  have "(512::rat) = 2 powi 65 * 2 powi (- 56)" by (simp add: power_int_def power_one_over)
  then have "p \<le> 2 powi 65 * 2 powi (- 56)" using assms(2) by simp
  also have "\<dots> \<le> 2 powi 65 * r" using assms(3) by (intro mult_left_mono) simp_all
  finally have "p / r \<le> 2 powi 65" using r by (simp add: field_simps)
  moreover have "is_double (2 powi 65)"
    by (rule is_double_exact [of _ 1 65]) (simp_all add: power_int_def power_one_over)
  moreover have "0 \<le> p / r" using assms(1) r by simp
  ultimately obtain q where "fl64 (p / r) = Fin q" "0 \<le> q"
    using fl64_between [OF is_double_0] by metis
  moreover have "0 \<le> round_half_even q" using round_half_even_ge [of 0 q] \<open>0 \<le> q\<close> by simp
  ultimately show thesis using r that by (simp add: grid_round_def)
qed

text \<open>For a coordinate in range the position on the grid is a number, so rounding it is defined.\<close>

lemma grid_indices_total:
  assumes "- 90 \<le> la" and "la \<le> 90"
    and "0 < nd_shape a ! (length (nd_shape a) - 2)" and "nd_shape a ! (length (nd_shape a) - 2) < 2 ^ 63"
    and "0 < nd_shape a ! (length (nd_shape a) - 1)" and "nd_shape a ! (length (nd_shape a) - 1) < 2 ^ 63"
  shows "\<exists>i j. grid_indices a (Fin la) (Fin lo) = Inr (i, j)"
proof -
  let ?n = "nd_shape a ! (length (nd_shape a) - 2)" and ?m = "nd_shape a ! (length (nd_shape a) - 1)"
  have lt: "(of_nat n :: rat) \<le> 2 ^ 63" if "n < 2 ^ 63" for n :: nat
    using that by (metis less_imp_le of_nat_le_iff of_nat_numeral of_nat_power)
  have "1 \<le> (of_nat ?m :: rat)" using assms(5) by simp
  then obtain r where r: "fl64 (360 / of_nat ?m) = Fin r" "2 powi (- 56) \<le> r"
    using grid_step_positive [of 360 "of_nat ?m"] lt [OF assms(6)] by auto
  obtain p where "flt_mod (Fin lo) 360 = Fin p" "0 \<le> p" "p \<le> 360"
    using flt_mod_range [of 360 lo] is_double_360 by auto
  with r obtain j where col: "grid_round (flt_mod (Fin lo) 360) (fl64 (360 / of_nat ?m)) = Inr j"
    using grid_round_total by metis
  have row: "\<exists>i. grid_round (flt_sub (Fin 90) (Fin la)) (fl64 (180 / (of_nat ?n - 1))) = Inr i" if "1 < ?n"
  proof -
    have n: "(1::rat) \<le> of_nat ?n - 1" "(of_nat ?n :: rat) - 1 \<le> 2 ^ 63"
      using that lt [OF assms(4)] of_nat_mono [of 2 ?n] by fastforce+
    then obtain s where s: "fl64 (180 / (of_nat ?n - 1)) = Fin s" "2 powi (- 56) \<le> s"
      using grid_step_positive [of 180 "of_nat ?n - 1"] by auto
    have "0 \<le> 90 - la" "90 - la \<le> 180" using assms(1,2) by simp_all
    then obtain u where "flt_sub (Fin 90) (Fin la) = Fin u" "0 \<le> u" "u \<le> 180"
      using fl64_between [OF is_double_0 is_double_180] by (metis diff_conv_add_uminus flt_add.simps(1)
          flt_neg.simps(1) flt_sub_def)
    with s grid_round_total [of u s] show ?thesis by auto
  qed
  show ?thesis
  proof (cases "1 < ?n")
    case True
    with row obtain i where "grid_round (flt_sub (Fin 90) (Fin la)) (fl64 (180 / (of_nat ?n - 1))) = Inr i"
      by blast
    with True col assms(3,5) show ?thesis by (simp add: grid_indices_def Let_def)
  next
    case False
    with col assms(3,5) show ?thesis by (simp add: grid_indices_def Let_def)
  qed
qed

text \<open>An index error can only come from an empty leading axis.\<close>

lemma nd_get_None:
  assumes "length (nd_shape a) \<in> {4, 5}" and "v < nd_shape a ! (if length (nd_shape a) = 4 then 1 else 2)"
    and "i < nd_shape a ! (length (nd_shape a) - 2)" and "j < nd_shape a ! (length (nd_shape a) - 1)"
    and "nd_get a (if length (nd_shape a) = 4 then [0, v, i, j] else [0, 0, v, i, j]) = None"
  shows "0 \<in> set (take (length (nd_shape a) - 3) (nd_shape a))"
proof -
  consider (four) k l m n where "nd_shape a = [k, l, m, n]"
    | (five) k l m n p where "nd_shape a = [k, l, m, n, p]"
    using assms(1) by (auto simp: length_Suc_conv numeral_eq_Suc)
  then show ?thesis
  proof cases
    case four
    with assms show ?thesis by (auto simp: nd_get_def split: if_splits)
  next
    case five
    with assms show ?thesis by (auto simp: nd_get_def split: if_splits)
  qed
qed

text \<open>The exceptions that can leave the decoder for a coordinate in range.\<close>

definition decoder_raises :: "decoder_lib \<Rightarrow> bytes \<Rightarrow> datetime \<Rightarrow> decoder_error \<Rightarrow> bool" where
  "decoder_raises lib content t e =
     ((\<exists>msg. e = PostProcessingError msg) \<or>
      (\<exists>msg. e = OtherException msg \<and> lib_open_tar lib content = Inl (OtherTarFailure msg)) \<or>
      e = DateOverflow \<and> datetime_max < t + 999 * 3600 * 1000000 \<or>
      e = ArrayIndexError \<and>
        (\<exists>b a. lib_load_npy lib b = Inr a \<and> 0 \<in> set (take (length (nd_shape a) - 3) (nd_shape a))))"

lemma read_grid_value_Inl:
  assumes "read_grid_value a v i j = Inl e" and "length (nd_shape a) \<in> {4, 5}"
    and "i < nd_shape a ! (length (nd_shape a) - 2)" and "j < nd_shape a ! (length (nd_shape a) - 1)"
  shows "(\<exists>msg. e = PostProcessingError msg) \<or>
    e = ArrayIndexError \<and> 0 \<in> set (take (length (nd_shape a) - 3) (nd_shape a))"
proof (cases "nd_shape a ! (if length (nd_shape a) = 4 then 1 else 2) \<le> v")
  case True
  with assms(1) show ?thesis by (auto simp: read_grid_value_def Let_def)
next
  case False
  then have v: "v < nd_shape a ! (if length (nd_shape a) = 4 then 1 else 2)" by simp
  show ?thesis
    using assms(1) False nd_get_None [OF assms(2) v assms(3,4)]
    by (auto simp: read_grid_value_def Let_def split: option.splits if_splits)
qed

lemma sample_member_values_Inl:
  assumes "sample_member_values lib a vs (Fin la) lo = Inl e" and "decoder_lib_ok lib"
    and "lib_load_npy lib b = Inr a" and "missing_variables vs = []"
    and "- 90 \<le> la" and "la \<le> 90" and "lo = Fin lo'"
  shows "(\<exists>msg. e = PostProcessingError msg) \<or>
    e = ArrayIndexError \<and> 0 \<in> set (take (length (nd_shape a) - 3) (nd_shape a))"
proof (cases "length (nd_shape a) \<in> {4, 5}")
  case False
  with assms(1) show ?thesis by (auto simp: sample_member_values_def)
next
  case True
  let ?n = "nd_shape a ! (length (nd_shape a) - 2)" and ?m = "nd_shape a ! (length (nd_shape a) - 1)"
  have "?n \<in> set (nd_shape a)" "?m \<in> set (nd_shape a)" using True by auto
  then have lt: "?n < 2 ^ 63" "?m < 2 ^ 63"
    using assms(2,3) by (auto simp: decoder_lib_ok_def list_all_iff)
  show ?thesis
  proof (cases "0 < ?n \<and> 0 < ?m")
    case False
    then have "grid_indices a (Fin la) lo =
        Inl (PostProcessingError (''Invalid grid shape '' @ tuple_str (nd_shape a) @ ''.''))"
      by (auto simp: grid_indices_def Let_def)
    with assms(1) True show ?thesis by (auto simp: sample_member_values_def)
  next
    case pos: True
    then obtain i j where ij: "grid_indices a (Fin la) lo = Inr (i, j)"
      using grid_indices_total [OF assms(5,6) _ lt(1) _ lt(2), of lo'] assms(7) by blast
    with assms(1) True have "mapE (\<lambda>v. case index_of v vs of None \<Rightarrow> Inl (VariableMissing v)
        | Some k \<Rightarrow> bindE (read_grid_value a k i j) (\<lambda>x. Inr (v, x))) (lib_variable_order lib) = Inl e"
      by (auto simp: sample_member_values_def)
    then obtain v where v: "v \<in> set REQUIRED_POINT_VARIABLES"
      and e: "(case index_of v vs of None \<Rightarrow> Inl (VariableMissing v)
        | Some k \<Rightarrow> bindE (read_grid_value a k i j) (\<lambda>x. Inr (v, x))) = Inl e"
      using assms(2) by (auto simp: decoder_lib_ok_def dest!: mapE_Inl)
    obtain k where "index_of v vs = Some k" using missing_variables_index [OF assms(4) v] by blast
    with e have "read_grid_value a k i j = Inl e" by (auto simp: bindE_Inl)
    from read_grid_value_Inl [OF this True] grid_indices_in_range [OF ij] show ?thesis by blast
  qed
qed

lemma sample_member_values_keys:
  assumes "sample_member_values lib a vs la lo = Inr d" and "decoder_lib_ok lib"
    and "v \<in> set REQUIRED_POINT_VARIABLES"
  shows "\<exists>x. value_of d v = Inr x"
proof -
  obtain i j where "mapE (\<lambda>v. case index_of v vs of None \<Rightarrow> Inl (VariableMissing v)
      | Some k \<Rightarrow> bindE (read_grid_value a k i j) (\<lambda>x. Inr (v, x))) (lib_variable_order lib) = Inr d"
    using assms(1) by (auto simp: sample_member_values_def bindE_Inr split: if_splits)
  from mapE_Inr [OF this] have "list_all2 (\<lambda>v y. fst y = v) (lib_variable_order lib) d"
    by (rule list_all2_mono) (auto simp: bindE_Inr split: option.splits)
  then have "map fst d = lib_variable_order lib"
    by (induction rule: list_all2_induct) auto
  with assms(2,3) have "v \<in> fst ` set d" by (metis decoder_lib_ok_def set_map)
  then show ?thesis by (auto simp: value_of_def map_of_eq_None_iff split: option.splits)
qed

lemma build_timeline_step_Inl:
  assumes "build_timeline_step lib vs (Fin la) (Fin lo) t n m = Inl e" and "decoder_lib_ok lib"
    and "member_ok lib m" and "missing_variables vs = []" and "- 90 \<le> la" and "la \<le> 90" and "0 \<le> t"
  shows "decoder_raises lib content t e"
proof (cases "sample_member_values lib (dm_array m) vs (Fin la) (Fin lo)")
  case (Inl e')
  with assms(1) have "e' = e" by (simp add: build_timeline_step_def)
  moreover obtain b where b: "lib_load_npy lib b = Inr (dm_array m)" using assms(3) by (auto simp: member_ok_def)
  ultimately show ?thesis
    using sample_member_values_Inl [OF Inl assms(2) b assms(4-6)] b by (auto simp: decoder_raises_def)
next
  case (Inr d)
  have "\<forall>v\<in>set REQUIRED_POINT_VARIABLES. \<exists>x. value_of d v = Inr x"
    using sample_member_values_keys [OF Inr assms(2)] by blast
  then obtain t2m w10m tcwv msl where "value_of d T2m = Inr t2m" "value_of d W10m = Inr w10m"
    "value_of d Tcwv = Inr tcwv" "value_of d Msl = Inr msl"
    by (auto simp: REQUIRED_POINT_VARIABLES_def)
  with Inr assms(1) have "plus_hours t (dm_lead_time_hours m) = Inl e"
    using timeline_step_of_valid member_ok_lead [OF assms(3)]
    by (auto simp: build_timeline_step_def bindE_Inl Let_def split: if_splits)
  then show ?thesis
    using member_ok_lead [OF assms(3)] assms(7) by (auto simp: plus_hours_def decoder_raises_def Let_def split: if_splits)
qed

lemma py_min_in:
  assumes "xs \<noteq> []"
  shows "py_min xs \<in> set xs"
proof -
  have "foldl (\<lambda>m x. if flt_lt x m then x else m) y ys \<in> insert y (set ys)" for y ys
  proof (induction ys arbitrary: y)
    case (Cons a ys)
    show ?case using Cons [of a] Cons [of y] by auto
  qed simp
  with assms show ?thesis by (cases xs) (auto simp: py_min_def)
qed

lemma build_signals_total:
  assumes "steps \<noteq> []" and "\<forall>s\<in>set steps. timeline_step_valid s"
  shows "\<exists>sigs. build_signals f steps = Inr sigs"
proof -
  have "py_min (map confidence steps) \<in> confidence ` set steps"
    using py_min_in [of "map confidence steps"] assms(1) by simp
  then obtain q where q: "py_min (map confidence steps) = Fin q" "0 \<le> q" "q \<le> 1"
    using assms(2) by (auto simp: timeline_step_valid_def flt_between_iff)
  have "is_double 100" using is_double_of_int [of 100] by simp
  moreover have "0 \<le> q * 100" "q * 100 \<le> 100" using q by simp_all
  ultimately obtain r where "fl64 (q * 100) = Fin r"
    by (rule fl64_between [OF is_double_0])
  with q show ?thesis by (simp add: build_signals_def Let_def)
qed

lemma build_summary_Inl:
  assumes "build_summary_from_tar_bytes lib now content req (Fin la) (Fin lo) g = Inl e"
    and "decoder_lib_ok lib" and "- 90 \<le> la" and "la \<le> 90" and "- 180 \<le> lo" and "lo \<le> 180"
    and "0 \<le> (case g of None \<Rightarrow> now | Some t \<Rightarrow> t)"
  shows "decoder_raises lib content (case g of None \<Rightarrow> now | Some t \<Rightarrow> t) e"
proof (cases "load_tar_members lib content")
  case (Inl e')
  with assms(1) show ?thesis
    by (auto simp: build_summary_from_tar_bytes_def load_tar_members_def decoder_raises_def Let_def
        split: if_splits sum.splits tar_failure.splits prod.splits)
next
  case (Inr p)
  obtain ms ws where p: "p = (ms, ws)" by fastforce
  let ?t = "case g of None \<Rightarrow> now | Some t \<Rightarrow> t"
  let ?build = "build_timeline_step lib (req_variables req) (Fin la) (Fin lo) ?t (length ws)"
  have ok: "member_ok lib m" if "m \<in> set (select_batch_members ms)" for m
    using load_tar_members_ok(1) [OF Inr [unfolded p]] select_batch_members_set(1) [OF that]
    by (simp add: list_all_iff)
  consider (refused) msg where "e = PostProcessingError msg"
    | (steps) "missing_variables (req_variables req) = []" "select_batch_members ms \<noteq> []"
        "bindE (mapE ?build (select_batch_members ms)) (\<lambda>steps. bindE (build_signals (lib_float_str lib) steps)
          (\<lambda>sigs. let s = summary_of_timeline lib ?t (Fin la) (Fin lo) steps sigs
                   in if forecast_summary_valid s then Inr s else Inl InvalidDocument)) = Inl e"
    using assms(1) Inr p by (auto simp: build_summary_from_tar_bytes_def Let_def split: if_splits)
  then show ?thesis
  proof cases
    case refused
    then show ?thesis by (simp add: decoder_raises_def)
  next
    case steps
    show ?thesis
    proof (cases "mapE ?build (select_batch_members ms)")
      case (Inl e')
      with steps(3) have "e' = e" by simp
      with mapE_Inl [OF Inl] obtain m where m: "m \<in> set (select_batch_members ms)" "?build m = Inl e"
        by blast
      show ?thesis
        by (rule build_timeline_step_Inl [OF m(2) assms(2) ok [OF m(1)] steps(1) assms(3,4,7)])
    next
      case (Inr xs)
      have "xs \<noteq> []" using steps(2) Inr by (cases "select_batch_members ms") (auto simp: bindE_Inr)
      have valid: "\<forall>x\<in>set xs. timeline_step_valid x"
        using mapE_in [OF Inr] build_timeline_step_Inr(1) [OF _ assms(2) ok] by blast
      then obtain sigs where "build_signals (lib_float_str lib) xs = Inr sigs"
        using build_signals_total \<open>xs \<noteq> []\<close> by blast
      with steps(3) Inr valid assms(3-6) show ?thesis
        by (auto simp: Let_def forecast_summary_valid_def summary_of_timeline_def flt_between_iff
            list_all_iff split: if_splits)
    qed
  qed
qed

section \<open>When a forecast is built\<close>

text \<open>An array that can be sampled for the given number of variables.\<close>

definition array_usable :: "nat \<Rightarrow> nd_array \<Rightarrow> bool" where
  "array_usable k a =
     (length (nd_shape a) \<in> {4, 5} \<and> 0 \<notin> set (nd_shape a) \<and>
      k \<le> nd_shape a ! (if length (nd_shape a) = 4 then 1 else 2) \<and>
      list_all flt_finite (nd_values a))"

lemma read_grid_value_total:
  assumes "array_usable k a" and "nd_ok a" and "v < k"
    and "i < nd_shape a ! (length (nd_shape a) - 2)" and "j < nd_shape a ! (length (nd_shape a) - 1)"
  shows "\<exists>x. read_grid_value a v i j = Inr x"
proof -
  let ?ix = "if length (nd_shape a) = 4 then [0, v, i, j] else [0, 0, v, i, j]"
  have v: "v < nd_shape a ! (if length (nd_shape a) = 4 then 1 else 2)"
    and len: "length (nd_shape a) \<in> {4, 5}"
    and pos: "0 \<notin> set (take (length (nd_shape a) - 3) (nd_shape a))"
    using assms(1,3) by (auto simp: array_usable_def dest: in_set_takeD)
  with nd_get_None [OF len v assms(4,5)] obtain x where x: "nd_get a ?ix = Some x" by fastforce
  then have "flt_finite x"
    using nd_get_in [OF assms(2) x] assms(1) by (simp add: array_usable_def list_all_iff)
  with x v show ?thesis by (simp add: read_grid_value_def Let_def)
qed

lemma build_timeline_step_total:
  assumes "decoder_lib_ok lib" and "member_ok lib m" and "array_usable (length vs) (dm_array m)"
    and "missing_variables vs = []" and "- 90 \<le> la" and "la \<le> 90"
    and "0 \<le> t" and "t + 999 * 3600 * 1000000 \<le> datetime_max"
  shows "\<exists>s. build_timeline_step lib vs (Fin la) (Fin lo) t n m = Inr s"
proof -
  let ?a = "dm_array m"
  let ?n = "nd_shape ?a ! (length (nd_shape ?a) - 2)" and ?m = "nd_shape ?a ! (length (nd_shape ?a) - 1)"
  have ok: "nd_ok ?a" "list_all (\<lambda>n. n < 2 ^ 63) (nd_shape ?a)"
    using assms(1,2) by (auto simp: decoder_lib_ok_def member_ok_def)
  have len: "length (nd_shape ?a) \<in> {4, 5}" using assms(3) by (simp add: array_usable_def)
  then have "?n \<in> set (nd_shape ?a)" "?m \<in> set (nd_shape ?a)" by auto
  moreover have "\<forall>n\<in>set (nd_shape ?a). 0 < n \<and> n < 2 ^ 63"
    using ok(2) assms(3) by (metis array_usable_def list_all_iff neq0_conv)
  ultimately have dims: "0 < ?n" "?n < 2 ^ 63" "0 < ?m" "?m < 2 ^ 63" by blast+
  obtain i j where ij: "grid_indices ?a (Fin la) (Fin lo) = Inr (i, j)"
    using grid_indices_total [OF assms(5,6) dims] by blast
  have "\<exists>d. mapE (\<lambda>v. case index_of v vs of None \<Rightarrow> Inl (VariableMissing v)
      | Some k \<Rightarrow> bindE (read_grid_value ?a k i j) (\<lambda>x. Inr (v, x))) (lib_variable_order lib) = Inr d"
  proof (rule mapE_total)
    fix v assume "v \<in> set (lib_variable_order lib)"
    with assms(1) have "v \<in> set REQUIRED_POINT_VARIABLES" by (simp add: decoder_lib_ok_def)
    then obtain k where k: "k < length vs" "index_of v vs = Some k"
      using missing_variables_index [OF assms(4)] by blast
    with read_grid_value_total [OF assms(3) ok(1) k(1) grid_indices_in_range [OF ij]]
    show "\<exists>y. (case index_of v vs of None \<Rightarrow> Inl (VariableMissing v)
      | Some k \<Rightarrow> bindE (read_grid_value ?a k i j) (\<lambda>x. Inr (v, x))) = Inr y" by auto
  qed
  then obtain d where d: "sample_member_values lib ?a vs (Fin la) (Fin lo) = Inr d"
    using ij len by (auto simp: sample_member_values_def)
  have "\<forall>v\<in>set REQUIRED_POINT_VARIABLES. \<exists>x. value_of d v = Inr x"
    using sample_member_values_keys [OF d assms(1)] by blast
  then obtain t2m w10m tcwv msl where "value_of d T2m = Inr t2m" "value_of d W10m = Inr w10m"
    "value_of d Tcwv = Inr tcwv" "value_of d Msl = Inr msl"
    by (auto simp: REQUIRED_POINT_VARIABLES_def)
  moreover have "plus_hours t (dm_lead_time_hours m) = Inr (t + dm_lead_time_hours m * 3600 * 1000000)"
    using member_ok_lead [OF assms(2)] assms(7,8) by (simp add: plus_hours_def)
  ultimately show ?thesis
    using d timeline_step_of_valid member_ok_lead [OF assms(2)]
    by (simp add: build_timeline_step_def Let_def)
qed

lemma build_summary_total:
  assumes "load_tar_members lib content = Inr (ms, ws)" and "ms \<noteq> []" and "decoder_lib_ok lib"
    and "\<forall>m\<in>set (select_batch_members ms). array_usable (length (req_variables req)) (dm_array m)"
    and "missing_variables (req_variables req) = []"
    and "- 90 \<le> la" and "la \<le> 90" and "- 180 \<le> lo" and "lo \<le> 180"
    and "0 \<le> t" and "t + 999 * 3600 * 1000000 \<le> datetime_max"
    and "t = (case g of None \<Rightarrow> now | Some u \<Rightarrow> u)"
  shows "\<exists>s. build_summary_from_tar_bytes lib now content req (Fin la) (Fin lo) g = Inr s"
proof -
  let ?build = "build_timeline_step lib (req_variables req) (Fin la) (Fin lo) t (length ws)"
  have ok: "member_ok lib m" if "m \<in> set (select_batch_members ms)" for m
    using load_tar_members_ok(1) [OF assms(1)] select_batch_members_set(1) [OF that]
    by (simp add: list_all_iff)
  have "\<exists>xs. mapE ?build (select_batch_members ms) = Inr xs"
    using build_timeline_step_total [OF assms(3) ok _ assms(5-7,10,11)] assms(4)
    by (intro mapE_total) blast
  then obtain xs where xs: "mapE ?build (select_batch_members ms) = Inr xs" by blast
  have sel: "select_batch_members ms \<noteq> []" using assms(2) by (simp add: select_batch_members_nonempty)
  then have "xs \<noteq> []" using xs by (cases "select_batch_members ms") (auto simp: bindE_Inr)
  have valid: "\<forall>x\<in>set xs. timeline_step_valid x"
    using mapE_in [OF xs] build_timeline_step_Inr(1) [OF _ assms(3) ok] by blast
  then obtain sigs where "build_signals (lib_float_str lib) xs = Inr sigs"
    using build_signals_total \<open>xs \<noteq> []\<close> by blast
  with xs sel valid assms(1,5-9,12) show ?thesis
    by (simp add: build_summary_from_tar_bytes_def Let_def forecast_summary_valid_def
        summary_of_timeline_def flt_between_iff list_all_iff)
qed

section \<open>The quarter-degree grid\<close>

text \<open>Rounding a position on the quarter-degree grid: the nearest node.\<close>

lemma grid_round_quarter:
  assumes "is_double p" and "0 \<le> p" and "p \<le> 360"
  obtains i where "grid_round (Fin p) (Fin (1 / 4)) = Inr i" and "0 \<le> i"
    and "\<bar>of_int i / 4 - p\<bar> \<le> 1 / 8" and "of_int i \<le> 4 * p + 1 / 2"
proof -
  have "fl64 p = Fin p" using assms(1) by (simp add: is_double_def)
  moreover have "\<bar>p\<bar> \<le> 2 powi 1000" using assms(2,3) by simp
  ultimately have "fl64 (4 * p) = Fin (4 * p)" by (rule fl64_times4)
  then have "grid_round (Fin p) (Fin (1 / 4)) = Inr (round_half_even (4 * p))"
    by (simp add: grid_round_def mult.commute)
  moreover have "0 \<le> round_half_even (4 * p)" using assms(2) by (intro round_half_even_ge) simp
  moreover have "of_int (round_half_even (4 * p)) - 4 * p \<le> 1 / 2"
    and "- (1 / 2) \<le> of_int (round_half_even (4 * p)) - 4 * p"
    using round_half_even_dist [of "4 * p"] by (simp_all only: abs_le_iff) linarith
  moreover from this have "\<bar>of_int (round_half_even (4 * p)) / 4 - p\<bar> \<le> 1 / 8"
    and "of_int (round_half_even (4 * p)) \<le> 4 * p + 1 / 2" by linarith+
  ultimately show thesis by (intro that) simp_all
qed

text \<open>The column of a longitude: the remainder is the longitude itself or rounded once.\<close>

lemma flt_mod_360:
  assumes "is_double lo" and "- 180 \<le> lo" and "lo \<le> 180"
  obtains p where "flt_mod (Fin lo) 360 = Fin p" and "is_double p" and "0 \<le> p" and "p \<le> 360"
    and "\<bar>p - (if lo < 0 then lo + 360 else lo)\<bar> \<le> 2 powi (- 45)"
proof (cases "lo < 0")
  case False
  then have "\<lfloor>lo / 360\<rfloor> = 0" using assms(3) by (intro floor_unique) simp_all
  with False assms(3) show thesis by (intro that [of lo]) (simp_all add: trunc_rem_def assms(1))
next
  case True
  then have "\<lceil>lo / 360\<rceil> = 0" using assms(2) by (intro ceiling_unique) simp_all
  with True have mod: "flt_mod (Fin lo) 360 = fl64 (lo + 360)" by (simp add: trunc_rem_def Let_def)
  have "0 \<le> lo + 360" "lo + 360 \<le> 360" using True assms(2) by simp_all
  with is_double_0 is_double_360 obtain p where p: "fl64 (lo + 360) = Fin p" "0 \<le> p" "p \<le> 360" "is_double p"
    by (rule fl64_between)
  moreover have "\<bar>p - (lo + 360)\<bar> \<le> 2 powi (- 45)"
    using fl64_error [OF p(1), of 9] True assms(2) by simp
  ultimately show thesis using mod True by (intro that [of p]) simp_all
qed

lemma quarter_grid_nearest:
  assumes "nd_shape a ! (length (nd_shape a) - 2) = 721" and "nd_shape a ! (length (nd_shape a) - 1) = 1440"
    and "is_double la" and "- 90 \<le> la" and "la \<le> 90" and "is_double lo" and "- 180 \<le> lo" and "lo \<le> 180"
  obtains i j where "grid_indices a (Fin la) (Fin lo) = Inr (i, j)" and "i \<le> 720" and "j < 1440"
    and "\<bar>(90 - of_nat i / 4) - la\<bar> \<le> 1 / 8 + 2 powi (- 45)"
    and "\<exists>k\<in>{- 360, 0, 360}. \<bar>of_nat j / 4 + k - lo\<bar> \<le> 1 / 8 + 2 powi (- 45)"
proof -
  have "0 \<le> 90 - la" "90 - la \<le> 180" using assms(4,5) by simp_all
  with is_double_0 is_double_180 obtain u where u: "fl64 (90 - la) = Fin u" "0 \<le> u" "u \<le> 180" "is_double u"
    by (rule fl64_between)
  have row_err: "\<bar>u - (90 - la)\<bar> \<le> 2 powi (- 45)"
    using fl64_error [OF u(1), of 9] assms(4,5) by simp
  obtain i where i: "grid_round (Fin u) (Fin (1 / 4)) = Inr i" "0 \<le> i" "\<bar>of_int i / 4 - u\<bar> \<le> 1 / 8"
    "of_int i \<le> 4 * u + 1 / 2"
    using grid_round_quarter [of u] u by auto
  have "(of_int i :: rat) < of_int 721" using i(4) u(3) by simp
  then have i': "i < 721" by (simp only: of_int_less_iff)
  obtain p where p: "flt_mod (Fin lo) 360 = Fin p" "is_double p" "0 \<le> p" "p \<le> 360"
    "\<bar>p - (if lo < 0 then lo + 360 else lo)\<bar> \<le> 2 powi (- 45)"
    using assms(6-8) by (rule flt_mod_360)
  obtain j where j: "grid_round (Fin p) (Fin (1 / 4)) = Inr j" "0 \<le> j" "\<bar>of_int j / 4 - p\<bar> \<le> 1 / 8"
    "of_int j \<le> 4 * p + 1 / 2"
    using grid_round_quarter [OF p(2-4)] by auto
  have "(of_int j :: rat) < of_int 1441" using j(4) p(4) by simp
  then have j': "j < 1441" by (simp only: of_int_less_iff)
  have grid: "grid_indices a (Fin la) (Fin lo) = Inr (nat i, nat (j mod 1440))"
    using assms(1,2) u(1) i i' p(1) j(1) fl64_quarter
    by (simp add: grid_indices_def Let_def flt_sub_def clamp_index_def min_def max_def nat_eq_iff)
      (smt (verit) pos_mod_bound pos_mod_sign)
  show thesis
  proof (rule that [OF grid])
    show "nat i \<le> 720" using i' i(2) by simp
    show "nat (j mod 1440) < 1440" by (simp add: nat_less_iff)
    show "\<bar>(90 - of_nat (nat i) / 4) - la\<bar> \<le> 1 / 8 + 2 powi (- 45)"
    proof -
      have "of_nat (nat i) = (of_int i :: rat)" using i(2) by simp
      then show ?thesis
        using i(3) row_err unfolding abs_le_iff by linarith
    qed
    show "\<exists>k\<in>{- 360, 0, 360}. \<bar>of_nat (nat (j mod 1440)) / 4 + k - lo\<bar> \<le> 1 / 8 + 2 powi (- 45)"
    proof (cases "j = 1440")
      case True
      have "(2::rat) powi (- 45) \<le> 1" by (simp add: power_int_def power_one_over)
      moreover have "of_int j / 4 - p \<le> 1 / 8" using j(3) unfolding abs_le_iff by blast
      moreover have "p - (if lo < 0 then lo + 360 else lo) \<le> 2 powi (- 45)"
        using p(5) unfolding abs_le_iff by blast
      ultimately have "lo < 0" using True assms(8) by (cases "lo < 0") simp_all
      with True j(3) p(5) have "\<bar>of_nat (nat (j mod 1440)) / 4 + 0 - lo\<bar> \<le> 1 / 8 + 2 powi (- 45)"
        unfolding abs_le_iff by simp
      then show ?thesis by blast
    next
      case False
      with j(2) j' have "of_nat (nat (j mod 1440)) = (of_int j :: rat)" by simp
      then have "\<bar>of_nat (nat (j mod 1440)) / 4 + (if lo < 0 then - 360 else 0) - lo\<bar> \<le> 1 / 8 + 2 powi (- 45)"
        using j(3) p(5) unfolding abs_le_iff by (cases "lo < 0") (simp_all only: if_True if_False, linarith+)
      then show ?thesis by (cases "lo < 0") auto
    qed
  qed
qed

end
