(* ===== verification/Nim_Client_Correct.thy ===== *)
theory Nim_Client_Correct imports
  Nim_Client
begin

text \<open>
  Facts about the client: how many requests a run sends and to whom, and that the diagnostics of its
  exceptions can be recorded with a job.
\<close>

section \<open>The requests of a run\<close>

lemma client_send_run:
  assumes "client_send transport q s = (r, s')"
  shows "sent s' = sent s @ [q]" and "sleeps s' = sleeps s"
  using assms by (auto simp: client_send_def transport_send_def Let_def split: prod.splits sum.splits)

lemma sleep_interval_run:
  assumes "sleep_interval c s = (r, s')"
  shows "r = Inr ()" and "sent s' = sent s" and "sleeps s' \<le> sleeps s + 1"
  using assms by (auto simp: sleep_interval_def split: if_splits)

text \<open>The polling loop asks at most as often as there are attempts left, each time for the status
  of one request, and sleeps at most once before each.\<close>

definition polls :: "nim_client \<Rightarrow> poll_headers \<Rightarrow> client_request list \<Rightarrow> bool" where
  "polls c h qs = (\<forall>q\<in>set qs. \<exists>rid. q = status_request c h rid)"

lemma poll_loop_log:
  assumes "poll_loop c transport h p s = (r, s')"
  shows "\<exists>qs. sent s' = sent s @ qs \<and> polls c h qs \<and>
    length qs \<le> nat (max_poll_attempts c - ps_poll_attempts p) \<and>
    sleeps s' \<le> sleeps s + length qs \<and>
    (\<forall>p'. r = Inr p' \<longrightarrow> ps_poll_attempts p' = ps_poll_attempts p + int (length qs) \<and>
       hr_status (ps_response p') \<noteq> 202)"
  using assms
proof (induction c transport h p arbitrary: s rule: poll_loop.induct)
  case (1 c transport h p)
  note run = 1(2) [unfolded poll_loop.simps [of c transport h p]]
  show ?case
  proof (cases "hr_status (ps_response p) = 202 \<and> poll_refused c (learn_ids p) = None")
    case False
    with run have "s' = s" "\<And>p'. r = Inr p' \<Longrightarrow> p' = p \<and> hr_status (ps_response p) \<noteq> 202"
      by (auto split: if_splits option.splits)
    then show ?thesis by (intro exI [of _ "[]"]) (auto simp: polls_def)
  next
    case True
    then have left: "0 < max_poll_attempts c - ps_poll_attempts p"
      by (auto simp: poll_refused_def learn_ids_def Let_def split: option.splits if_splits)
    let ?rid = "the (ps_request_id (learn_ids p))"
    obtain s1 where sl: "sleep_interval c s = (Inr (), s1)"
      using sleep_interval_run(1) by (metis surj_pair)
    obtain x s2 where rq: "client_send transport (status_request c h ?rid) s1 = (x, s2)" by fastforce
    have L: "sent s2 = sent s @ [status_request c h ?rid]" "sleeps s2 \<le> sleeps s + 1"
      using client_send_run [OF rq] sleep_interval_run [OF sl] by auto
    show ?thesis
    proof (cases x)
      case (Inl e)
      with run True sl rq have "s' = s2" "r = Inl e" by (auto simp: bindM_def)
      with L left show ?thesis by (intro exI [of _ "[status_request c h ?rid]"]) (auto simp: polls_def)
    next
      case (Inr y)
      with run True sl rq have "poll_loop c transport h (polled (learn_ids p) y) s2 = (r, s')"
        by (auto simp: bindM_def)
      from 1(1) [OF _ _ this] True obtain qs' where l: "sent s' = sent s2 @ qs'" "polls c h qs'"
        "length qs' \<le> nat (max_poll_attempts c - (ps_poll_attempts p + 1))"
        "sleeps s' \<le> sleeps s2 + length qs'"
        "\<forall>p'. r = Inr p' \<longrightarrow> ps_poll_attempts p' = ps_poll_attempts p + 1 + int (length qs') \<and>
           hr_status (ps_response p') \<noteq> 202"
        by (auto simp: polled_def learn_ids_def)
      with L left show ?thesis
        by (intro exI [of _ "status_request c h ?rid # qs'"]) (auto simp: polls_def)
    qed
  qed
qed

lemma download_url_log:
  assumes "download_url lib transport url s = (r, s')"
  shows "sent s' = sent s @ [get_request url [] True] \<and> sleeps s' = sleeps s"
  using assms client_send_run [of transport "get_request url [] True" s]
  by (auto simp: download_url_def bindM_def split: prod.splits sum.splits if_splits)

lemma download_large_response_log:
  assumes "download_large_response lib transport x s = (r, s')"
  shows "(s' = s \<and> isl r \<or> (\<exists>url. sent s' = sent s @ [get_request url [] True])) \<and> sleeps s' = sleeps s"
  using assms download_url_log [of lib transport _ s r s']
  by (auto simp: download_large_response_def Let_def split: option.splits)

text \<open>A run of the client: the inference request, the polls, and at most one download.\<close>

definition download_log :: "client_request list \<Rightarrow> bool" where
  "download_log qs = (qs = [] \<or> (\<exists>url. qs = [get_request url [] True]))"

lemma resolve_hosted_response_log:
  assumes "resolve_hosted_response lib c transport h payload x s = (r, s')"
  shows "\<exists>ps dl. sent s' = sent s @ ps @ dl \<and> polls c h ps \<and> download_log dl \<and>
    length ps \<le> nat (max_poll_attempts c) \<and> sleeps s' \<le> sleeps s + length ps \<and>
    (\<forall>res. r = Inr res \<longrightarrow> res_poll_attempts res = int (length ps))"
  using assms unfolding resolve_hosted_response_def
proof (cases rule: bindM_cases)
  case (raised e)
  from poll_loop_log [OF this(1)] obtain ps where "sent s' = sent s @ ps" "polls c h ps"
    "length ps \<le> nat (max_poll_attempts c)" "sleeps s' \<le> sleeps s + length ps" by auto
  with raised(2) show ?thesis
    by (intro exI [of _ ps] exI [of _ "[]"]) (auto simp: download_log_def)
next
  case (returned p s1)
  from poll_loop_log [OF this(1)] obtain ps where ps: "sent s1 = sent s @ ps" "polls c h ps"
    "length ps \<le> nat (max_poll_attempts c)" "sleeps s1 \<le> sleeps s + length ps"
    "ps_poll_attempts p = int (length ps)" by auto
  have "\<exists>dl. sent s' = sent s1 @ dl \<and> download_log dl \<and> sleeps s' = sleeps s1 \<and>
      (\<forall>res. r = Inr res \<longrightarrow> res_poll_attempts res = int (length ps))"
    using returned(2) ps(5)
    by (auto simp: download_log_def build_hosted_result_def Let_def bindM_def
        split: if_splits prod.splits sum.splits option.splits
        dest!: download_url_log download_large_response_log)
  then obtain dl where "sent s' = sent s1 @ dl" "download_log dl" "sleeps s' = sleeps s1"
    "\<forall>res. r = Inr res \<longrightarrow> res_poll_attempts res = int (length ps)" by blast
  with ps show ?thesis by (intro exI [of _ ps] exI [of _ dl]) auto
qed

lemma run_hosted_inference_log:
  assumes "run_hosted_inference lib c transport req s = (r, s')"
  shows "sent s' = sent s \<and> sleeps s' = sleeps s \<or>
    (\<exists>key ps dl. api_key c = Some key \<and> sent s' = sent s @ post_request c key req # ps @ dl \<and>
       polls c (headers_of key req) ps \<and> download_log dl \<and>
       length ps \<le> nat (max_poll_attempts c) \<and> sleeps s' \<le> sleeps s + length ps)"
proof (cases "client_mode c = Hosted \<and> opt_or (api_key c) None \<noteq> None")
  case False
  with assms show ?thesis
    by (auto simp: run_hosted_inference_def split: if_splits option.splits)
next
  case True
  then obtain key where key: "api_key c = Some key" "opt_or (api_key c) None = Some key"
    by (auto simp: opt_or_def split: option.splits if_splits)
  let ?m = "bindM (client_send transport (post_request c key req)) (\<lambda>response.
      resolve_hosted_response lib c transport (headers_of key req) (build_hosted_inference_payload req) response)"
  obtain r1 where r1: "?m s = (r1, s')"
    using assms True key
    by (auto simp: run_hosted_inference_def catchM_def Let_def split: prod.splits sum.splits nim_error.splits)
  then show ?thesis
  proof (cases rule: bindM_cases)
    case (raised e)
    from client_send_run [OF this(1)] key show ?thesis
      by (intro disjI2 exI [of _ key] exI [of _ "[]"]) (auto simp: polls_def download_log_def)
  next
    case (returned x s1)
    from client_send_run [OF this(1)] resolve_hosted_response_log [OF this(2)] key show ?thesis by fastforce
  qed
qed

section \<open>The exceptions of a run\<close>

text \<open>The dicts that \<open>ForecastJobDiagnostics(**d)\<close> accepts.\<close>

definition diag_typed :: "diag_dict \<Rightarrow> bool" where
  "diag_typed d =
     ((\<forall>k\<in>{''provider'', ''response_source'', ''cache_status'', ''cached_artifact_id'',
           ''nvcf_request_id'', ''nvcf_status'', ''sha256'', ''message''}.
         opt_str_field (map_of d k) \<noteq> None) \<and>
      int_field 0 (map_of d ''poll_attempts'') \<noteq> None \<and>
      bool_field False (map_of d ''response_reference_present'') \<noteq> None \<and>
      opt_int_field (map_of d ''byte_length'') \<noteq> None)"

lemma diag_typed_iff: "diag_typed d \<longleftrightarrow> \<not> isl (diagnostics_of_dict d)"
  by (auto simp: diag_typed_def diagnostics_of_dict_def Let_def split: option.splits)

lemma diag_typed_update:
  assumes "diag_typed d" and "k \<in> {''provider'', ''message''}"
  shows "diag_typed (AList.update k (DStr s) d)"
  using assms by (auto simp: diag_typed_def)

lemma opt_str_field_or: "opt_str_field v \<noteq> None \<Longrightarrow> \<exists>s'. dict_or v (DStr s) = DStr s'"
  by (cases v rule: opt_str_field.cases) (simp_all add: dict_or_def)

lemma diag_typed_or:
  "diag_typed d \<Longrightarrow> k \<in> {''provider'', ''message''} \<Longrightarrow> \<exists>s'. dict_or (map_of d k) (DStr s) = DStr s'"
  unfolding diag_typed_def by (rule opt_str_field_or) (elim insertE emptyE conjE; simp)

lemma opt_value_typed [simp]: "opt_str_field (Some (opt_value x)) = Some x"
  by (cases x) simp_all

definition nim_error_typed :: "nim_error \<Rightarrow> bool" where
  "nim_error_typed e = (case e of InferenceError m d \<Rightarrow> diag_typed d | _ \<Rightarrow> True)"

lemma inference_error_typed: "diag_typed d \<Longrightarrow> nim_error_typed (inference_error m d)"
  by (auto simp: nim_error_typed_def inference_error_def diag_typed_def)

lemma client_send_error_typed: "client_send transport q s = (Inl e, s') \<Longrightarrow> nim_error_typed e"
  by (auto simp: client_send_def nim_error_typed_def split: prod.splits sum.splits nim_error.splits elim!: nim_error_of.elims)

lemma build_error_diagnostics_typed: "diag_typed (build_error_diagnostics lib pre r i n a src ref)"
  by (simp add: diag_typed_def build_error_diagnostics_def)

lemma poll_refused_typed: "poll_refused c p = Some e \<Longrightarrow> nim_error_typed e"
  by (auto simp: poll_refused_def Let_def diag_typed_def split: option.splits if_splits
      intro!: inference_error_typed)

lemma poll_loop_typed: "poll_loop c transport h p s = (Inl e, s') \<Longrightarrow> nim_error_typed e"
proof (induction c transport h p arbitrary: s rule: poll_loop.induct)
  case (1 c transport h p)
  note run = 1(2) [unfolded poll_loop.simps [of c transport h p]]
  show ?case
  proof (cases "hr_status (ps_response p) = 202 \<and> poll_refused c (learn_ids p) = None")
    case False
    with run poll_refused_typed show ?thesis by (auto split: if_splits option.splits)
  next
    case True
    then show ?thesis
      using run 1(1) [OF _ _] client_send_error_typed
      by (auto simp: bindM_def split: prod.splits sum.splits dest!: sleep_interval_run(1))
  qed
qed

lemma download_url_typed: "download_url lib transport url s = (Inl e, s') \<Longrightarrow> nim_error_typed e"
  by (auto simp: download_url_def bindM_def build_error_diagnostics_typed
      split: prod.splits sum.splits if_splits intro!: inference_error_typed dest: client_send_error_typed)

lemma download_large_response_typed:
  "download_large_response lib transport x s = (Inl e, s') \<Longrightarrow> nim_error_typed e"
  by (auto simp: download_large_response_def Let_def diag_typed_def
      split: option.splits intro!: inference_error_typed dest: download_url_typed)

lemma resolve_hosted_response_typed:
  assumes "resolve_hosted_response lib c transport h payload x s = (Inl e, s')"
  shows "nim_error_typed e"
  using assms unfolding resolve_hosted_response_def
proof (cases rule: bindM_cases)
  case (raised e')
  then show ?thesis using poll_loop_typed by auto
next
  case (returned p s1)
  then show ?thesis
    using download_url_typed download_large_response_typed
    by (auto simp: Let_def bindM_def build_error_diagnostics_typed
        split: if_splits option.splits prod.splits sum.splits intro!: inference_error_typed)
qed

lemma run_hosted_inference_typed:
  assumes "run_hosted_inference lib c transport req s = (Inl e, s')"
  shows "nim_error_typed e" and "\<nexists>n m. e = HttpErrorRaised n m"
proof -
  have refused: "nim_error_typed (inference_error m []) \<and> (\<nexists>n k. inference_error m [] = HttpErrorRaised n k)" for m
    by (simp add: nim_error_typed_def inference_error_def diag_typed_def)
  let ?m = "\<lambda>key. bindM (client_send transport (post_request c key req)) (\<lambda>response.
      resolve_hosted_response lib c transport (headers_of key req) (build_hosted_inference_payload req) response)"
  have inner: "nim_error_typed e'" if "?m key s = (Inl e', s'')" for key e' s''
    using that by (rule bindM_cases)
      (auto dest: client_send_error_typed resolve_hosted_response_typed)
  have "nim_error_typed e \<and> (\<nexists>n m. e = HttpErrorRaised n m)"
  proof (cases "client_mode c = Hosted \<and> opt_or (api_key c) None \<noteq> None")
    case False
    with assms refused show ?thesis
      by (auto simp: run_hosted_inference_def split: if_splits option.splits)
  next
    case True
    then obtain key where key: "opt_or (api_key c) None = Some key" by blast
    show ?thesis
    proof (cases "?m key s")
      case (Pair r s1)
      show ?thesis
      proof (cases r)
        case (Inl e')
        with Pair inner have "nim_error_typed e'" by blast
        with assms True key Pair Inl show ?thesis
          by (cases e') (auto simp: run_hosted_inference_def catchM_def inference_error_def
              nim_error_typed_def diag_typed_def Let_def)
      next
        case (Inr x)
        with assms True key Pair show ?thesis by (simp add: run_hosted_inference_def catchM_def)
      qed
    qed
  qed
  then show "nim_error_typed e" and "\<nexists>n m. e = HttpErrorRaised n m" by blast+
qed

end
