(* ===== verification/FourCastNet_Provider_Correct.thy ===== *)
theory FourCastNet_Provider_Correct imports
  FourCastNet_Provider
  Decoder_Forecast
  Nim_Client_Correct
  Job_System
begin

text \<open>
  Facts about the provider: whatever the service, the cache and the archive hold, what it answers can
  be recorded with a job; and what the cache stored is served again without a request.
\<close>

section \<open>What the provider answers can be recorded\<close>

lemma failure_diagnostics_typed:
  assumes "diag_typed d"
  shows "\<not> isl (failure_diagnostics (Some d))"
proof -
  obtain s where "dict_or (map_of d ''message'') (DStr ''Forecast job failed.'') = DStr s"
    using diag_typed_or [OF assms, of "''message''"] by blast
  then show ?thesis
    using diag_typed_update [OF assms, of "''message''" s] by (simp add: failure_diagnostics_def diag_typed_iff)
qed

lemma unavailable_answer_ok:
  assumes "diag_typed d"
  shows "answer_ok (Inl (provider_unavailable m d))"
proof -
  have "diag_typed [(''message'', DStr m)]" by (simp add: diag_typed_def)
  with assms show ?thesis by (simp add: provider_unavailable_def answer_ok_def failure_diagnostics_typed)
qed

lemma client_error_diagnostics_typed:
  assumes "diag_typed d"
  shows "diag_typed (client_error_diagnostics m d)"
proof -
  obtain p where p: "dict_or (map_of d ''provider'') (DStr ''fourcastnet'') = DStr p"
    using diag_typed_or [OF assms, of "''provider''"] by blast
  obtain s where s: "dict_or (map_of d ''message'') (DStr m) = DStr s"
    using diag_typed_or [OF assms, of "''message''"] by blast
  have "diag_typed (AList.update ''provider'' (DStr p) d)" using diag_typed_update [OF assms] by simp
  from diag_typed_update [OF this, of "''message''" s] show ?thesis
    by (simp add: client_error_diagnostics_def p s)
qed

lemma result_diagnostics_typed: "diag_typed (build_result_diagnostics r)"
  by (simp add: diag_typed_def build_result_diagnostics_def)

lemma success_diagnostics_typed:
  assumes "diag_typed (result_diagnostics r)"
  shows "\<not> isl (success_diagnostics r)"
  using diag_typed_update [OF assms, of "''message''" "''Forecast summary is ready.''"]
  by (simp add: success_diagnostics_def diag_typed_iff)

text \<open>The errors that reach the boundary of the provider before they are translated.\<close>

definition fcn_error_ok :: "fcn_error \<Rightarrow> bool" where
  "fcn_error_ok e =
     (case e of ClientError n \<Rightarrow> nim_error_typed n
      | Unavailable p \<Rightarrow> answer_ok (Inl p)
      | _ \<Rightarrow> True)"

lemma answer_ok_other: "answer_ok (Inl (OtherProviderError m))"
  by (simp add: answer_ok_def)

lemma answer_ok_error_of:
  "(\<And>p. e = Unavailable p \<Longrightarrow> answer_ok (Inl p)) \<Longrightarrow> answer_ok (Inl (provider_error_of e))"
  by (cases e rule: provider_error_of.cases) (simp_all add: answer_ok_other)

lemma fcn_error_translated:
  assumes "fcn_error_ok e"
  shows "answer_ok (fcn_answer (Inl (fcn_translate e)))"
  using assms
proof (cases e rule: fcn_translate.cases)
  case (1 m d)
  with assms have "diag_typed d" by (simp add: fcn_error_ok_def nim_error_typed_def)
  from unavailable_answer_ok [OF client_error_diagnostics_typed [OF this]] show ?thesis
    by (simp add: 1 fcn_answer_def unavailable_def)
next
  case (2 m)
  have "diag_typed (decoder_error_diagnostics m)" by (simp add: diag_typed_def decoder_error_diagnostics_def)
  from unavailable_answer_ok [OF this] show ?thesis by (simp add: 2 fcn_answer_def unavailable_def)
qed (use assms answer_ok_error_of [of e] in \<open>simp_all add: fcn_answer_def fcn_error_ok_def\<close>)

lemma liftS_Inl: "liftS f m s = (Inl e, s') \<longleftrightarrow> (\<exists>e'. m s = (Inl e', s') \<and> e = f e')"
  by (auto simp: liftS_def split: prod.splits sum.splits)

lemma liftS_Inr: "liftS f m s = (Inr x, s') \<longleftrightarrow> m s = (Inr x, s')"
  by (auto simp: liftS_def split: prod.splits sum.splits)

lemma run_inference_with_cache_error:
  assumes "run_inference_with_cache f req s = (Inl e, s')"
  shows "fcn_error_ok e"
  using assms unfolding run_inference_with_cache_def Let_def
proof (cases rule: bindM_cases)
  case (raised e')
  then show ?thesis by (auto simp: liftS_Inl fcn_error_ok_def split: if_splits)
next
  case (returned cached s1)
  show ?thesis
  proof (cases cached)
    case (Some p)
    with returned(2) show ?thesis by (cases p) simp
  next
    case None
    with returned(2) have "bindM (liftS ClientError (run_hosted_inference (nim_lib.truncate (fp_lib f))
        (fp_client f) (fp_transport f) req)) (\<lambda>result.
          if \<not> fp_cached f then returnM (result\<lparr>res_cache_status := CacheDisabled\<rparr>)
          else
            bindM (liftS CacheError (cache_save (fp_lib f) (build_hosted_inference_payload req) (req_accept req) result)) (\<lambda>r.
            case r of
              Some c \<Rightarrow> returnM (result\<lparr>res_cache_status := CacheStored,
                                       res_cached_artifact_id := Some (cr_key c)\<rparr>)
            | None \<Rightarrow> returnM (result\<lparr>res_cache_status := CacheMiss\<rparr>))) s1 = (Inl e, s')" by simp
    then show ?thesis
    proof (cases rule: bindM_cases)
      case (raised e')
      then show ?thesis using run_hosted_inference_typed(1) by (auto simp: liftS_Inl fcn_error_ok_def)
    next
      case (returned result s2)
      then show ?thesis
        by (auto simp: bindM_def liftS_def fcn_error_ok_def split: if_splits prod.splits sum.splits option.splits)
    qed
  qed
qed

lemma build_summary_hosted_Inr:
  assumes "build_summary_from_hosted_result lib now result req la lo g = Inr s" and "decoder_lib_ok lib"
  shows "storable_summary s"
  using assms build_summary_Inr [OF _ assms(2)]
  by (auto simp: build_summary_from_hosted_result_def split: if_splits option.splits)

lemma point_forecast_body_ok:
  assumes "point_forecast_body f la lo s = (r, s')" and "decoder_lib_ok (fp_decoder f)"
  shows "case r of Inl e \<Rightarrow> fcn_error_ok e
    | Inr x \<Rightarrow> storable_summary (result_summary x) \<and> diag_typed (result_diagnostics x)"
  using assms(1) unfolding point_forecast_body_def
proof (cases rule: bindM_cases)
  case (raised e)
  then show ?thesis using run_inference_with_cache_error by simp
next
  case (returned result s1)
  have "diag_typed (AList.update ''message'' (DStr LARGE_ASSET) (build_result_diagnostics result))"
    by (rule diag_typed_update [OF result_diagnostics_typed]) simp
  from unavailable_answer_ok [OF this] have large:
    "fcn_error_ok (unavailable LARGE_ASSET (AList.update ''message'' (DStr LARGE_ASSET) (build_result_diagnostics result)))"
    by (simp add: fcn_error_ok_def unavailable_def)
  show ?thesis
  proof (cases "opt_str_or (res_large_asset_message result) [] \<noteq> []")
    case True
    with returned(2) large show ?thesis by auto
  next
    case False
    with returned(2) build_summary_hosted_Inr [OF _ assms(2)] show ?thesis
      by (auto simp: bindM_def clock_read_def liftS_def result_diagnostics_typed fcn_error_ok_def
          split: sum.splits)
  qed
qed

lemma fcn_answer_recordable:
  assumes "get_point_forecast_with_diagnostics f la lo s = (r, s')" and "decoder_lib_ok (fp_decoder f)"
  shows "answer_ok (fcn_answer r)"
  using assms(1) unfolding get_point_forecast_with_diagnostics_def
proof (cases rule: bindM_cases)
  case (raised e)
  then obtain n where "e = ClientError n" "\<nexists>m d. n = InferenceError m d"
    by (auto simp: fcn_get_status_def bindM_def liftS_def get_readiness_status_def catchM_def client_send_def
        Let_def split: if_splits prod.splits sum.splits nim_error.splits elim!: nim_error_of.elims)
  then show ?thesis using raised(2)
    by (cases n) (simp_all add: fcn_answer_def answer_ok_other)
next
  case (returned st s1)
  show ?thesis
  proof (cases "supports_point_forecast st")
    case False
    have "diag_typed []" by (simp add: diag_typed_def)
    from unavailable_answer_ok [OF this] returned(2) False show ?thesis
      by (auto simp: fcn_answer_def unavailable_def)
  next
    case True
    with returned(2) have "catchM (point_forecast_body f la lo) (\<lambda>e. raiseM (fcn_translate e)) s1 = (r, s')" by simp
    then show ?thesis
    proof (cases rule: catchM_cases)
      case (raised e s2)
      with point_forecast_body_ok [OF raised(1) assms(2)] fcn_error_translated show ?thesis by auto
    next
      case (returned x)
      with point_forecast_body_ok [OF returned(1) assms(2)] success_diagnostics_typed show ?thesis
        by (auto simp: fcn_answer_def answer_ok_def)
    qed
  qed
qed

section \<open>The cache\<close>

text \<open>What the code relies on: a digest is a safe key, and what \<open>json.dumps\<close> writes of a dict is
  read back as a dict with the same strings.\<close>

definition artifact_lib_ok :: "artifact_lib \<Rightarrow> bool" where
  "artifact_lib_ok lib =
     ((\<forall>b. safe_key (sha256_hex lib b)) \<and>
      (\<forall>d. distinct (map fst d) \<longrightarrow>
         (\<exists>d'. json_loads lib (json_dumps lib d) = Some (JObject d') \<and>
            (\<forall>k s. map_of d' k = Some (JString s) \<longleftrightarrow> map_of d k = Some (JString s)))))"

lemma safe_path_suffix: "safe_key key \<Longrightarrow> 2 < length suffix \<Longrightarrow> safe_path key suffix = Inr (key @ suffix)"
  by (auto simp: safe_path_def dest!: arg_cong [of "key @ suffix" _ length])

lemma content_path_safe: "safe_key key \<Longrightarrow> content_path key = Inr (key @ ''.tar'')"
  and metadata_path_safe: "safe_key key \<Longrightarrow> metadata_path key = Inr (key @ ''.json'')"
  by (simp_all add: content_path_def metadata_path_def CONTENT_SUFFIX_def safe_path_suffix)

text \<open>Content is only served when the digest that was recorded for it is its digest.\<close>

lemma artifact_load_digest:
  assumes "artifact_load lib key s = (Inr (Some (content, r)), s')"
  shows "s' = s" and "safe_key key" and "map_of (artifact_files s) (key @ ''.tar'') = Some content"
    and "ar_key r = key" and "ar_sha256 r = sha256_hex lib content" and "ar_byte_length r = int (length content)"
    and "\<exists>text metadata. map_of (artifact_files s) (key @ ''.json'') = Some text \<and>
      json_loads lib text = Some (JObject metadata) \<and>
      map_of metadata ''sha256'' = Some (JString (sha256_hex lib content))"
proof -
  have safe: "safe_key key"
    using assms by (auto simp: artifact_load_def content_path_def safe_path_def bindM_def split: if_splits)
  with assms show "s' = s" and "safe_key key" and "map_of (artifact_files s) (key @ ''.tar'') = Some content"
    and "ar_key r = key" and "ar_sha256 r = sha256_hex lib content" and "ar_byte_length r = int (length content)"
    and "\<exists>text metadata. map_of (artifact_files s) (key @ ''.json'') = Some text \<and>
      json_loads lib text = Some (JObject metadata) \<and>
      map_of metadata ''sha256'' = Some (JString (sha256_hex lib content))"
    by (auto simp: artifact_load_def content_path_safe metadata_path_safe bindM_def Let_def
        split: option.splits json.splits if_splits)
qed

lemma cache_document:
  fixes key created ct :: string and n :: int and digest :: string and payload :: "(string \<times> json) list"
    and src i st :: json
  defines "doc \<equiv> dict_merge
      [(''key'', JString key), (''created_at'', JString created), (''content_type'', JString ct),
       (''byte_length'', JInt n), (''sha256'', JString digest)]
      [(''request_payload'', JObject payload), (''source'', src), (''nvcf_request_id'', i), (''nvcf_status'', st)]"
  shows "distinct (map fst doc)" and "map_of doc ''sha256'' = Some (JString digest)"
    and "map_of doc ''content_type'' = Some (JString ct)" and "map_of doc ''created_at'' = Some (JString created)"
  by (simp_all add: doc_def dict_merge_def)

lemma contains_Nil: "contains p s \<Longrightarrow> p \<noteq> [] \<Longrightarrow> s \<noteq> []"
  by (cases s) auto

text \<open>What was saved is loaded, with the same record.\<close>

lemma cache_load_saved:
  assumes "artifact_lib_ok lib" and "cache_save lib payload accept result s = (Inr (Some c), s')"
  obtains content where "res_raw_content result = Some content"
    and "cache_load lib payload accept s' = (Inr (Some (content, c)), s')"
    and "cr_sha256 c = sha256_hex lib content" and "cr_byte_length c = int (length content)"
    and "cr_content_type c = res_content_type result" and "cr_key c = cache_key lib payload accept"
    and "sent s' = sent s" and "net s' = net s" and "sleeps s' = sleeps s"
proof -
  let ?key = "cache_key lib payload accept" and ?ct = "res_content_type result"
  have safe: "safe_key ?key" using assms(1) by (simp add: artifact_lib_ok_def cache_key_def)
  obtain content where content: "res_raw_content result = Some content"
    and tar: "contains ''tar'' (py_lower ?ct)"
    using assms(2) by (auto simp: cache_save_def split: option.splits if_splits)
  let ?now = "wall_clock s (clock_reads s)"
  let ?digest = "sha256_hex lib content"
  let ?doc = "dict_merge
      [(''key'', JString ?key), (''created_at'', JString (iso_format lib ?now)), (''content_type'', JString ?ct),
       (''byte_length'', JInt (int (length content))), (''sha256'', JString ?digest)]
      [(''request_payload'', JObject payload),
       (''source'', JString (response_source_str (res_response_source result))),
       (''nvcf_request_id'', opt_json (res_nvcf_request_id result)),
       (''nvcf_status'', opt_json (res_nvcf_status result))]"
  let ?c = "\<lparr>cr_key = ?key, cr_path = ?key @ ''.tar'', cr_metadata_path = ?key @ ''.json'',
      cr_byte_length = int (length content), cr_sha256 = ?digest, cr_content_type = ?ct,
      cr_created_at = iso_format lib ?now\<rparr>"
  have s': "s' = s\<lparr>clock_reads := clock_reads s + 1,
      artifact_files := AList.update (?key @ ''.json'') (json_dumps lib ?doc)
        (AList.update (?key @ ''.tar'') content (artifact_files s))\<rparr>" and c: "c = ?c"
    using assms(2) content tar
    by (simp_all add: cache_save_def artifact_save_def bindM_def clock_read_def write_file_def Let_def
        cache_record_of_def content_path_safe [OF safe] metadata_path_safe [OF safe])
  obtain d where d: "json_loads lib (json_dumps lib ?doc) = Some (JObject d)"
    "\<forall>k v. map_of d k = Some (JString v) \<longleftrightarrow> map_of ?doc k = Some (JString v)"
    using assms(1) cache_document(1) unfolding artifact_lib_ok_def by meson
  have look: "map_of d ''sha256'' = Some (JString ?digest)" "map_of d ''content_type'' = Some (JString ?ct)"
    "map_of d ''created_at'' = Some (JString (iso_format lib ?now))"
    using d(2) cache_document(2-4) by simp_all
  have ct: "?ct \<noteq> []" using contains_Nil [OF tar] by (auto simp: py_lower_def)
  have ne: "?key @ ''.tar'' \<noteq> ?key @ ''.json''" by simp
  have "cache_load lib payload accept s' = (Inr (Some (content, c)), s')"
    using look d(1) ct
    by (simp add: cache_load_def artifact_load_def bindM_def content_path_safe [OF safe]
        metadata_path_safe [OF safe] s' Let_def cache_record_of_def c str_or_default_def)
  with content c s' show thesis by (intro that) simp_all
qed

lemma run_inference_miss:
  assumes "run_inference_with_cache f req s = (Inr result, s1)" and "res_cache_status result = CacheStored"
  obtains r c s0 where "fp_cached f"
    and "cache_save (fp_lib f) (build_hosted_inference_payload req) (req_accept req) r s0 = (Inr (Some c), s1)"
    and "result = r\<lparr>res_cache_status := CacheStored, res_cached_artifact_id := Some (cr_key c)\<rparr>"
proof -
  have run: "bindM (if fp_cached f then liftS CacheError (cache_load (fp_lib f) (build_hosted_inference_payload req) (req_accept req))
        else returnM None) (\<lambda>cached.
      case cached of
        Some (content, r) \<Rightarrow> returnM (cached_result f (build_hosted_inference_payload req) content r)
      | None \<Rightarrow>
          bindM (liftS ClientError
                   (run_hosted_inference (nim_lib.truncate (fp_lib f)) (fp_client f) (fp_transport f) req)) (\<lambda>result.
          if \<not> fp_cached f then returnM (result\<lparr>res_cache_status := CacheDisabled\<rparr>)
          else
            bindM (liftS CacheError (cache_save (fp_lib f) (build_hosted_inference_payload req) (req_accept req) result)) (\<lambda>r.
            case r of
              Some c \<Rightarrow> returnM (result\<lparr>res_cache_status := CacheStored,
                                       res_cached_artifact_id := Some (cr_key c)\<rparr>)
            | None \<Rightarrow> returnM (result\<lparr>res_cache_status := CacheMiss\<rparr>)))) s = (Inr result, s1)"
    using assms(1) by (simp add: run_inference_with_cache_def Let_def)
  then show thesis
  proof (cases rule: bindM_cases)
    case (returned cached s2)
    show thesis
    proof (cases cached)
      case (Some p)
      with returned(2) assms(2) show thesis by (cases p) (auto simp: cached_result_def)
    next
      case None
      from returned(2) [unfolded None option.case] show thesis
      proof (cases rule: bindM_cases)
        case (returned r s3)
        with assms(2) that show thesis
          by (auto simp: bindM_def liftS_Inr split: if_splits prod.splits sum.splits option.splits)
      qed simp
    qed
  qed simp
qed

text \<open>A result that was stored is served from the cache the next time: nothing is sent.\<close>

lemma stored_result_is_served:
  assumes "run_inference_with_cache f req s = (Inr result, s1)" and "res_cache_status result = CacheStored"
    and "artifact_lib_ok (fp_lib f)"
  obtains hit where "run_inference_with_cache f req s1 = (Inr hit, s1)"
    and "res_raw_content hit = res_raw_content result" and "res_content_type hit = res_content_type result"
    and "res_cache_status hit = CacheHit" and "res_response_source hit = SourceCache"
    and "res_cached_artifact_id hit = res_cached_artifact_id result"
proof -
  obtain r c s0 where cached: "fp_cached f"
    and save: "cache_save (fp_lib f) (build_hosted_inference_payload req) (req_accept req) r s0 = (Inr (Some c), s1)"
    and result: "result = r\<lparr>res_cache_status := CacheStored, res_cached_artifact_id := Some (cr_key c)\<rparr>"
    by (rule run_inference_miss [OF assms(1,2)])
  obtain content where content: "res_raw_content r = Some content" "cr_content_type c = res_content_type r"
    and load: "cache_load (fp_lib f) (build_hosted_inference_payload req) (req_accept req) s1 = (Inr (Some (content, c)), s1)"
    by (rule cache_load_saved [OF assms(3) save])
  have "run_inference_with_cache f req s1 =
      (Inr (cached_result f (build_hosted_inference_payload req) content c), s1)"
    using cached load by (simp add: run_inference_with_cache_def Let_def bindM_def liftS_def)
  then show thesis
    by (rule that) (simp_all add: cached_result_def result content)
qed

end
