(* ===== verification/Mock_Provider.thy ===== *)
theory Mock_Provider imports
  FourCastNet_Decoder
begin

text \<open>
  The deterministic provider of \<open>infrastructure/providers/mock_forecast_provider.py\<close>. The functions
  of Python's \<open>math\<close> are a parameter; of \<open>sin\<close> and \<open>cos\<close> the lemmas use that their results are
  doubles between -1 and 1.
\<close>

record math_lib =
  math_sin :: "pyfloat \<Rightarrow> pyfloat"
  math_cos :: "pyfloat \<Rightarrow> pyfloat"
  math_radians :: "pyfloat \<Rightarrow> pyfloat"
  math_float_str :: "pyfloat \<Rightarrow> string"

fun flt_abs :: "pyfloat \<Rightarrow> pyfloat" where
  "flt_abs (Fin q) = Fin \<bar>q\<bar>"
| "flt_abs NegInf = PosInf"
| "flt_abs x = x"

definition MOCK_LEAD_HOURS :: "int list" where
  "MOCK_LEAD_HOURS = [0, 6, 12, 24, 36, 48, 72]"

text \<open>An integer operand of float arithmetic.\<close>

definition flt_int :: "int \<Rightarrow> pyfloat" where
  "flt_int n = fl64 (of_int n)"

definition mock_status :: forecast_provider_status where
  "mock_status =
     \<lparr>status_provider = MockProvider, status_mode = ''deterministic'', configured = True, ready = True,
      supports_point_forecast = True, status_endpoint = None,
      status_detail = ''Deterministic mock forecast provider is ready.''\<rparr>"

definition mock_choose_condition :: "pynum \<Rightarrow> pynum \<Rightarrow> pynum \<Rightarrow> weather_condition" where
  "mock_choose_condition wind humidity precipitation =
     (if flt_le (Fin 45) (num_val precipitation) then RainWatch
      else if flt_le (Fin 8) (num_val wind) then Breezy
      else if flt_le (Fin 74) (num_val humidity) then Humid
      else Clear)"

definition mock_build_headline :: "timeline_step \<Rightarrow> string" where
  "mock_build_headline s =
     (case condition s of
        RainWatch \<Rightarrow> ''Rain risk is rising in the mock forecast window.''
      | Breezy \<Rightarrow> ''Breezy conditions lead this mock forecast.''
      | Humid \<Rightarrow> ''Humid air dominates the current mock forecast.''
      | Clear \<Rightarrow> ''Stable mock forecast for UI and API development.'')"

fun mock_condition_text :: "weather_condition \<Rightarrow> string" where
  "mock_condition_text Clear = ''Stable conditions''"
| "mock_condition_text Breezy = ''Breezy air flow''"
| "mock_condition_text Humid = ''Humid conditions''"
| "mock_condition_text RainWatch = ''Rain watch signal''"

definition mock_step_summary ::
    "(pyfloat \<Rightarrow> string) \<Rightarrow> weather_condition \<Rightarrow> pynum \<Rightarrow> pynum \<Rightarrow> pynum \<Rightarrow> string" where
  "mock_step_summary flt_str c temperature wind precipitation =
     mock_condition_text c @ '': '' @ num_str flt_str temperature @ '' C, wind '' @
     num_str flt_str wind @ '' m/s, '' @ ''rain chance '' @ num_str flt_str precipitation @ ''%.''"

definition mock_build_timeline_step :: "math_lib \<Rightarrow> datetime \<Rightarrow> pyfloat \<Rightarrow> pyfloat \<Rightarrow>
    pynum \<Rightarrow> pynum \<Rightarrow> pynum \<Rightarrow> int \<Rightarrow> decoder_error + timeline_step" where
  "mock_build_timeline_step lib generated lat lon base_temperature base_wind base_humidity lead =
     (let latitude_wave = math_sin lib (math_radians lib (flt_add lat (flt_int (lead * 7))));
          longitude_wave = math_cos lib (math_radians lib (flt_sub lon (flt_int (lead * 4))));
          temperature = py_round 1 (NFlt (flt_add (num_float base_temperature)
                          (flt_mul latitude_wave (decimal 32 1))));
          wind = py_round 1 (NFlt (flt_add (num_float base_wind)
                   (flt_mul (flt_abs longitude_wave) (decimal 18 1))));
          humidity = py_round 1 (num_min (NInt 96) (num_max (NInt 25)
                       (NFlt (flt_add (num_float base_humidity) (flt_mul longitude_wave (flt_int 7))))));
          precipitation = py_round 1 (num_min (NInt 92) (num_max (NInt 3)
                            (NFlt (flt_add (flt_add (flt_int 16)
                               (flt_mul (num_float (num_minus_int humidity 55)) (decimal 75 2)))
                               (flt_mul (flt_int lead) (decimal 18 2))))));
          pressure = py_round 1 (NFlt (flt_sub
                       (flt_add (decimal 10132 1) (flt_mul longitude_wave (flt_int 5)))
                       (flt_mul (num_float precipitation) (decimal 35 3))));
          conf = py_round 2 (num_max (NFlt (decimal 62 2))
                   (NFlt (flt_sub (decimal 95 2) (flt_mul (flt_int lead) (decimal 38 4)))));
          c = mock_choose_condition wind humidity precipitation
      in bindE (plus_hours generated lead) (\<lambda>valid.
         let s = \<lparr>lead_time_hours = lead, valid_at = valid, temperature_c = num_float temperature,
                  wind_speed_ms = num_float wind, humidity_percent = num_float humidity,
                  precipitation_probability_percent = num_float precipitation,
                  pressure_hpa = num_float pressure, confidence = num_float conf, condition = c,
                  step_summary = mock_step_summary (math_float_str lib) c temperature wind precipitation\<rparr>
         in if timeline_step_valid s then Inr s else Inl InvalidDocument))"

definition mock_build_signals ::
    "(pyfloat \<Rightarrow> string) \<Rightarrow> timeline_step list \<Rightarrow> decoder_error + forecast_signal list" where
  "mock_build_signals flt_str steps =
     (let max_rain = py_max (map precipitation_probability_percent steps);
          max_wind = py_max (map wind_speed_ms steps);
          min_confidence = py_min (map confidence steps)
      in case py_round_int (flt_mul min_confidence (flt_int 100)) of
           Inl e \<Rightarrow> Inl (FloatError e)
         | Inr percent \<Rightarrow> Inr
             [\<lparr>signal_name = ''Precipitation'',
               signal_level_of = (if flt_le (Fin 55) max_rain then LevelElevated
                                  else if flt_le (Fin 35) max_rain then LevelModerate else LevelLow),
               signal_message = ''Peak mock rain chance reaches '' @ flt_str max_rain @ ''%.''\<rparr>,
              \<lparr>signal_name = ''Wind'',
               signal_level_of = (if flt_le (Fin 9) max_wind then LevelModerate else LevelLow),
               signal_message = ''Peak mock wind speed reaches '' @ flt_str max_wind @ '' m/s.''\<rparr>,
              \<lparr>signal_name = ''Model confidence'',
               signal_level_of = (if flt_lt min_confidence (decimal 78 2) then LevelModerate else LevelLow),
               signal_message = ''Lowest confidence across the window is '' @ int_str percent @ ''%.''\<rparr>])"

definition mock_get_point_forecast ::
    "math_lib \<Rightarrow> datetime \<Rightarrow> pyfloat \<Rightarrow> pyfloat \<Rightarrow> decoder_error + forecast_summary" where
  "mock_get_point_forecast lib now lat lon =
     (let latitude_factor = math_sin lib (math_radians lib lat);
          longitude_factor = math_cos lib (math_radians lib lon);
          temperature = py_round 1 (NFlt (flt_add (flt_add (flt_int 18) (flt_mul (flt_int 10) latitude_factor))
                          (flt_mul (flt_int 2) longitude_factor)));
          wind = py_round 1 (NFlt (flt_add (flt_int 4)
                   (flt_mul (flt_abs (flt_mul latitude_factor longitude_factor)) (flt_int 8))));
          humidity = py_round 1 (NFlt (flt_add (flt_int 55)
                       (flt_mul (flt_abs longitude_factor) (flt_int 25))))
      in bindE (mapE (mock_build_timeline_step lib now lat lon temperature wind humidity) MOCK_LEAD_HOURS) (\<lambda>steps.
         bindE (plus_hours now (last MOCK_LEAD_HOURS)) (\<lambda>end_time.
         bindE (mock_build_signals (math_float_str lib) steps) (\<lambda>sigs.
           let s = \<lparr>summary_provider = MockProvider, generated_at = now,
                    summary_latitude = lat, summary_longitude = lon,
                    headline = mock_build_headline (hd steps),
                    summary_metrics =
                      [\<lparr>metric_name = ''temperature'', metric_value = num_float temperature, metric_unit = ''celsius''\<rparr>,
                       \<lparr>metric_name = ''wind_speed'', metric_value = num_float wind, metric_unit = ''m/s''\<rparr>,
                       \<lparr>metric_name = ''humidity'', metric_value = num_float humidity, metric_unit = ''percent''\<rparr>],
                    summary_model =
                      \<lparr>model_name = ''FourCastNet-compatible mock'', model_version = ''0.1.0'',
                       model_resolution = ''0.25 degree grid equivalent'', model_run_mode = RunMock\<rparr>,
                    forecast_window_of =
                      \<lparr>start_at = now, end_at = end_time, step_hours = 6, lead_hours = MOCK_LEAD_HOURS\<rparr>,
                    timeline = steps, signals = sigs\<rparr>
           in if forecast_summary_valid s then Inr s else Inl InvalidDocument))))"

end
