(* ===== verification/Mock_Provider_Correct.thy ===== *)
theory Mock_Provider_Correct imports
  Mock_Provider
  Decoder_Forecast
begin

text \<open>
  Facts about the mock provider: for every coordinate in range it returns a forecast that can be
  stored.
\<close>

section \<open>Ranges of the mock forecast\<close>

definition math_lib_ok :: "math_lib \<Rightarrow> bool" where
  "math_lib_ok lib =
     (\<forall>q. flt_between (- 1) (math_sin lib (math_radians lib (Fin q))) 1 \<and>
          flt_between (- 1) (math_cos lib (math_radians lib (Fin q))) 1)"

text \<open>A number between two integers.\<close>

definition in_ints :: "int \<Rightarrow> int \<Rightarrow> pyfloat \<Rightarrow> bool" where
  "in_ints lo hi x = (\<exists>q. x = Fin q \<and> of_int lo \<le> q \<and> q \<le> of_int hi)"

lemma in_intsE:
  assumes "in_ints lo hi x"
  obtains q where "x = Fin q" and "of_int lo \<le> q" and "q \<le> of_int hi"
  using assms by (auto simp: in_ints_def)

lemma fl64_in_ints:
  assumes "of_int lo \<le> q" and "q \<le> of_int hi" and "\<bar>lo\<bar> \<le> 2 ^ 53" and "\<bar>hi\<bar> \<le> 2 ^ 53"
  shows "in_ints lo hi (fl64 q)"
proof -
  obtain r where "fl64 q = Fin r" "of_int lo \<le> r" "r \<le> of_int hi" "is_double r"
    using is_double_of_int [OF assms(3)] is_double_of_int [OF assms(4)] assms(1,2) by (rule fl64_between)
  then show ?thesis by (auto simp: in_ints_def)
qed

lemma in_ints_add:
  assumes "in_ints a b x" and "in_ints c d y" and "\<bar>a + c\<bar> \<le> 2 ^ 53" and "\<bar>b + d\<bar> \<le> 2 ^ 53"
  shows "in_ints (a + c) (b + d) (flt_add x y)"
  using assms(1,2) by (auto elim!: in_intsE intro!: fl64_in_ints [OF _ _ assms(3,4)] add_mono)

lemma in_ints_neg: "in_ints a b x \<Longrightarrow> in_ints (- b) (- a) (flt_neg x)"
  by (auto simp: in_ints_def)

lemma in_ints_sub:
  assumes "in_ints a b x" and "in_ints c d y" and "\<bar>a - d\<bar> \<le> 2 ^ 53" and "\<bar>b - c\<bar> \<le> 2 ^ 53"
  shows "in_ints (a - d) (b - c) (flt_sub x y)"
  using in_ints_add [OF assms(1) in_ints_neg [OF assms(2)]] assms(3,4) by (simp add: flt_sub_def)

text \<open>A factor of size at most 1.\<close>

lemma in_ints_mul:
  assumes "in_ints (- 1) 1 x" and "in_ints (- k) k y" and "0 \<le> k" and "k \<le> 2 ^ 53"
  shows "in_ints (- k) k (flt_mul x y)" and "in_ints (- k) k (flt_mul y x)"
proof -
  obtain p q where pq: "x = Fin p" "y = Fin q" "\<bar>p\<bar> \<le> 1" "\<bar>q\<bar> \<le> of_int k"
    using assms(1,2) by (auto elim!: in_intsE simp: abs_le_iff)
  have "\<bar>p * q\<bar> \<le> 1 * of_int k" unfolding abs_mult using pq(3,4) by (intro mult_mono) simp_all
  then have "of_int (- k) \<le> p * q" "p * q \<le> of_int k" by (simp_all add: abs_le_iff)
  then show "in_ints (- k) k (flt_mul x y)" and "in_ints (- k) k (flt_mul y x)"
    using fl64_in_ints [of "- k" "p * q" k] assms(3,4) pq(1,2) by (simp_all add: mult.commute)
qed

lemma in_ints_abs: "in_ints (- k) k x \<Longrightarrow> in_ints 0 k (flt_abs x)"
  by (auto elim!: in_intsE simp: in_ints_def abs_le_iff)

lemma in_ints_weaken:
  assumes "in_ints a b x" and "c \<le> a" and "b \<le> d"
  shows "in_ints c d x"
proof -
  have "(of_int c :: rat) \<le> of_int a" "(of_int b :: rat) \<le> of_int d" using assms(2,3) by simp_all
  with assms(1) show ?thesis by (force simp: in_ints_def)
qed

lemma in_ints_between: "in_ints lo hi x \<longleftrightarrow> flt_between (of_int lo) x (of_int hi)"
  by (simp add: in_ints_def flt_between_iff)

lemma in_ints_finite: "in_ints lo hi x \<Longrightarrow> flt_finite x"
  by (auto simp: in_ints_def flt_finite_def)

lemma in_ints_round:
  assumes "in_ints a b x" and "\<bar>a\<bar> \<le> 2 ^ 53" and "\<bar>b\<bar> \<le> 2 ^ 53"
  shows "in_ints a b (num_float (py_round n (NFlt x)))"
proof -
  obtain q where q: "x = Fin q" "of_int a \<le> q" "q \<le> of_int b" using assms(1) by (rule in_intsE)
  obtain r where "fl64 (of_int (round_half_even (q * 10 ^ n)) / 10 ^ n) = Fin r" "of_int a \<le> r" "r \<le> of_int b"
    by (rule decimal_between [OF q(2,3) assms(2,3)])
  then show ?thesis using q(1) fl64_double by (auto simp: in_ints_def)
qed

lemma flt_int_in: "\<bar>n\<bar> \<le> 2 ^ 53 \<Longrightarrow> in_ints n n (flt_int n)"
  unfolding flt_int_def by (intro fl64_in_ints) simp_all

lemma decimal_in:
  assumes "of_int lo \<le> (of_int n :: rat) / 10 ^ k" and "(of_int n :: rat) / 10 ^ k \<le> of_int hi"
    and "\<bar>lo\<bar> \<le> 2 ^ 53" and "\<bar>hi\<bar> \<le> 2 ^ 53"
  shows "in_ints lo hi (decimal n k)"
  unfolding decimal_def using assms by (rule fl64_in_ints)

lemma num_ok_in_ints:
  assumes "num_ok lo hi n" and "\<bar>lo\<bar> \<le> 2 ^ 53" and "\<bar>hi\<bar> \<le> 2 ^ 53"
  shows "in_ints lo hi (num_float n)"
  using num_float_between [OF assms] by (simp add: in_ints_between)

lemma math_in:
  assumes "math_lib_ok lib" and "in_ints a b x"
  shows "in_ints (- 1) 1 (math_sin lib (math_radians lib x))" and "in_ints (- 1) 1 (math_cos lib (math_radians lib x))"
proof -
  obtain q where "x = Fin q" using assms(2) by (rule in_intsE)
  with assms(1) show "in_ints (- 1) 1 (math_sin lib (math_radians lib x))"
    and "in_ints (- 1) 1 (math_cos lib (math_radians lib x))"
    by (simp_all add: math_lib_ok_def in_ints_between)
qed

text \<open>The step of any lead time of the list is valid and finite.\<close>

lemma mock_step_ok:
  assumes "math_lib_ok lib" and "0 \<le> lead" and "lead \<le> 72" and "0 \<le> now"
    and "now + 72 * 3600 * 1000000 \<le> datetime_max"
    and base: "in_ints 6 30 (num_float bt)" "in_ints 4 12 (num_float bw)"
    and "in_ints (- 90) 90 la" and "in_ints (- 180) 180 lo"
  shows "\<exists>s. mock_build_timeline_step lib now la lo bt bw bh lead = Inr s \<and>
    timeline_step_valid s \<and> step_finite s"
proof -
  let ?lw = "math_sin lib (math_radians lib (flt_add la (flt_int (lead * 7))))"
  let ?cw = "math_cos lib (math_radians lib (flt_sub lo (flt_int (lead * 4))))"
  have i: "in_ints (lead * 7) (lead * 7) (flt_int (lead * 7))" "in_ints (lead * 4) (lead * 4) (flt_int (lead * 4))"
    using assms(2,3) by (auto intro!: flt_int_in)
  have "in_ints (- 90 + lead * 7) (90 + lead * 7) (flt_add la (flt_int (lead * 7)))"
    "in_ints (- 180 - lead * 4) (180 - lead * 4) (flt_sub lo (flt_int (lead * 4)))"
    using in_ints_add [OF assms(8) i(1)] in_ints_sub [OF assms(9) i(2)] assms(2,3) by simp_all
  then have w: "in_ints (- 1) 1 ?lw" "in_ints (- 1) 1 ?cw" using math_in [OF assms(1)] by blast+
  have c: "in_ints (- 4) 4 (decimal 32 1)" "in_ints (- 2) 2 (decimal 18 1)" "in_ints 1013 1014 (decimal 10132 1)"
    "in_ints (- 1) 1 (decimal 35 3)"
    by (rule decimal_in; simp)+
  have five: "in_ints (- 5) 5 (flt_int 5)" using flt_int_in [of 5] by (rule in_ints_weaken) simp_all
  have temp: "in_ints 2 34 (flt_add (num_float bt) (flt_mul ?lw (decimal 32 1)))"
    using in_ints_add [OF base(1) in_ints_mul(1) [OF w(1) c(1)]] by simp
  have "in_ints (- 1) 1 (flt_abs ?cw)" using in_ints_abs [OF w(2)] by (rule in_ints_weaken) simp_all
  then have wind: "in_ints 2 14 (flt_add (num_float bw) (flt_mul (flt_abs ?cw) (decimal 18 1)))"
    using in_ints_add [OF base(2) in_ints_mul(1) [OF _ c(2)]] by simp
  let ?hum = "py_round 1 (num_min (NInt 96) (num_max (NInt 25)
      (NFlt (flt_add (num_float bh) (flt_mul ?cw (flt_int 7))))))"
  have hum: "num_ok 25 96 ?hum" by (intro py_round_ok num_clamp_ok) simp_all
  let ?rain = "py_round 1 (num_min (NInt 92) (num_max (NInt 3)
      (NFlt (flt_add (flt_add (flt_int 16) (flt_mul (num_float (num_minus_int ?hum 55)) (decimal 75 2)))
         (flt_mul (flt_int lead) (decimal 18 2))))))"
  have rain: "num_ok 3 92 ?rain" by (intro py_round_ok num_clamp_ok) simp_all
  have rain92: "in_ints (- 92) 92 (num_float ?rain)"
    using num_ok_in_ints [OF rain] by (rule in_ints_weaken) simp_all
  have pressure: "in_ints 916 1111 (flt_sub (flt_add (decimal 10132 1) (flt_mul ?cw (flt_int 5)))
      (flt_mul (num_float ?rain) (decimal 35 3)))"
    using in_ints_sub [OF in_ints_add [OF c(3) in_ints_mul(1) [OF w(2) five]] in_ints_mul(2) [OF c(4) rain92]] by simp
  have conf: "num_ok 0 1 (py_round 2 (num_max (NFlt (decimal 62 2))
      (NFlt (flt_sub (decimal 95 2) (flt_mul (flt_int lead) (decimal 38 4))))))"
  proof (rule py_round_ok)
    obtain p where p: "decimal 62 2 = Fin p" "0 \<le> p" "p \<le> 1"
      using decimal_in [of 0 62 2 1] by (auto elim!: in_intsE)
    have nn: "in_ints 0 72 (flt_mul (flt_int lead) (decimal 38 4))"
    proof -
      obtain l where l: "flt_int lead = Fin l" "of_int lead \<le> l" "l \<le> of_int lead"
        using flt_int_in [of lead] assms(2,3) by (auto elim!: in_intsE)
      obtain d where d: "decimal 38 4 = Fin d" "0 \<le> d" "d \<le> 1"
        using decimal_in [of 0 38 4 1] by (auto elim!: in_intsE)
      have "(of_int lead :: rat) \<le> of_int 72" "(0::rat) \<le> of_int lead" using assms(2,3) by simp_all
      then have "0 \<le> l" "l \<le> 72" using l by simp_all
      then have "0 \<le> l * d" "l * d \<le> 72 * 1" using d by (simp, intro mult_mono) simp_all
      then show ?thesis using fl64_in_ints [of 0 "l * d" 72] l d by simp
    qed
    have "in_ints (- 72) 1 (flt_sub (decimal 95 2) (flt_mul (flt_int lead) (decimal 38 4)))"
      using in_ints_sub [OF decimal_in [of 0 95 2 1] nn] by simp
    then obtain u where "flt_sub (decimal 95 2) (flt_mul (flt_int lead) (decimal 38 4)) = Fin u" "u \<le> 1"
      by (auto elim!: in_intsE)
    then show "num_ok 0 1 (num_max (NFlt (decimal 62 2))
        (NFlt (flt_sub (decimal 95 2) (flt_mul (flt_int lead) (decimal 38 4)))))"
      using p by (auto simp: num_ok_def num_max_def)
  qed simp_all
  have "plus_hours now lead = Inr (now + lead * 3600 * 1000000)"
    using assms(2-5) by (simp add: plus_hours_def)
  then show ?thesis
    using in_ints_finite [OF in_ints_round [OF temp]] in_ints_finite [OF in_ints_round [OF wind]]
      in_ints_finite [OF in_ints_round [OF pressure]] assms(2)
      flt_between_weaken [OF num_float_between [OF hum], of 0 100]
      flt_between_weaken [OF num_float_between [OF rain], of 0 100] num_float_between [OF conf]
    by (simp add: mock_build_timeline_step_def Let_def timeline_step_valid_def step_finite_def)
qed

text \<open>For a coordinate in range and a date that leaves three days, a forecast is always returned.\<close>

lemma mock_get_point_forecast_ok:
  assumes "math_lib_ok lib" and "0 \<le> now" and "now + 72 * 3600 * 1000000 \<le> datetime_max"
    and "in_ints (- 90) 90 la" and "in_ints (- 180) 180 lo"
  shows "\<exists>s. mock_get_point_forecast lib now la lo = Inr s \<and> storable_summary s"
proof -
  let ?lf = "math_sin lib (math_radians lib la)" and ?cf = "math_cos lib (math_radians lib lo)"
  have f: "in_ints (- 1) 1 ?lf" "in_ints (- 1) 1 ?cf"
    using math_in(1) [OF assms(1,4)] math_in(2) [OF assms(1,5)] .
  have n: "in_ints (- 10) 10 (flt_int 10)" "in_ints (- 2) 2 (flt_int 2)" "in_ints (- 8) 8 (flt_int 8)"
    "in_ints (- 25) 25 (flt_int 25)"
    by (rule in_ints_weaken [OF flt_int_in]; simp)+
  have p: "in_ints 18 18 (flt_int 18)" "in_ints 4 4 (flt_int 4)" "in_ints 55 55 (flt_int 55)"
    by (rule flt_int_in; simp)+
  let ?t = "flt_add (flt_add (flt_int 18) (flt_mul (flt_int 10) ?lf)) (flt_mul (flt_int 2) ?cf)"
  have t: "in_ints 6 30 ?t"
    using in_ints_add [OF in_ints_add [OF p(1) in_ints_mul(2) [OF f(1) n(1)]] in_ints_mul(2) [OF f(2) n(2)]] by simp
  have one: "in_ints (- 1) 1 (flt_abs x)" if "in_ints (- 1) 1 x" for x
    using in_ints_abs [OF that] by (rule in_ints_weaken) simp_all
  have prod: "in_ints (- 1) 1 (flt_mul ?lf ?cf)" using in_ints_mul(1) [OF f(1) f(2)] by simp
  have abs8: "in_ints 0 8 (flt_mul (flt_abs (flt_mul ?lf ?cf)) (flt_int 8))"
  proof -
    obtain a where "flt_abs (flt_mul ?lf ?cf) = Fin a" "0 \<le> a" "a \<le> 1"
      using in_ints_abs [OF prod] by (auto elim!: in_intsE)
    moreover obtain b where "flt_int 8 = Fin b" "b = 8"
      using flt_int_in [of 8] by (auto elim!: in_intsE)
    ultimately show ?thesis using fl64_in_ints [of 0 "a * b" 8] by simp
  qed
  let ?w = "flt_add (flt_int 4) (flt_mul (flt_abs (flt_mul ?lf ?cf)) (flt_int 8))"
  have w: "in_ints 4 12 ?w" using in_ints_add [OF p(2) abs8] by simp
  let ?h = "flt_add (flt_int 55) (flt_mul (flt_abs ?cf) (flt_int 25))"
  have h: "in_ints 30 80 ?h" using in_ints_add [OF p(3) in_ints_mul(1) [OF one [OF f(2)] n(4)]] by simp
  let ?step = "mock_build_timeline_step lib now la lo (py_round 1 (NFlt ?t)) (py_round 1 (NFlt ?w)) (py_round 1 (NFlt ?h))"
  have tr: "in_ints 6 30 (num_float (py_round 1 (NFlt ?t)))" and wr: "in_ints 4 12 (num_float (py_round 1 (NFlt ?w)))"
    using in_ints_round [OF t] in_ints_round [OF w] by simp_all
  have step: "\<exists>s. ?step lead = Inr s \<and> timeline_step_valid s \<and> step_finite s" if "lead \<in> set MOCK_LEAD_HOURS" for lead
    using that by (intro mock_step_ok [OF assms(1) _ _ assms(2,3) tr wr assms(4,5)]) (auto simp: MOCK_LEAD_HOURS_def)
  have "\<exists>xs. mapE ?step MOCK_LEAD_HOURS = Inr xs" by (rule mapE_total) (use step in blast)
  then obtain xs where xs: "mapE ?step MOCK_LEAD_HOURS = Inr xs" by blast
  have good: "\<forall>x\<in>set xs. timeline_step_valid x \<and> step_finite x"
  proof
    fix x assume "x \<in> set xs"
    with mapE_in [OF xs] obtain lead where "lead \<in> set MOCK_LEAD_HOURS" "?step lead = Inr x" by blast
    with step [of lead] show "timeline_step_valid x \<and> step_finite x" by auto
  qed
  have "xs \<noteq> []" using mapE_Inr [OF xs] by (auto simp: MOCK_LEAD_HOURS_def)
  then have "py_min (map confidence xs) \<in> confidence ` set xs" using py_min_in [of "map confidence xs"] by simp
  then obtain q where q: "py_min (map confidence xs) = Fin q" "0 \<le> q" "q \<le> 1"
    using good by (auto simp: timeline_step_valid_def flt_between_iff)
  obtain b where "flt_int 100 = Fin b" "b = 100" using flt_int_in [of 100] by (auto elim!: in_intsE)
  moreover have "in_ints 0 100 (fl64 (q * 100))" using q by (intro fl64_in_ints) simp_all
  ultimately obtain r where "flt_mul (py_min (map confidence xs)) (flt_int 100) = Fin r"
    using q(1) by (auto elim!: in_intsE)
  then obtain sigs where sigs: "mock_build_signals (math_float_str lib) xs = Inr sigs"
    by (simp add: mock_build_signals_def Let_def)
  have end_time: "plus_hours now (last MOCK_LEAD_HOURS) = Inr (now + 72 * 3600 * 1000000)"
    using assms(2,3) by (simp add: plus_hours_def MOCK_LEAD_HOURS_def)
  have range: "flt_between (- 90) la 90" "flt_between (- 180) lo 180"
    using assms(4,5) by (simp_all add: in_ints_between)
  have all: "list_all timeline_step_valid xs"
    "list_all (\<lambda>t. flt_finite (temperature_c t) \<and> flt_finite (wind_speed_ms t) \<and> flt_finite (pressure_hpa t)) xs"
    using good by (simp_all add: list_all_iff step_finite_def)
  show ?thesis
    using xs sigs end_time range all in_ints_finite [OF in_ints_round [OF t, of 1]]
      in_ints_finite [OF in_ints_round [OF w, of 1]] in_ints_finite [OF in_ints_round [OF h, of 1]]
    by (simp add: mock_get_point_forecast_def Let_def storable_summary_def forecast_summary_valid_def
        forecast_summary_finite_def)
qed

lemma mock_choose_condition_eq: "mock_choose_condition = choose_condition"
  by (intro ext) (simp add: mock_choose_condition_def choose_condition_def)

end
