(* ===== verification/Provider_Port.thy ===== *)
theory Provider_Port imports
  FourCastNet_Provider_Correct
  Mock_Provider_Correct
begin

text \<open>
  The port \<open>ForecastProvider\<close> as a locale: what the job commands need of a provider, and what follows
  for a job that is run. Both providers of the code are instances.
\<close>

section \<open>Running one job\<close>

fun failure_text :: "provider_error \<Rightarrow> string" where
  "failure_text (ForecastProviderUnavailableError m d) = m"
| "failure_text (OtherProviderError m) = ''Unexpected forecast job error: '' @ m"

text \<open>The record a queued job ends with when the provider answers \<open>a\<close>.\<close>

definition ended_with :: "forecast_job \<Rightarrow> provider_error + provider_result \<Rightarrow> forecast_job \<Rightarrow> bool" where
  "ended_with j a j' =
     (job_changes j j' \<and>
      (case a of
         Inr r \<Rightarrow> status j' = Succeeded \<and> forecast j' = Some (result_summary r) \<and> error j' = None
       | Inl e \<Rightarrow> status j' = Failed \<and> forecast j' = forecast j \<and> error j' = Some (failure_text e)))"

lemma ref_run_execute:
  assumes "store_wf (stored w)" and "normalize_job_id k = Inr k" and "stored w k = Some j" and "status j = Queued"
    and "answer_ok (get_provider_result p j)"
  shows "\<exists>w' j'. run_execute ref_store p k w = (Inr (), w') \<and> stored w' = (stored w)(k \<mapsto> j') \<and>
    ended_with j (get_provider_result p j) j'"
proof -
  let ?r = "(running_job j (clock_fn w (ticks w)))\<lparr>updated_at := clock_fn w (Suc (ticks w))\<rparr>"
  let ?w = "counted ''started'' (w\<lparr>ticks := Suc (Suc (ticks w)), stored := (stored w)(k \<mapsto> ?r)\<rparr>)"
  have start: "run_start ref_store k w = (Inr (Some j), ?w)"
    using run_start_run [OF assms(1-3)] assms(4) by (simp add: Let_def)
  have ch: "job_change j ?r" by (rule job_change.start [OF assms(4)])
  note st = store_wfD(1-3) [OF assms(1,3)]
  have wf: "store_wf (stored ?w)"
    using st job_change_storable [OF ch] job_change_frame [OF ch] assms(1) by (simp add: store_wf_upd)
  have r: "stored ?w k = Some ?r" "status ?r = Running" by (simp_all add: running_job_def)
  have exec: "run_execute ref_store p k w = run_finish ref_store k (get_provider_result p j) ?w"
    by (simp add: run_execute_def bindM_def start)
  have ended: "ended_with j (get_provider_result p j) c" if "job_change ?r c" and
    "case get_provider_result p j of
         Inr r \<Rightarrow> status c = Succeeded \<and> forecast c = Some (result_summary r) \<and> error c = None
       | Inl e \<Rightarrow> status c = Failed \<and> forecast c = forecast j \<and> error c = Some (failure_text e)" for c
    using job_changes.step [OF job_changes.step [OF job_changes.refl ch] that(1)] that(2)
    by (simp add: ended_with_def)
  show ?thesis
  proof (cases "get_provider_result p j")
    case (Inr x)
    with assms(5) obtain d where d: "success_diagnostics x = Inr d" and s: "storable_summary (result_summary x)"
      by (cases "success_diagnostics x") (auto simp: answer_ok_def)
    let ?c = "(succeeded_job ?r (clock_fn ?w (ticks ?w)) (result_summary x) d)\<lparr>updated_at := clock_fn ?w (Suc (ticks ?w))\<rparr>"
    have "ended_with j (get_provider_result p j) ?c"
      by (rule ended [OF job_change.succeed [OF r(2) s]]) (simp add: Inr succeeded_job_def)
    moreover from run_success_run [OF wf assms(2) r(1), of x] d r(2)
    have "\<exists>w'. run_finish ref_store k (Inr x) ?w = (Inr (), w') \<and> stored w' = (stored w)(k \<mapsto> ?c)"
      by (simp add: Let_def)
    ultimately show ?thesis unfolding exec Inr by blast
  next
    case (Inl e)
    have fail: "\<exists>w' j'. mark_failed ref_store k (failure_text e) d ?w = (Inr (), w') \<and>
        stored w' = (stored w)(k \<mapsto> j') \<and> ended_with j (get_provider_result p j) j'"
      if h: "\<not> isl (failure_diagnostics d)" for d
    proof -
      obtain dd where dd: "failure_diagnostics d = Inr dd" using h by (cases "failure_diagnostics d") auto
      let ?c = "(failed_job ?r (clock_fn ?w (ticks ?w)) (failure_text e) dd)\<lparr>updated_at := clock_fn ?w (Suc (ticks ?w))\<rparr>"
      have "ended_with j (get_provider_result p j) ?c"
        by (rule ended [OF job_change.fail [OF r(2)]]) (simp add: Inl failed_job_def running_job_def)
      moreover from mark_failed_run [OF wf assms(2) r(1), of "failure_text e" d] dd r(2)
      have "\<exists>w'. mark_failed ref_store k (failure_text e) d ?w = (Inr (), w') \<and> stored w' = (stored w)(k \<mapsto> ?c)"
        by (simp add: Let_def)
      ultimately show ?thesis by blast
    qed
    show ?thesis
    proof (cases e)
      case (ForecastProviderUnavailableError m d)
      with fail [of "Some d"] assms(5) Inl exec show ?thesis by (simp add: answer_ok_def run_finish_def)
    next
      case (OtherProviderError m)
      with fail [of None] failure_diagnostics_None Inl exec show ?thesis by (simp add: run_finish_def)
    qed
  qed
qed

section \<open>The port\<close>

text \<open>
  What the job commands need of a provider: in a state \<open>p\<close> in which it is \<open>usable\<close>, its answer for
  a coordinate in range can be recorded.
\<close>

locale provider_port =
  fixes provider :: "'p \<Rightarrow> forecast_provider"
    and usable :: "'p \<Rightarrow> bool"
  assumes recordable: "usable p \<Longrightarrow> flt_between (- 90) (latitude j) 90 \<Longrightarrow>
      flt_between (- 180) (longitude j) 180 \<Longrightarrow> answer_ok (get_provider_result (provider p) j)"
begin

text \<open>With such a provider a queued job that is run ends, with every store adapter.\<close>

lemma job_ends:
  assumes "job_store st ok amap" and "ok (stored w)" and "amap (stored w) k = Some j"
    and "status j = Queued" and "usable p"
  shows "\<exists>w' j'. run_execute st (provider p) k w = (Inr (), w') \<and> ok (stored w') \<and>
    amap (stored w') = (amap (stored w))(k \<mapsto> j') \<and>
    ended_with j (get_provider_result (provider p) j) j'"
proof -
  have wf: "store_wf (amap (stored w))" using job_store.inv_wf [OF assms(1,2)] .
  note st = store_wfD(1-3) [OF wf assms(3)]
  have ans: "answer_ok (get_provider_result (provider p) j)"
    using st(3) assms(5) by (intro recordable) (simp_all add: storable_def forecast_job_valid_def)
  have k: "normalize_job_id k = Inr k" using st(2) by simp
  obtain w1 j' where ref: "run_execute ref_store (provider p) k (abs_world amap w) = (Inr (), w1)"
    "stored w1 = (amap (stored w))(k \<mapsto> j')" "ended_with j (get_provider_result (provider p) j) j'"
    using ref_run_execute [of "abs_world amap w" k j "provider p"] wf k assms(3,4) ans by auto
  obtain rs ws where s: "run_start st k w = (rs, ws)" by fastforce
  from simulatesD [OF job_store.sim_run_start [OF assms(1)] assms(2) this] have s':
    "ok (stored ws)" "run_start ref_store k (abs_world amap w) = (rs, abs_world amap ws)" by auto
  then have rs: "rs = Inr (Some j)"
    using run_start_run [of "abs_world amap w" k k j] wf k assms(3,4) by (auto simp: Let_def)
  obtain rf wf' where f: "run_finish st k (get_provider_result (provider p) j) ws = (rf, wf')" by fastforce
  from simulatesD [OF job_store.sim_run_finish [OF assms(1) answer_ok_storable [OF ans]] s'(1) this]
  have f': "ok (stored wf')"
    "run_finish ref_store k (get_provider_result (provider p) j) (abs_world amap ws) = (rf, abs_world amap wf')"
    by auto
  have "run_execute st (provider p) k w = (rf, wf')"
    using s f rs by (simp add: run_execute_def bindM_def)
  moreover have "rf = Inr ()" "w1 = abs_world amap wf'"
    using ref(1) s'(2) f'(2) rs by (simp_all add: run_execute_def bindM_def)
  ultimately show ?thesis using f'(1) ref(2,3) by auto
qed

end

section \<open>The providers of the code\<close>

text \<open>What \<open>run_forecast_job.py\<close> sees of the FourCastNet provider called in a given state.\<close>

definition fcn_as_provider :: "'n fcn_provider \<times> 'n provider_state \<Rightarrow> forecast_provider" where
  "fcn_as_provider p =
     WithDiagnostics (\<lambda>la lo. fcn_answer (fst (get_point_forecast_with_diagnostics (fst p) la lo (snd p))))"

definition fcn_usable :: "'n fcn_provider \<times> 'n provider_state \<Rightarrow> bool" where
  "fcn_usable p = decoder_lib_ok (fp_decoder (fst p))"

lemma fcn_is_provider: "provider_port fcn_as_provider fcn_usable"
proof
  fix p :: "'n fcn_provider \<times> 'n provider_state" and j :: forecast_job
  assume "fcn_usable p"
  moreover obtain r s' where r: "get_point_forecast_with_diagnostics (fst p) (latitude j) (longitude j) (snd p) = (r, s')"
    by fastforce
  ultimately show "answer_ok (get_provider_result (fcn_as_provider p) j)"
    using fcn_answer_recordable [OF r] by (simp add: fcn_as_provider_def fcn_usable_def)
qed

interpretation fourcastnet: provider_port fcn_as_provider fcn_usable
  by (rule fcn_is_provider)

text \<open>The mock provider has no diagnostics of its own.\<close>

definition mock_answer :: "decoder_error + forecast_summary \<Rightarrow> provider_error + forecast_summary" where
  "mock_answer r = (case r of Inl e \<Rightarrow> Inl (OtherProviderError []) | Inr s \<Rightarrow> Inr s)"

definition mock_as_provider :: "math_lib \<times> datetime \<Rightarrow> forecast_provider" where
  "mock_as_provider p = PointOnly (\<lambda>la lo. mock_answer (mock_get_point_forecast (fst p) (snd p) la lo))"

definition mock_usable :: "math_lib \<times> datetime \<Rightarrow> bool" where
  "mock_usable p =
     (math_lib_ok (fst p) \<and> 0 \<le> snd p \<and> snd p + 72 * 3600 * 1000000 \<le> datetime_max)"

lemma mock_is_provider: "provider_port mock_as_provider mock_usable"
proof
  fix p and j :: forecast_job
  assume p: "mock_usable p" and range: "flt_between (- 90) (latitude j) 90" "flt_between (- 180) (longitude j) 180"
  then obtain s where s: "mock_get_point_forecast (fst p) (snd p) (latitude j) (longitude j) = Inr s"
    "storable_summary s"
    using mock_get_point_forecast_ok [of "fst p" "snd p" "latitude j" "longitude j"]
    by (auto simp: mock_usable_def in_ints_between)
  then show "answer_ok (get_provider_result (mock_as_provider p) j)"
    by (simp add: mock_as_provider_def mock_answer_def answer_ok_def success_diagnostics_def
        diagnostics_of_dict_def)
qed

interpretation mock: provider_port mock_as_provider mock_usable
  by (rule mock_is_provider)

text \<open>With the mock provider the job succeeds.\<close>

lemma mock_succeeds:
  assumes "mock_usable p" and "flt_between (- 90) (latitude j) 90" and "flt_between (- 180) (longitude j) 180"
  shows "\<exists>r. get_provider_result (mock_as_provider p) j = Inr r \<and>
    mock_get_point_forecast (fst p) (snd p) (latitude j) (longitude j) = Inr (result_summary r)"
proof -
  obtain s where "mock_get_point_forecast (fst p) (snd p) (latitude j) (longitude j) = Inr s"
    using assms mock_get_point_forecast_ok [of "fst p" "snd p" "latitude j" "longitude j"]
    by (auto simp: mock_usable_def in_ints_between)
  then show ?thesis by (simp add: mock_as_provider_def mock_answer_def)
qed

end
