(* ===== verification/Queue_Port.thy ===== *)
theory Queue_Port imports
  Job_Domain
begin

text \<open>
  The dispatch queue: the port \<open>application/ports/forecast_queue.py\<close>, what it promises, and the
  workers of \<open>infrastructure/queue/asyncio_worker.py\<close> that use it.

  \<^item> \<open>'q queue_ops\<close> is a queue adapter: its four methods as functions on its state.
  \<^item> The abstract queue is the list of the pending items in the order they will be dispatched and
    the map of the items in flight by key; the functions \<open>aq_\<close> are the operations on it.
  \<^item> The locale \<open>forecast_queue\<close> relates an adapter's states to abstract queues. \<open>room\<close> says that
    the adapter's sequence counter is not exhausted.
  \<^item> \<open>drain_queue\<close> is a loop without a bound of its own; \<open>None\<close> is not returning.
\<close>

section \<open>Insertion into a keyed list\<close>

lemma map_of_insort:
  assumes "fst (g x) \<notin> fst ` g ` set xs" and "distinct (map (fst \<circ> g) xs)"
  shows "map_of (map g (insort_key f x xs)) = (map_of (map g xs))(fst (g x) \<mapsto> snd (g x))"
proof -
  have "mset (map g (insort_key f x xs)) = mset (map g (x # xs))" by simp
  moreover have "distinct (map fst (map g (x # xs)))" using assms by auto
  ultimately have "map_of (map g (insort_key f x xs)) = map_of (map g (x # xs))"
    by (metis map_of_inject_set mset_eq_imp_distinct_iff mset_map set_mset_mset)
  then show ?thesis by (cases "g x") simp
qed

section \<open>Items and the port\<close>

record queue_item =
  q_job_id :: string
  q_priority :: job_priority
  q_idem :: "string option"

record 'q queue_ops =
  q_enqueue :: "string \<Rightarrow> job_priority \<Rightarrow> string option \<Rightarrow> 'q \<Rightarrow> (queue_item \<times> bool) \<times> 'q"
  q_dequeue :: "'q \<Rightarrow> queue_item option \<times> 'q"
  q_completed :: "queue_item \<Rightarrow> 'q \<Rightarrow> 'q"
  q_failed :: "queue_item \<Rightarrow> bool \<Rightarrow> 'q \<Rightarrow> 'q"

definition queue_key :: "string \<Rightarrow> string option \<Rightarrow> string" where
  "queue_key jid idempotency_key = opt_str_or idempotency_key jid"

definition item_key :: "queue_item \<Rightarrow> string" where
  "item_key i = opt_str_or (q_idem i) (q_job_id i)"

definition new_item :: "string \<Rightarrow> job_priority \<Rightarrow> string \<Rightarrow> queue_item" where
  "new_item jid pr key = \<lparr>q_job_id = jid, q_priority = pr, q_idem = Some key\<rparr>"

lemma item_key_new_item [simp]: "item_key (new_item jid pr (queue_key jid k)) = queue_key jid k"
  by (auto simp: item_key_def new_item_def queue_key_def opt_str_or_def str_or_def split: option.splits)

section \<open>The abstract queue\<close>

record aqueue =
  pend :: "queue_item list"
  flight :: "string \<rightharpoonup> queue_item"

definition item_rank :: "queue_item \<Rightarrow> int" where
  "item_rank i = priority_rank (q_priority i)"

text \<open>Behind everything at least as urgent, before everything less urgent.\<close>

definition insert_item :: "queue_item \<Rightarrow> queue_item list \<Rightarrow> queue_item list" where
  "insert_item i xs =
     takeWhile (\<lambda>x. item_rank x \<le> item_rank i) xs @ i # dropWhile (\<lambda>x. item_rank x \<le> item_rank i) xs"

definition aq_enqueue ::
    "string \<Rightarrow> job_priority \<Rightarrow> string option \<Rightarrow> aqueue \<Rightarrow> (queue_item \<times> bool) \<times> aqueue" where
  "aq_enqueue jid pr idem q =
     (let k = queue_key jid idem in
      case find (\<lambda>i. item_key i = k) (pend q) of
        Some i \<Rightarrow> ((i, False), q)
      | None \<Rightarrow>
          (case flight q k of
             Some i \<Rightarrow> ((i, False), q)
           | None \<Rightarrow> ((new_item jid pr k, True), q\<lparr>pend := insert_item (new_item jid pr k) (pend q)\<rparr>)))"

definition aq_dequeue :: "aqueue \<Rightarrow> queue_item option \<times> aqueue" where
  "aq_dequeue q =
     (case pend q of
        [] \<Rightarrow> (None, q)
      | i # is \<Rightarrow> (Some i, q\<lparr>pend := is, flight := (flight q)(item_key i \<mapsto> i)\<rparr>))"

definition aq_completed :: "queue_item \<Rightarrow> aqueue \<Rightarrow> aqueue" where
  "aq_completed i q = q\<lparr>flight := (flight q)(item_key i := None)\<rparr>"

definition aq_failed :: "queue_item \<Rightarrow> bool \<Rightarrow> aqueue \<Rightarrow> aqueue" where
  "aq_failed i requeue q =
     (let q' = aq_completed i q
      in if requeue then snd (aq_enqueue (q_job_id i) (q_priority i) (q_idem i) q') else q')"

definition aq_ok :: "aqueue \<Rightarrow> bool" where
  "aq_ok q \<longleftrightarrow>
     sorted (map item_rank (pend q)) \<and> distinct (map item_key (pend q)) \<and>
     (\<forall>k i. flight q k = Some i \<longrightarrow> item_key i = k) \<and>
     item_key ` set (pend q) \<inter> dom (flight q) = {}"

lemma set_insert_item [simp]: "set (insert_item i xs) = insert i (set xs)"
proof -
  have "set xs = set (takeWhile P xs) \<union> set (dropWhile P xs)" for P
    by (metis set_append takeWhile_dropWhile_id)
  then show ?thesis by (auto simp: insert_item_def)
qed

lemma mset_insert_item: "mset (insert_item i xs) = add_mset i (mset xs)"
proof -
  have "mset xs = mset (takeWhile P xs) + mset (dropWhile P xs)" for P
    by (metis mset_append takeWhile_dropWhile_id)
  then show ?thesis by (simp add: insert_item_def)
qed

lemma distinct_insert_item:
  "distinct (map item_key xs) \<Longrightarrow> item_key i \<notin> item_key ` set xs \<Longrightarrow> distinct (map item_key (insert_item i xs))"
proof -
  assume a: "distinct (map item_key xs)" "item_key i \<notin> item_key ` set xs"
  have "mset (map item_key (insert_item i xs)) = mset (map item_key (i # xs))"
    by (simp add: mset_insert_item)
  then have "distinct (map item_key (insert_item i xs)) = distinct (map item_key (i # xs))"
    by (rule mset_eq_imp_distinct_iff)
  with a show ?thesis by simp
qed

lemma insert_item_simps [simp]:
  "insert_item i [] = [i]"
  "insert_item i (x # xs) = (if item_rank x \<le> item_rank i then x # insert_item i xs else i # x # xs)"
  by (simp_all add: insert_item_def)

lemma sorted_insert_item: "sorted (map item_rank xs) \<Longrightarrow> sorted (map item_rank (insert_item i xs))"
proof (induction xs)
  case (Cons x xs)
  then show ?case by (cases "item_rank x \<le> item_rank i") force+
qed simp

lemma aq_enqueue_cases:
  obtains (held) i where "aq_enqueue jid pr idem q = ((i, False), q)"
    and "i \<in> set (pend q) \<and> item_key i = queue_key jid idem \<or> flight q (queue_key jid idem) = Some i"
  | (fresh) "aq_enqueue jid pr idem q =
        ((new_item jid pr (queue_key jid idem), True),
         q\<lparr>pend := insert_item (new_item jid pr (queue_key jid idem)) (pend q)\<rparr>)"
    and "queue_key jid idem \<notin> item_key ` set (pend q)" and "flight q (queue_key jid idem) = None"
proof (cases "find (\<lambda>i. item_key i = queue_key jid idem) (pend q)")
  case (Some i)
  then have "i \<in> set (pend q)" "item_key i = queue_key jid idem"
    by (auto simp: find_Some_iff)
  with Some held [of i] show thesis by (simp add: aq_enqueue_def Let_def)
next
  case None
  then have none: "queue_key jid idem \<notin> item_key ` set (pend q)" by (auto simp: find_None_iff)
  show thesis
  proof (cases "flight q (queue_key jid idem)")
    case None
    with \<open>find _ _ = None\<close> none fresh show thesis by (simp add: aq_enqueue_def Let_def)
  next
    case (Some i)
    with \<open>find _ _ = None\<close> held [of i] show thesis by (simp add: aq_enqueue_def Let_def)
  qed
qed

lemma aq_ok_enqueue: "aq_ok q \<Longrightarrow> aq_ok (snd (aq_enqueue jid pr idem q))"
proof (cases rule: aq_enqueue_cases [of jid pr idem q])
  case fresh
  assume "aq_ok q"
  with fresh(2,3) show ?thesis
    unfolding fresh(1) aq_ok_def
    by (simp add: sorted_insert_item distinct_insert_item domIff)
qed simp

lemma aq_ok_dequeue: "aq_ok q \<Longrightarrow> aq_ok (snd (aq_dequeue q))"
proof (cases "pend q")
  case (Cons i rest)
  assume "aq_ok q"
  with Cons show ?thesis by (simp add: aq_dequeue_def aq_ok_def)
qed (simp add: aq_dequeue_def)

lemma aq_ok_completed: "aq_ok q \<Longrightarrow> aq_ok (aq_completed i q)"
  by (auto simp: aq_completed_def aq_ok_def)

lemma aq_ok_failed: "aq_ok q \<Longrightarrow> aq_ok (aq_failed i b q)"
  by (simp add: aq_failed_def Let_def aq_ok_completed aq_ok_enqueue)

text \<open>Dispatch takes the most urgent item, and among equals the one enqueued first.\<close>

lemma insert_item_fifo:
  "filter (\<lambda>x. item_rank x = item_rank i) (insert_item i xs) =
     filter (\<lambda>x. item_rank x = item_rank i) xs @ [i]"
  if "sorted (map item_rank xs)"
  using that
proof (induction xs)
  case (Cons x xs)
  have "filter (\<lambda>y. item_rank y = item_rank i) xs = []" if "\<not> item_rank x \<le> item_rank i"
    using that Cons.prems by (auto simp: filter_empty_conv)
  with Cons show ?case by auto
qed simp

section \<open>The workers\<close>

text \<open>
  \<open>_drain_queue\<close>. \<open>run\<close> is \<open>run_job\<close> together with whatever else the event loop does while it is
  awaited, so it may change the queue.
\<close>

partial_function (option) drain_queue ::
    "'q queue_ops \<Rightarrow> (string \<Rightarrow> 'q \<times> 'x \<Rightarrow> ('e + unit) \<times> 'q \<times> 'x) \<Rightarrow> 'q \<Rightarrow> 'x \<Rightarrow>
     (('e + unit) \<times> 'q \<times> 'x) option" where
  "drain_queue qo run q x =
     (case q_dequeue qo q of
        (None, q1) \<Rightarrow> Some (Inr (), q1, x)
      | (Some i, q1) \<Rightarrow>
          (case run (q_job_id i) (q1, x) of
             (Inl e, q2, x2) \<Rightarrow> Some (Inl e, q_failed qo i False q2, x2)
           | (Inr _, q2, x2) \<Rightarrow> drain_queue qo run (q_completed qo i q2) x2))"

text \<open>\<open>QueuedDeferredForecastJobWorker._enqueue_and_drain\<close> and its twin for startup recovery.\<close>

definition enqueue_and_drain ::
    "'q queue_ops \<Rightarrow> (string \<Rightarrow> 'q \<times> 'x \<Rightarrow> ('e + unit) \<times> 'q \<times> 'x) \<Rightarrow> job_priority \<Rightarrow> string \<Rightarrow>
     'q \<Rightarrow> 'x \<Rightarrow> (('e + unit) \<times> 'q \<times> 'x) option" where
  "enqueue_and_drain qo run pr jid q x =
     (case q_enqueue qo jid pr (Some jid) q of
        ((_, enqueued), q1) \<Rightarrow>
          if \<not> enqueued then Some (Inr (), q1, x) else drain_queue qo run q1 x)"

section \<open>The contract\<close>

locale forecast_queue =
  fixes qo :: "'q queue_ops" and rel :: "'q \<Rightarrow> aqueue \<Rightarrow> bool" and room :: "'q \<Rightarrow> bool"
  assumes rel_ok: "rel q a \<Longrightarrow> aq_ok a"
    and enqueue_rel: "rel q a \<Longrightarrow> room q \<Longrightarrow>
          fst (q_enqueue qo jid pr idem q) = fst (aq_enqueue jid pr idem a) \<and>
          rel (snd (q_enqueue qo jid pr idem q)) (snd (aq_enqueue jid pr idem a))"
    and dequeue_rel: "rel q a \<Longrightarrow>
          fst (q_dequeue qo q) = fst (aq_dequeue a) \<and> rel (snd (q_dequeue qo q)) (snd (aq_dequeue a))"
    and completed_rel: "rel q a \<Longrightarrow> rel (q_completed qo i q) (aq_completed i a)"
    and failed_rel: "rel q a \<Longrightarrow> requeue \<longrightarrow> room q \<Longrightarrow>
          rel (q_failed qo i requeue q) (aq_failed i requeue a)"
begin

text \<open>
  A drain whose jobs all return runs exactly the pending items, in dispatch order, and ends with
  nothing pending and the same items in flight as before. \<open>I\<close> is what every job keeps true of the
  rest of the state.
\<close>

lemma drain_all:
  assumes "rel q a" and "I x"
    and run: "\<And>i q x. i \<in> set (pend a) \<Longrightarrow> I x \<Longrightarrow>
      run (q_job_id i) (q, x) = (Inr (), q, f (q_job_id i) x) \<and> I (f (q_job_id i) x)"
  shows "\<exists>q'. drain_queue qo run q x =
            Some (Inr (), q', fold (\<lambda>i. f (q_job_id i)) (pend a) x) \<and>
          rel q' (a\<lparr>pend := []\<rparr>)"
  using assms
proof (induction "pend a" arbitrary: q a x)
  case Nil
  obtain q1 where d: "q_dequeue qo q = (None, q1)" and r: "rel q1 a"
    using dequeue_rel [OF Nil(2)] Nil(1) [symmetric] by (cases "q_dequeue qo q") (auto simp: aq_dequeue_def)
  have "rel q1 (a\<lparr>pend := []\<rparr>)" using r Nil(1) by (cases a) simp
  then show ?case by (subst drain_queue.simps) (simp add: d Nil(1) [symmetric])
next
  case (Cons i rest)
  obtain q1 where d: "q_dequeue qo q = (Some i, q1)"
    and r1: "rel q1 (a\<lparr>pend := rest, flight := (flight a)(item_key i \<mapsto> i)\<rparr>)"
    using dequeue_rel [OF Cons(3)] Cons(2) [symmetric] by (cases "q_dequeue qo q") (auto simp: aq_dequeue_def)
  have gone: "flight a (item_key i) = None"
    using rel_ok [OF Cons(3)] Cons(2) [symmetric] by (auto simp: aq_ok_def)
  have r2: "rel (q_completed qo i q1) (a\<lparr>pend := rest\<rparr>)"
    using completed_rel [OF r1, of i] gone by (simp add: aq_completed_def fun_upd_idem)
  have step: "run (q_job_id i) (q1, x) = (Inr (), q1, f (q_job_id i) x)" "I (f (q_job_id i) x)"
    using Cons(5) [of i x q1] Cons(4) Cons(2) [symmetric] by simp_all
  have later: "run (q_job_id i') (q, x) = (Inr (), q, f (q_job_id i') x) \<and> I (f (q_job_id i') x)"
    if "i' \<in> set (pend (a\<lparr>pend := rest\<rparr>))" and "I x" for i' q x
    using Cons(5) [of i' x q] that Cons(2) [symmetric] by simp
  from Cons(1) [OF _ r2 step(2) later] show ?case
    by (subst drain_queue.simps) (simp add: d step(1) Cons(2) [symmetric])
qed

text \<open>
  A job whose callback raises is taken out of flight without being requeued, the drain passes the
  exception on, and the items behind the failed one stay pending.
\<close>

lemma drain_raise:
  assumes "rel q a" and "pend a = i # is" and run: "run (q_job_id i) = (\<lambda>(q, x). (Inl e, q, f x))"
  shows "\<exists>q'. drain_queue qo run q x = Some (Inl e, q', f x) \<and> rel q' (a\<lparr>pend := is\<rparr>)"
proof -
  obtain q1 where d: "q_dequeue qo q = (Some i, q1)"
    and r1: "rel q1 (a\<lparr>pend := is, flight := (flight a)(item_key i \<mapsto> i)\<rparr>)"
    using dequeue_rel [OF assms(1)] assms(2) by (cases "q_dequeue qo q") (auto simp: aq_dequeue_def)
  have gone: "flight a (item_key i) = None"
    using rel_ok [OF assms(1)] assms(2) by (auto simp: aq_ok_def)
  have "rel (q_failed qo i False q1) (a\<lparr>pend := is\<rparr>)"
    using failed_rel [OF r1, of False i] gone by (simp add: aq_failed_def aq_completed_def fun_upd_idem)
  then show ?thesis by (subst drain_queue.simps) (simp add: d run)
qed

text \<open>While a key is held, pending or in flight, nothing is enqueued under it again.\<close>

lemma enqueue_held:
  assumes "rel q a" and "room q"
    and "queue_key jid idem \<in> item_key ` set (pend a) \<union> dom (flight a)"
  shows "\<exists>i q'. q_enqueue qo jid pr idem q = ((i, False), q') \<and> item_key i = queue_key jid idem \<and> rel q' a"
  using rel_ok [OF assms(1)] enqueue_rel [OF assms(1,2), of jid pr idem] assms(3)
  by (cases rule: aq_enqueue_cases [of jid pr idem a])
    (auto simp: aq_ok_def domIff prod_eq_iff)

text \<open>A worker runs what was pending and the new job, each once, in dispatch order.\<close>

lemma worker_runs:
  assumes "rel q a" and "room q" and key: "queue_key jid (Some jid) \<notin> item_key ` set (pend a) \<union> dom (flight a)"
    and "I x" and run: "\<And>k q x. k \<in> insert jid (q_job_id ` set (pend a)) \<Longrightarrow> I x \<Longrightarrow>
      run k (q, x) = (Inr (), q, f k x) \<and> I (f k x)"
  shows "\<exists>q'. enqueue_and_drain qo run pr jid q x =
      Some (Inr (), q', fold (\<lambda>i. f (q_job_id i))
         (insert_item (new_item jid pr (queue_key jid (Some jid))) (pend a)) x) \<and>
      rel q' (a\<lparr>pend := []\<rparr>)"
proof -
  let ?i = "new_item jid pr (queue_key jid (Some jid))"
  have aq: "aq_enqueue jid pr (Some jid) a = ((?i, True), a\<lparr>pend := insert_item ?i (pend a)\<rparr>)"
    using key by (cases rule: aq_enqueue_cases [of jid pr "Some jid" a])
      (auto simp: domIff intro: rev_image_eqI)
  obtain q1 where e: "q_enqueue qo jid pr (Some jid) q = ((?i, True), q1)"
    and r1: "rel q1 (a\<lparr>pend := insert_item ?i (pend a)\<rparr>)"
    using enqueue_rel [OF assms(1,2), of jid pr "Some jid"] aq
    by (cases "q_enqueue qo jid pr (Some jid) q") auto
  have "run (q_job_id i) (q, x) = (Inr (), q, f (q_job_id i) x) \<and> I (f (q_job_id i) x)"
    if "i \<in> set (pend (a\<lparr>pend := insert_item ?i (pend a)\<rparr>))" "I x" for i q x
    using that by (intro run) (auto simp: new_item_def)
  from drain_all [where x = x and I = I and run = run and f = f, OF r1 assms(4) this] show ?thesis by (simp add: enqueue_and_drain_def e)
qed

text \<open>A job whose key is held is not run by the worker that finds it held.\<close>

lemma worker_skips:
  assumes "rel q a" and "room q" and "queue_key jid (Some jid) \<in> item_key ` set (pend a) \<union> dom (flight a)"
  shows "\<exists>q'. enqueue_and_drain qo run pr jid q x = Some (Inr (), q', x) \<and> rel q' a"
  using enqueue_held [OF assms, of pr] by (auto simp: enqueue_and_drain_def)

end

end
