(* ===== verification/Memory_Queue.thy ===== *)
theory Memory_Queue imports
  Queue_Port
begin

text \<open>
  \<open>infrastructure/queue/in_memory_priority_queue.py\<close>: the process-local priority queue. The two
  dicts are association lists. The heap is kept as the sorted list of its entries, the order in
  which \<open>heapq.heappop\<close> returns them; entries compare by rank and then sequence number, as
  \<open>@dataclass(order=True)\<close> makes them. Each method runs under the adapter's lock and is one step;
  \<open>mark_failed\<close> with \<open>requeue\<close> releases the lock before it enqueues, and no other handler runs in
  between because nothing there suspends.
\<close>

record queue_entry =
  e_rank :: int
  e_sequence :: int
  e_item :: queue_item

record memory_queue =
  mq_entries :: "queue_entry list"
  mq_queued_by_key :: "(string \<times> queue_item) list"
  mq_in_flight_by_key :: "(string \<times> queue_item) list"
  mq_sequence :: int

definition empty_memory_queue :: memory_queue where
  "empty_memory_queue =
     \<lparr>mq_entries = [], mq_queued_by_key = [], mq_in_flight_by_key = [], mq_sequence = 0\<rparr>"

definition entry_order :: "queue_entry \<Rightarrow> int \<times> int" where
  "entry_order e = (e_rank e, e_sequence e)"

definition heappush :: "queue_entry list \<Rightarrow> queue_entry \<Rightarrow> queue_entry list" where
  "heappush es e = insort_key entry_order e es"

definition next_sequence :: "memory_queue \<Rightarrow> int \<times> memory_queue" where
  "next_sequence q = (mq_sequence q, q\<lparr>mq_sequence := mq_sequence q + 1\<rparr>)"

definition mq_enqueue ::
    "string \<Rightarrow> job_priority \<Rightarrow> string option \<Rightarrow> memory_queue \<Rightarrow> (queue_item \<times> bool) \<times> memory_queue" where
  "mq_enqueue jid pr idem q =
     (let key = queue_key jid idem;
          existing = (case map_of (mq_queued_by_key q) key of
                        Some i \<Rightarrow> Some i
                      | None \<Rightarrow> map_of (mq_in_flight_by_key q) key)
      in case existing of
           Some i \<Rightarrow> ((i, False), q)
         | None \<Rightarrow>
             (let item = new_item jid pr key;
                  (s, q1) = next_sequence q;
                  entry = \<lparr>e_rank = priority_rank pr, e_sequence = s, e_item = item\<rparr>
              in ((item, True),
                  q1\<lparr>mq_queued_by_key := AList.update key item (mq_queued_by_key q1),
                     mq_entries := heappush (mq_entries q1) entry\<rparr>)))"

text \<open>The loop of \<open>dequeue\<close>: an entry whose item is no longer queued is dropped.\<close>

fun mq_dequeue_loop :: "queue_entry list \<Rightarrow> memory_queue \<Rightarrow> queue_item option \<times> memory_queue" where
  "mq_dequeue_loop [] q = (None, q\<lparr>mq_entries := []\<rparr>)"
| "mq_dequeue_loop (e # es) q =
     (let key = item_key (e_item e) in
      if map_of (mq_queued_by_key q) key \<noteq> Some (e_item e) then mq_dequeue_loop es q
      else (Some (e_item e),
            q\<lparr>mq_entries := es,
              mq_queued_by_key := AList.delete key (mq_queued_by_key q),
              mq_in_flight_by_key := AList.update key (e_item e) (mq_in_flight_by_key q)\<rparr>))"

definition mq_dequeue :: "memory_queue \<Rightarrow> queue_item option \<times> memory_queue" where
  "mq_dequeue q = mq_dequeue_loop (mq_entries q) q"

definition mq_mark_completed :: "queue_item \<Rightarrow> memory_queue \<Rightarrow> memory_queue" where
  "mq_mark_completed i q =
     q\<lparr>mq_in_flight_by_key := AList.delete (item_key i) (mq_in_flight_by_key q)\<rparr>"

definition mq_mark_failed :: "queue_item \<Rightarrow> bool \<Rightarrow> memory_queue \<Rightarrow> memory_queue" where
  "mq_mark_failed i requeue q =
     (let q1 = q\<lparr>mq_in_flight_by_key := AList.delete (item_key i) (mq_in_flight_by_key q)\<rparr>
      in if requeue then snd (mq_enqueue (q_job_id i) (q_priority i) (q_idem i) q1) else q1)"

definition mq_pending_count :: "memory_queue \<Rightarrow> nat" where
  "mq_pending_count q = length (mq_queued_by_key q)"

definition mq_in_flight_count :: "memory_queue \<Rightarrow> nat" where
  "mq_in_flight_count q = length (mq_in_flight_by_key q)"

definition memory_queue_ops :: "memory_queue queue_ops" where
  "memory_queue_ops =
     \<lparr>q_enqueue = mq_enqueue, q_dequeue = mq_dequeue, q_completed = mq_mark_completed,
      q_failed = mq_mark_failed\<rparr>"

lemma memory_queue_ops_sel [simp]:
  "q_enqueue memory_queue_ops = mq_enqueue" "q_dequeue memory_queue_ops = mq_dequeue"
  "q_completed memory_queue_ops = mq_mark_completed" "q_failed memory_queue_ops = mq_mark_failed"
  by (simp_all add: memory_queue_ops_def)

section \<open>The adapter keeps the port's promise\<close>

definition mq_abs :: "memory_queue \<Rightarrow> aqueue" where
  "mq_abs q = \<lparr>pend = map e_item (mq_entries q), flight = map_of (mq_in_flight_by_key q)\<rparr>"

definition keyed :: "queue_entry \<Rightarrow> string \<times> queue_item" where
  "keyed e = (item_key (e_item e), e_item e)"

definition mq_ok :: "memory_queue \<Rightarrow> bool" where
  "mq_ok q \<longleftrightarrow>
     sorted (map entry_order (mq_entries q)) \<and>
     (\<forall>e\<in>set (mq_entries q). e_rank e = item_rank (e_item e) \<and> e_sequence e < mq_sequence q) \<and>
     distinct (map fst (mq_queued_by_key q)) \<and> distinct (map fst (mq_in_flight_by_key q)) \<and>
     map_of (mq_queued_by_key q) = map_of (map keyed (mq_entries q)) \<and>
     aq_ok (mq_abs q)"

definition mq_rel :: "memory_queue \<Rightarrow> aqueue \<Rightarrow> bool" where
  "mq_rel q a \<longleftrightarrow> mq_ok q \<and> a = mq_abs q"

lemma insort_entry:
  assumes "\<forall>x\<in>set es. e_rank x = item_rank (e_item x) \<and> e_sequence x < e_sequence e"
    and "e_rank e = item_rank (e_item e)"
  shows "map e_item (heappush es e) = insert_item (e_item e) (map e_item es)"
  using assms(1)
proof (induction es)
  case (Cons x es)
  then show ?case using assms(2) by (auto simp: heappush_def entry_order_def)
qed (simp add: heappush_def)

lemma map_of_keyed:
  "map_of (map keyed es) k = map_option e_item (find (\<lambda>e. item_key (e_item e) = k) es)"
  by (induction es) (auto simp: keyed_def)

lemma find_map: "find P (map f xs) = map_option f (find (P \<circ> f) xs)"
  by (induction xs) auto

lemma mq_lookup:
  "mq_ok q \<Longrightarrow> map_of (mq_queued_by_key q) k = find (\<lambda>i. item_key i = k) (pend (mq_abs q))"
  by (simp add: mq_ok_def mq_abs_def map_of_keyed find_map comp_def)

lemma map_of_heappush:
  assumes "item_key (e_item e) \<notin> item_key ` e_item ` set es" and "distinct (map (item_key \<circ> e_item) es)"
  shows "map_of (map keyed (heappush es e)) = (map_of (map keyed es))(item_key (e_item e) \<mapsto> e_item e)"
  using map_of_insort [of keyed e es entry_order] assms
  by (simp add: heappush_def keyed_def comp_def image_image)

lemma sorted_heappush: "sorted (map entry_order es) \<Longrightarrow> sorted (map entry_order (heappush es e))"
  by (simp add: heappush_def sorted_insort_key)

lemma set_heappush [simp]: "set (heappush es e) = insert e (set es)"
  by (simp add: heappush_def set_insort_key)

lemma mq_enqueue_step:
  assumes ok: "mq_ok q"
  shows "mq_enqueue jid pr idem q =
           (fst (aq_enqueue jid pr idem (mq_abs q)), snd (mq_enqueue jid pr idem q)) \<and>
         mq_ok (snd (mq_enqueue jid pr idem q)) \<and>
         mq_abs (snd (mq_enqueue jid pr idem q)) = snd (aq_enqueue jid pr idem (mq_abs q))"
proof (cases rule: aq_enqueue_cases [of jid pr idem "mq_abs q"])
  case (held i)
  have a: "aq_ok (mq_abs q)" using ok by (simp add: mq_ok_def)
  have "mq_enqueue jid pr idem q = ((i, False), q)"
  proof (cases "find (\<lambda>i. item_key i = queue_key jid idem) (pend (mq_abs q))")
    case (Some j)
    with held(1) have "j = i" by (simp add: aq_enqueue_def Let_def)
    with Some show ?thesis by (simp add: mq_enqueue_def Let_def mq_lookup [OF ok])
  next
    case None
    with held(2) have "flight (mq_abs q) (queue_key jid idem) = Some i" by (auto simp: find_None_iff)
    with None show ?thesis by (simp add: mq_enqueue_def Let_def mq_lookup [OF ok]) (simp add: mq_abs_def)
  qed
  with held(1) ok show ?thesis by simp
next
  case fresh
  let ?k = "queue_key jid idem" and ?i = "new_item jid pr (queue_key jid idem)"
  let ?e = "\<lparr>e_rank = priority_rank pr, e_sequence = mq_sequence q, e_item = ?i\<rparr>"
  let ?q = "q\<lparr>mq_sequence := mq_sequence q + 1, mq_queued_by_key := AList.update ?k ?i (mq_queued_by_key q),
              mq_entries := heappush (mq_entries q) ?e\<rparr>"
  have none: "find (\<lambda>i. item_key i = ?k) (pend (mq_abs q)) = None"
    unfolding find_None_iff using fresh(2) by (metis imageI)
  have run: "mq_enqueue jid pr idem q = ((?i, True), ?q)"
    using none fresh(3)
    by (simp add: mq_enqueue_def Let_def mq_lookup [OF ok] next_sequence_def)
      (simp add: mq_abs_def Let_def next_sequence_def)
  have rank: "item_rank ?i = priority_rank pr" by (simp add: item_rank_def new_item_def)
  have "map e_item (heappush (mq_entries q) ?e) = insert_item ?i (map e_item (mq_entries q))"
    using insort_entry [of "mq_entries q" ?e] ok rank by (simp add: mq_ok_def)
  then have abs': "mq_abs ?q = (mq_abs q)\<lparr>pend := insert_item ?i (pend (mq_abs q))\<rparr>"
    by (simp add: mq_abs_def)
  have aq: "aq_ok (mq_abs ?q)"
    using aq_ok_enqueue [of "mq_abs q" jid pr idem] ok fresh(1) abs' by (simp add: mq_ok_def)
  have keys: "map_of (map keyed (heappush (mq_entries q) ?e)) = (map_of (map keyed (mq_entries q)))(?k \<mapsto> ?i)"
    using map_of_heappush [of ?e "mq_entries q"] fresh(2) ok
    by (simp add: mq_ok_def aq_ok_def mq_abs_def image_image)
  have "mq_ok ?q"
    using ok rank aq unfolding mq_ok_def
    by (auto simp: keys sorted_heappush)
  with run abs' fresh(1) show ?thesis by simp
qed

lemma mq_dequeue_step:
  assumes ok: "mq_ok q"
  shows "fst (mq_dequeue q) = fst (aq_dequeue (mq_abs q)) \<and> mq_ok (snd (mq_dequeue q)) \<and>
         mq_abs (snd (mq_dequeue q)) = snd (aq_dequeue (mq_abs q))"
proof (cases "mq_entries q")
  case Nil
  then have same: "q\<lparr>mq_entries := []\<rparr> = q" by (cases q) simp
  have "mq_dequeue q = (None, q)" by (simp only: mq_dequeue_def Nil mq_dequeue_loop.simps same)
  moreover have "aq_dequeue (mq_abs q) = (None, mq_abs q)" by (simp add: aq_dequeue_def mq_abs_def Nil)
  ultimately show ?thesis using ok by simp
next
  case (Cons e es)
  let ?k = "item_key (e_item e)"
  let ?q = "q\<lparr>mq_entries := es, mq_queued_by_key := AList.delete ?k (mq_queued_by_key q),
              mq_in_flight_by_key := AList.update ?k (e_item e) (mq_in_flight_by_key q)\<rparr>"
  have look: "map_of (mq_queued_by_key q) = map_of (map keyed (e # es))"
    using ok Cons by (simp add: mq_ok_def)
  then have run: "mq_dequeue q = (Some (e_item e), ?q)"
    by (simp add: mq_dequeue_def Cons keyed_def Let_def)
  have step: "aq_dequeue (mq_abs q) = (Some (e_item e), mq_abs ?q)"
    by (simp add: aq_dequeue_def mq_abs_def Cons)
  have aq: "aq_ok (mq_abs ?q)" using aq_ok_dequeue [of "mq_abs q"] ok step by (simp add: mq_ok_def)
  have "?k \<notin> item_key ` e_item ` set es"
    using ok by (auto simp: mq_ok_def aq_ok_def mq_abs_def Cons)
  then have "map_of (map keyed es) ?k = None"
    by (auto simp: map_of_eq_None_iff keyed_def image_iff)
  then have "(map_of (mq_queued_by_key q))(?k := None) = map_of (map keyed es)"
    by (simp add: look keyed_def fun_upd_idem)
  then have "mq_ok ?q" using ok aq by (simp add: mq_ok_def Cons)
  with run step show ?thesis by simp
qed

lemma mq_completed_step:
  "mq_ok q \<Longrightarrow> mq_ok (mq_mark_completed i q) \<and> mq_abs (mq_mark_completed i q) = aq_completed i (mq_abs q)"
proof -
  assume ok: "mq_ok q"
  have e: "mq_abs (mq_mark_completed i q) = aq_completed i (mq_abs q)"
    by (simp add: mq_abs_def mq_mark_completed_def aq_completed_def)
  have "aq_ok (mq_abs (mq_mark_completed i q))"
    unfolding e using ok by (simp add: mq_ok_def aq_ok_completed)
  with ok e show ?thesis by (simp add: mq_ok_def mq_mark_completed_def)
qed

lemma mq_failed_eq:
  "mq_mark_failed i b q =
     (if b then snd (mq_enqueue (q_job_id i) (q_priority i) (q_idem i) (mq_mark_completed i q))
      else mq_mark_completed i q)"
  by (simp add: mq_mark_failed_def mq_mark_completed_def Let_def)

interpretation mem_queue: forecast_queue memory_queue_ops mq_rel "\<lambda>_. True"
proof
  fix q a and jid pr idem and i :: queue_item and requeue
  assume rel: "mq_rel q a"
  then have ok: "mq_ok q" and a: "a = mq_abs q" by (simp_all add: mq_rel_def)
  show "aq_ok a" using ok a by (simp add: mq_ok_def)
  show "fst (q_enqueue memory_queue_ops jid pr idem q) = fst (aq_enqueue jid pr idem a) \<and>
        mq_rel (snd (q_enqueue memory_queue_ops jid pr idem q)) (snd (aq_enqueue jid pr idem a))"
    using mq_enqueue_step [OF ok, of jid pr idem] a by (auto simp: mq_rel_def prod_eq_iff)
  show "fst (q_dequeue memory_queue_ops q) = fst (aq_dequeue a) \<and>
        mq_rel (snd (q_dequeue memory_queue_ops q)) (snd (aq_dequeue a))"
    using mq_dequeue_step [OF ok] a by (simp add: mq_rel_def)
  show done': "mq_rel (q_completed memory_queue_ops i q) (aq_completed i a)"
    using mq_completed_step [OF ok] a by (simp add: mq_rel_def)
  show "mq_rel (q_failed memory_queue_ops i requeue q) (aq_failed i requeue a)"
    using mq_completed_step [OF ok, of i] a
      mq_enqueue_step [of "mq_mark_completed i q" "q_job_id i" "q_priority i" "q_idem i"]
    by (simp add: mq_rel_def mq_failed_eq aq_failed_def Let_def)
qed

lemma mq_rel_empty: "mq_rel empty_memory_queue \<lparr>pend = [], flight = Map.empty\<rparr>"
  by (simp add: mq_rel_def mq_ok_def mq_abs_def empty_memory_queue_def aq_ok_def)

text \<open>The counters report the pending and in-flight items.\<close>

lemma mq_counts:
  assumes ok: "mq_ok q"
  shows "mq_pending_count q = length (pend (mq_abs q))"
    and "mq_in_flight_count q = card (dom (flight (mq_abs q)))"
proof -
  have d: "distinct (map fst (mq_queued_by_key q))" and
    l: "map_of (mq_queued_by_key q) = map_of (map keyed (mq_entries q))" and
    a: "distinct (map item_key (pend (mq_abs q)))"
    using ok by (simp_all add: mq_ok_def aq_ok_def)
  have "set (map fst (mq_queued_by_key q)) = set (map fst (map keyed (mq_entries q)))"
    using arg_cong [OF l, of dom] by (simp only: dom_map_of_conv_image_fst list.set_map)
  also have "map fst (map keyed (mq_entries q)) = map item_key (pend (mq_abs q))"
    by (simp add: mq_abs_def keyed_def)
  finally show "mq_pending_count q = length (pend (mq_abs q))"
    using distinct_card [OF d] distinct_card [OF a] by (simp add: mq_pending_count_def)
  have f: "distinct (map fst (mq_in_flight_by_key q))" using ok by (simp add: mq_ok_def)
  show "mq_in_flight_count q = card (dom (flight (mq_abs q)))"
    using distinct_card [OF f] by (simp add: mq_in_flight_count_def mq_abs_def dom_map_of_conv_image_fst)
qed

end
