(* ===== verification/Job_Dispatch.thy ===== *)
theory Job_Dispatch imports
  Provider_Port
  Job_Recovery
  Memory_Queue
begin

text \<open>
  The parts together: the queue workers run \<open>RunForecastJob\<close> with a provider on the jobs of a store.
  The callback of a worker is \<open>run_job\<close>; \<open>provider_of k\<close> is the provider as it answers the call for
  job \<open>k\<close>. A job that is run to its end before the next one is dequeued changes the queue no
  further.

  \<open>start_workers\<close> is the startup of the application: \<open>QueuedAsyncioTaskForecastJobWorker.enqueue\<close>
  makes a task of \<open>_enqueue_and_drain\<close> for every id; here each task runs to its end before the next
  one starts, which is one schedule of the event loop. An exception ends its task only.
\<close>

definition run_job :: "'s job_store_ops \<Rightarrow> (string \<Rightarrow> forecast_provider) \<Rightarrow> string \<Rightarrow>
    'q \<times> 's world \<Rightarrow> (job_error + unit) \<times> 'q \<times> 's world" where
  "run_job st provider_of k = (\<lambda>(q, w). case run_execute st (provider_of k) k w of (r, w') \<Rightarrow> (r, q, w'))"

fun start_workers :: "'q queue_ops \<Rightarrow> (string \<Rightarrow> 'q \<times> 'x \<Rightarrow> ('e + unit) \<times> 'q \<times> 'x) \<Rightarrow> job_priority \<Rightarrow>
    string list \<Rightarrow> 'q \<Rightarrow> 'x \<Rightarrow> ('q \<times> 'x) option" where
  "start_workers qo run pr [] q x = Some (q, x)"
| "start_workers qo run pr (k # ks) q x =
     (case enqueue_and_drain qo run pr k q x of
        None \<Rightarrow> None
      | Some (r, q', x') \<Rightarrow> start_workers qo run pr ks q' x')"

section \<open>One job\<close>

text \<open>What a run makes of the map of jobs: a queued job ends as the provider answers, another job is
  left alone.\<close>

definition run_result :: "forecast_provider \<Rightarrow> forecast_job \<Rightarrow> forecast_job \<Rightarrow> bool" where
  "run_result p j j' =
     (if status j = Queued then ended_with j (get_provider_result p j) j' else j' = j)"

lemma ended_with_terminal: "ended_with j a j' \<Longrightarrow> status j' \<in> TERMINAL_JOB_STATUSES"
  by (auto simp: ended_with_def TERMINAL_JOB_STATUSES_def split: sum.splits)

lemma run_result_terminal: "run_result p j j' \<Longrightarrow> status j \<noteq> Running \<Longrightarrow> status j' \<in> TERMINAL_JOB_STATUSES"
  by (cases "status j") (auto simp: run_result_def TERMINAL_JOB_STATUSES_def ended_with_def split: sum.splits)

context provider_port
begin

lemma run_execute_result:
  assumes "job_store st ok amap" and "ok (stored w)" and "amap (stored w) k = Some j" and "usable p"
  shows "\<exists>w' j'. run_execute st (provider p) k w = (Inr (), w') \<and> ok (stored w') \<and>
    amap (stored w') = (amap (stored w))(k \<mapsto> j') \<and> run_result (provider p) j j'"
proof (cases "status j = Queued")
  case True
  with job_ends [OF assms(1-3) _ assms(4)] show ?thesis by (simp add: run_result_def)
next
  case False
  have wf: "store_wf (amap (stored w))" using job_store.inv_wf [OF assms(1,2)] .
  have k: "normalize_job_id k = Inr k" using store_wfD(2) [OF wf assms(3)] by simp
  obtain r w' where s: "run_start st k w = (r, w')" by fastforce
  from simulatesD [OF job_store.sim_run_start [OF assms(1)] assms(2) this] have s':
    "ok (stored w')" "run_start ref_store k (abs_world amap w) = (r, abs_world amap w')" by auto
  moreover have "run_start ref_store k (abs_world amap w) = (Inr None, abs_world amap w)"
    using run_start_run [of "abs_world amap w" k k j] wf k assms(3) False by simp
  ultimately have r: "r = Inr None" "amap (stored w') = amap (stored w)"
    by (auto dest: arg_cong [of _ _ stored])
  have "run_execute st (provider p) k w = (Inr (), w')"
    using s r by (simp add: run_execute_def bindM_def)
  with s'(1) r(2) assms(3) False show ?thesis
    by (intro exI [of _ w'] exI [of _ j]) (simp add: run_result_def fun_upd_idem)
qed

end

section \<open>A drain of the queue\<close>

text \<open>The world after a job is run, and the jobs after a list of them.\<close>

definition world_after :: "'s job_store_ops \<Rightarrow> (string \<Rightarrow> forecast_provider) \<Rightarrow> string \<Rightarrow> 's world \<Rightarrow> 's world" where
  "world_after st provider_of k w = snd (run_execute st (provider_of k) k w)"

definition jobs_present :: "('s \<Rightarrow> bool) \<Rightarrow> ('s \<Rightarrow> job_map) \<Rightarrow> string set \<Rightarrow> 's world \<Rightarrow> bool" where
  "jobs_present ok amap K w \<longleftrightarrow> ok (stored w) \<and> K \<subseteq> dom (amap (stored w))"

definition all_run :: "(string \<Rightarrow> forecast_provider) \<Rightarrow> string set \<Rightarrow> job_map \<Rightarrow> job_map \<Rightarrow> bool" where
  "all_run provider_of K m m' \<longleftrightarrow>
     dom m' = dom m \<and>
     (\<forall>k j. m k = Some j \<longrightarrow> (\<exists>j'. m' k = Some j' \<and> (if k \<in> K then run_result (provider_of k) j j' else j' = j)))"

lemma all_run_empty: "all_run provider_of {} m m"
  by (simp add: all_run_def)

lemma all_run_origin:
  assumes "all_run provider_of K m m'" and "m' k = Some j'"
  shows "\<exists>j. m k = Some j \<and> (if k \<in> K then run_result (provider_of k) j j' else j' = j)"
proof -
  have "k \<in> dom m" using assms by (auto simp: all_run_def)
  then obtain j where "m k = Some j" by blast
  with assms show ?thesis by (fastforce simp: all_run_def)
qed

lemma all_run_upd:
  assumes "m k = Some j" and "run_result (provider_of k) j j'" and "all_run provider_of K (m(k \<mapsto> j')) m'"
  shows "all_run provider_of (insert k K) m m'"
proof -
  have "\<exists>i'. m' x = Some i' \<and> (if x \<in> insert k K then run_result (provider_of x) i i' else i' = i)"
    if x: "m x = Some i" for x i
  proof (cases "x = k")
    case True
    have "(m(k \<mapsto> j')) k = Some j'" by simp
    then obtain i' where i': "m' k = Some i'" "if k \<in> K then run_result (provider_of k) j' i' else i' = j'"
      using assms(3) unfolding all_run_def by blast
    have "run_result (provider_of k) j i'"
      using i'(2) assms(2) ended_with_terminal [of j "get_provider_result (provider_of k) j" j']
      by (auto simp: run_result_def TERMINAL_JOB_STATUSES_def split: if_splits)
    with i' True x assms(1) show ?thesis by simp
  next
    case False
    then show ?thesis using assms(3) x by (auto simp: all_run_def)
  qed
  moreover have "dom m' = dom m" using assms(1,3) by (auto simp: all_run_def)
  ultimately show ?thesis by (simp add: all_run_def)
qed

context provider_port
begin

lemma world_after_run:
  assumes "job_store st ok amap" and "\<And>k. \<exists>s. usable s \<and> pv k = provider s" and "k \<in> K" and "jobs_present ok amap K w"
  shows "fst (run_execute st (pv k) k w) = Inr () \<and>
    jobs_present ok amap K (world_after st pv k w)"
proof -
  have ok: "ok (stored w)" and K: "K \<subseteq> dom (amap (stored w))"
    using assms(4) by (simp_all add: jobs_present_def)
  then obtain j where j: "amap (stored w) k = Some j" using assms(3) by auto
  from run_execute_result [OF assms(1) ok j] assms(2) [of k] obtain w' j' where
    "run_execute st (pv k) k w = (Inr (), w')" "ok (stored w')"
    "amap (stored w') = (amap (stored w))(k \<mapsto> j')" by metis
  with K show ?thesis by (simp add: world_after_def jobs_present_def subset_insertI2)
qed

lemma run_job_step:
  assumes "job_store st ok amap" and "\<And>k. \<exists>s. usable s \<and> pv k = provider s" and "k \<in> K" and "jobs_present ok amap K w"
  shows "run_job st pv k (q, w) = (Inr (), q, world_after st pv k w)"
  using world_after_run [where pv = pv, OF assms]
  by (cases "run_execute st (pv k) k w") (simp add: run_job_def world_after_def)

lemma jobs_after:
  assumes "job_store st ok amap" and "\<And>k. \<exists>s. usable s \<and> pv k = provider s" and "jobs_present ok amap K w"
    and "set ks \<subseteq> K"
  shows "ok (stored (fold (world_after st pv) ks w)) \<and>
    all_run pv (set ks) (amap (stored w))
      (amap (stored (fold (world_after st pv) ks w)))"
  using assms(3,4)
proof (induction ks arbitrary: w)
  case Nil
  then show ?case by (simp add: all_run_empty jobs_present_def)
next
  case (Cons k ks)
  let ?w = "world_after st pv k w"
  obtain j where j: "amap (stored w) k = Some j"
    using Cons.prems by (auto simp: jobs_present_def)
  then obtain j' where j': "amap (stored ?w) = (amap (stored w))(k \<mapsto> j')" "run_result (pv k) j j'"
    using run_execute_result [OF assms(1) _ j] assms(2) [of k] Cons.prems(1)
    by (metis jobs_present_def snd_conv world_after_def)
  have present: "jobs_present ok amap K ?w"
    using world_after_run [where pv = pv, OF assms(1,2) _ Cons.prems(1), of k] Cons.prems(2) by simp
  have "set ks \<subseteq> K" using Cons.prems(2) by simp
  note later = Cons.IH [OF present this]
  have "all_run pv (insert k (set ks)) (amap (stored w)) (amap (stored (fold (world_after st pv) ks ?w)))"
    by (rule all_run_upd [where m = "amap (stored w)" and provider_of = pv, OF j j'(2)])
      (use later in \<open>simp add: j'(1) [symmetric]\<close>)
  with later show ?case by simp
qed

text \<open>A drain ends, and every job it was given has ended.\<close>

lemma drain_ends_jobs:
  assumes "job_store st ok amap" and "forecast_queue qo rel room" and "\<And>k. \<exists>s. usable s \<and> pv k = provider s"
    and "rel q a" and "ok (stored w)" and "q_job_id ` set (pend a) \<subseteq> dom (amap (stored w))"
  shows "\<exists>q' w'. drain_queue qo (run_job st pv) q w = Some (Inr (), q', w') \<and>
    rel q' (a\<lparr>pend := []\<rparr>) \<and> ok (stored w') \<and>
    all_run pv (q_job_id ` set (pend a)) (amap (stored w)) (amap (stored w'))"
proof -
  let ?K = "q_job_id ` set (pend a)" and ?f = "world_after st pv"
  have present: "jobs_present ok amap ?K w" using assms(5,6) by (simp add: jobs_present_def)
  have fold: "fold (\<lambda>i. ?f (q_job_id i)) (pend a) w = fold ?f (map q_job_id (pend a)) w"
    by (simp add: fold_map comp_def)
  have "\<exists>q'. drain_queue qo (run_job st pv) q w =
      Some (Inr (), q', fold (\<lambda>i. ?f (q_job_id i)) (pend a) w) \<and> rel q' (a\<lparr>pend := []\<rparr>)"
    by (rule forecast_queue.drain_all [where I = "jobs_present ok amap ?K", OF assms(2,4) present])
      (simp add: run_job_step [where pv = pv and K = ?K, OF assms(1,3)]
        world_after_run [where pv = pv and K = ?K, OF assms(1,3)])
  then show ?thesis
    using jobs_after [OF assms(1,3) present, of "map q_job_id (pend a)"] by (auto simp: fold)
qed

section \<open>Startup\<close>

text \<open>With an empty queue each worker runs its own job.\<close>

lemma start_workers_run:
  assumes "job_store st ok amap" and "forecast_queue qo rel (\<lambda>_. True)" and "\<And>k. \<exists>s. usable s \<and> pv k = provider s"
    and "jobs_present ok amap K w" and "set ks \<subseteq> K" and "rel q \<lparr>pend = [], flight = Map.empty\<rparr>"
  shows "\<exists>q'. start_workers qo (run_job st pv) pr ks q w =
      Some (q', fold (world_after st pv) ks w) \<and>
    rel q' \<lparr>pend = [], flight = Map.empty\<rparr>"
  using assms(4-6)
proof (induction ks arbitrary: q w)
  case (Cons k ks)
  let ?f = "world_after st pv"
  have "\<exists>q'. enqueue_and_drain qo (run_job st pv) pr k q w =
      Some (Inr (), q', fold (\<lambda>i. ?f (q_job_id i))
         (insert_item (new_item k pr (queue_key k (Some k))) (pend \<lparr>pend = [], flight = Map.empty\<rparr>)) w) \<and>
      rel q' (\<lparr>pend = [], flight = Map.empty\<rparr>\<lparr>pend := []\<rparr>)"
    by (rule forecast_queue.worker_runs [where I = "jobs_present ok amap K", OF assms(2) Cons.prems(3)])
      (use Cons.prems in \<open>simp_all add: run_job_step [where pv = pv and K = K, OF assms(1,3)]
        world_after_run [where pv = pv and K = K, OF assms(1,3)]\<close>)
  then obtain q1 where q1: "enqueue_and_drain qo (run_job st pv) pr k q w = Some (Inr (), q1, ?f k w)"
    "rel q1 \<lparr>pend = [], flight = Map.empty\<rparr>" by (auto simp: new_item_def)
  have "jobs_present ok amap K (?f k w)" 
    using world_after_run [where pv = pv, OF assms(1,3) _ Cons.prems(1), of k] Cons.prems(2) by simp
  from Cons.IH [OF this _ q1(2)] Cons.prems(2) show ?case by (simp add: q1(1))
qed simp

text \<open>Recovery and the workers it starts, with a queue that never runs out of room.\<close>

lemma startup_ends_every_job:
  assumes "job_store st ok amap" and "forecast_queue qo rel (\<lambda>_. True)"
    and "\<And>k. \<exists>s. usable s \<and> pv k = provider s" and "ok (stored w)"
    and "minus_seconds (clock_fn w (ticks w)) (int_or timeout default_timeout) = Inr limit"
    and "rel q \<lparr>pend = [], flight = Map.empty\<rparr>"
  shows "\<exists>ids rep w1 q' w2. recover_interrupted_jobs st default_timeout timeout w = (Inr (ids, Inr rep), w1) \<and>
    start_workers qo (run_job st pv) pr ids q w1 = Some (q', w2) \<and>
    rel q' \<lparr>pend = [], flight = Map.empty\<rparr> \<and> dom (amap (stored w2)) = dom (amap (stored w)) \<and>
    (\<forall>k j. amap (stored w2) k = Some j \<longrightarrow> status j \<in> TERMINAL_JOB_STATUSES)"
proof -
  let ?m = "amap (stored w)"
  let ?ids = "map job_id (fresh_jobs limit (active_jobs ?m))"
  obtain w1 where run: "recover_interrupted_jobs st default_timeout timeout w =
        (Inr (?ids, Inr (recovery_report_of limit ?m)), w1)"
    and rs: "recovered_store limit (clock_fn w (ticks w)) (int_or timeout default_timeout) ?m (amap (stored w1))"
    using job_store.recover_exact [OF assms(1,4,5)] by blast
  note ok1 = simulatesD(1) [OF job_store.sim_recover [OF assms(1)] assms(4) run]
  note after = recovered_store_active [OF job_store.inv_wf [OF assms(1,4)] rs]
  let ?w2 = "fold (world_after st pv) ?ids w1"
  have present: "jobs_present ok amap (set ?ids) w1"
    using ok1 unfolding jobs_present_def after(1) by auto
  obtain q' where q': "start_workers qo (run_job st pv) pr ?ids q w1 = Some (q', ?w2)"
    "rel q' \<lparr>pend = [], flight = Map.empty\<rparr>"
    using start_workers_run [where pv = pv and pr = pr, OF assms(1,2,3) present order_refl assms(6)] by blast
  have all: "all_run pv (set ?ids) (amap (stored w1)) (amap (stored ?w2))"
    using jobs_after [where pv = pv, OF assms(1,3) present order_refl] by blast
  have "status j \<in> TERMINAL_JOB_STATUSES" if here: "amap (stored ?w2) k = Some j" for k j
  proof -
    obtain j1 where j1: "amap (stored w1) k = Some j1" "if k \<in> set ?ids then run_result (pv k) j1 j else j = j1"
      using all_run_origin [OF all here] by blast
    show ?thesis
    proof (cases "k \<in> set ?ids")
      case True
      with j1 after(2) run_result_terminal show ?thesis by auto
    next
      case False
      then have "status j1 \<notin> ACTIVE_JOB_STATUSES" using after(1) j1(1) by auto
      with False j1(2) show ?thesis by (cases "status j1") (auto simp: ACTIVE_JOB_STATUSES_def TERMINAL_JOB_STATUSES_def)
    qed
  qed
  moreover have "dom (amap (stored ?w2)) = dom ?m" using all after(3) by (simp add: all_run_def)
  ultimately show ?thesis using run q'
    by (intro exI [of _ ?ids] exI [of _ "recovery_report_of limit ?m"] exI [of _ w1] exI [of _ q'] exI [of _ ?w2]) simp
qed

end

end
