(* ===== verification/Worker_System.thy ===== *)
theory Worker_System imports
  Queue_Port
begin

text \<open>
  The queue workers of \<open>infrastructure/queue/asyncio_worker.py\<close> as they run beside each other on one
  event loop: every \<open>enqueue\<close> of a worker creates a task of \<open>_enqueue_and_drain\<close>, every task drains
  the shared queue, and the loop switches between tasks wherever one awaits. \<open>dispatch_step\<close> is one
  stretch of one task between two awaits; a run of a job is the time a task spends in \<open>Executing\<close>.
  The order of the steps is left open, so that whatever is proved holds under every schedule.

  One step of a task makes one call of the queue. The methods of the memory queue do not await inside
  their lock, and those of the Redis queue change the pending and in-flight items in one script. The
  set of tasks that a worker keeps has no part in this; the last section is about it.
\<close>

datatype task = Enqueuing string job_priority | Draining | Executing queue_item | Finished | Raised

inductive dispatch_step :: "'q queue_ops \<Rightarrow> 'q \<times> task list \<Rightarrow> 'q \<times> task list \<Rightarrow> bool" for qo where
  enqueue: "i < length ts \<Longrightarrow> ts ! i = Enqueuing jid pr \<Longrightarrow> q_enqueue qo jid pr (Some jid) q = ((x, enqueued), q') \<Longrightarrow>
    dispatch_step qo (q, ts) (q', ts[i := if enqueued then Draining else Finished])"
| take: "i < length ts \<Longrightarrow> ts ! i = Draining \<Longrightarrow> q_dequeue qo q = (Some x, q') \<Longrightarrow>
    dispatch_step qo (q, ts) (q', ts[i := Executing x])"
| stop: "i < length ts \<Longrightarrow> ts ! i = Draining \<Longrightarrow> q_dequeue qo q = (None, q') \<Longrightarrow>
    dispatch_step qo (q, ts) (q', ts[i := Finished])"
| complete: "i < length ts \<Longrightarrow> ts ! i = Executing x \<Longrightarrow>
    dispatch_step qo (q, ts) (q_completed qo x q, ts[i := Draining])"
| raise: "i < length ts \<Longrightarrow> ts ! i = Executing x \<Longrightarrow>
    dispatch_step qo (q, ts) (q_failed qo x False q, ts[i := Raised])"

text \<open>
  \<open>dispatch_run qo room n s\<close>: from an empty list of tasks and the queue \<open>q\<^sub>0\<close>, \<open>n\<close> steps of tasks,
  with the creation of any number of tasks in between, lead to \<open>s\<close>; the queue had room before each.
\<close>

inductive dispatch_run :: "'q queue_ops \<Rightarrow> ('q \<Rightarrow> bool) \<Rightarrow> 'q \<Rightarrow> nat \<Rightarrow> 'q \<times> task list \<Rightarrow> bool" for qo room q0 where
  start: "dispatch_run qo room q0 0 (q0, [])"
| create: "dispatch_run qo room q0 n (q, ts) \<Longrightarrow> dispatch_run qo room q0 n (q, ts @ [Enqueuing jid pr])"
| step: "dispatch_run qo room q0 n s \<Longrightarrow> room (fst s) \<Longrightarrow> dispatch_step qo s s' \<Longrightarrow> dispatch_run qo room q0 (Suc n) s'"

section \<open>The invariant\<close>

text \<open>The items that tasks hold, as a map from task numbers.\<close>

definition holds :: "task list \<Rightarrow> nat \<Rightarrow> queue_item \<Rightarrow> bool" where
  "holds ts i x \<longleftrightarrow> i < length ts \<and> ts ! i = Executing x"

fun task_cost :: "task \<Rightarrow> nat" where
  "task_cost (Enqueuing _ _) = 4"
| "task_cost Draining = 1"
| "task_cost (Executing _) = 2"
| "task_cost Finished = 0"
| "task_cost Raised = 0"

definition steps_left :: "aqueue \<Rightarrow> task list \<Rightarrow> nat" where
  "steps_left a ts = 2 * length (pend a) + sum_list (map task_cost ts)"

definition awake :: "task \<Rightarrow> bool" where
  "awake t \<longleftrightarrow> t = Draining \<or> t = Raised \<or> (\<exists>x. t = Executing x)"

definition job_keyed :: "queue_item \<Rightarrow> bool" where
  "job_keyed x \<longleftrightarrow> item_key x = q_job_id x"

text \<open>What is in flight is what the tasks hold, each item by one task; an item is keyed by its job;
  and while something is pending some task is still draining, unless one was ended by an exception.\<close>

definition workers_ok :: "aqueue \<Rightarrow> task list \<Rightarrow> bool" where
  "workers_ok a ts \<longleftrightarrow>
     aq_ok a \<and>
     (\<forall>x\<in>set (pend a). job_keyed x) \<and>
     (\<forall>i x. holds ts i x \<longrightarrow> flight a (item_key x) = Some x \<and> job_keyed x) \<and>
     (\<forall>k x. flight a k = Some x \<longrightarrow> (\<exists>i. holds ts i x)) \<and>
     (\<forall>i j x. holds ts i x \<longrightarrow> holds ts j x \<longrightarrow> i = j) \<and>
     (pend a \<noteq> [] \<longrightarrow> (\<exists>t\<in>set ts. awake t))"

lemma workers_okI:
  assumes "aq_ok a" and "\<And>x. x \<in> set (pend a) \<Longrightarrow> job_keyed x"
    and "\<And>i x. holds ts i x \<Longrightarrow> flight a (item_key x) = Some x \<and> job_keyed x"
    and "\<And>k x. flight a k = Some x \<Longrightarrow> \<exists>i. holds ts i x"
    and "\<And>i j x. holds ts i x \<Longrightarrow> holds ts j x \<Longrightarrow> i = j"
    and "pend a \<noteq> [] \<Longrightarrow> \<exists>t\<in>set ts. awake t"
  shows "workers_ok a ts"
  using assms by (simp add: workers_ok_def)

lemma workers_okD:
  assumes "workers_ok a ts"
  shows "aq_ok a" and "x \<in> set (pend a) \<Longrightarrow> job_keyed x"
    and "holds ts i x \<Longrightarrow> flight a (item_key x) = Some x \<and> job_keyed x"
    and "flight a k = Some x \<Longrightarrow> \<exists>i. holds ts i x"
    and "holds ts i x \<Longrightarrow> holds ts j x \<Longrightarrow> i = j"
    and "pend a \<noteq> [] \<Longrightarrow> \<exists>t\<in>set ts. awake t"
  using assms by (simp_all add: workers_ok_def)

lemma queue_key_self: "queue_key jid (Some jid) = jid"
  by (simp add: queue_key_def opt_str_or_def str_or_def)

lemma holds_update:
  "i < length ts \<Longrightarrow> holds (ts[i := t]) j x \<longleftrightarrow> (if j = i then t = Executing x else holds ts j x)"
  by (auto simp: holds_def)

lemma holds_other: "holds ts j x \<Longrightarrow> ts ! i \<noteq> Executing x \<Longrightarrow> j \<noteq> i"
  by (auto simp: holds_def)

lemma holds_append: "holds (ts @ [Enqueuing jid pr]) i x \<longleftrightarrow> holds ts i x"
  by (auto simp: holds_def nth_append)

lemma cost_update:
  "i < length ts \<Longrightarrow> sum_list (map task_cost (ts[i := t])) + task_cost (ts ! i) = sum_list (map task_cost ts) + task_cost t"
  by (induction ts arbitrary: i) (auto simp: nth_Cons split: nat.splits)

lemma awake_update:
  assumes "i < length ts" and "\<exists>t\<in>set ts. awake t" and "awake t \<or> \<not> awake (ts ! i)"
  shows "\<exists>t\<in>set (ts[i := t]). awake t"
proof (cases "awake t")
  case True
  then show ?thesis using assms(1) by (meson set_update_memI)
next
  case False
  obtain j where j: "j < length ts" "awake (ts ! j)" using assms(2) by (auto simp: in_set_conv_nth)
  with False assms(3) have "j \<noteq> i" by auto
  then have "ts[i := t] ! j = ts ! j" by simp
  with j show ?thesis by (metis length_list_update nth_mem)
qed

section \<open>Every step keeps it and makes progress\<close>

definition step_fine :: "aqueue \<Rightarrow> task list \<Rightarrow> aqueue \<Rightarrow> task list \<Rightarrow> bool" where
  "step_fine a ts a' ts' \<longleftrightarrow> workers_ok a' ts' \<and> steps_left a' ts' < steps_left a ts"

lemma step_fineI: "workers_ok a' ts' \<Longrightarrow> steps_left a' ts' < steps_left a ts \<Longrightarrow> step_fine a ts a' ts'"
  by (simp add: step_fine_def)

text \<open>A task that holds nothing goes on to hold nothing.\<close>

lemma idle_holds:
  assumes "i < length ts" and "\<And>y. ts ! i \<noteq> Executing y" and "\<And>y. t \<noteq> Executing y"
  shows "holds (ts[i := t]) j x \<longleftrightarrow> holds ts j x"
  using assms by (cases "j = i") (auto simp: holds_def)

lemma enqueue_fine:
  assumes ok: "workers_ok a ts" and i: "i < length ts" "ts ! i = Enqueuing jid pr"
    and e: "aq_enqueue jid pr (Some jid) a = ((x, b), a')"
  shows "step_fine a ts a' (ts[i := if b then Draining else Finished])"
proof (cases rule: aq_enqueue_cases [of jid pr "Some jid" a])
  case (held y)
  with e have a': "a' = a" "b = False" by auto
  have h: "holds (ts[i := Finished]) j z \<longleftrightarrow> holds ts j z" for j z using idle_holds i by simp
  have "workers_ok a (ts[i := Finished])"
    by (rule workers_okI) (use workers_okD [OF ok] awake_update [OF i(1), of Finished] i(2) in \<open>auto simp: h awake_def\<close>)
  moreover have "steps_left a (ts[i := Finished]) < steps_left a ts"
    using cost_update [OF i(1), of Finished] i(2) by (simp add: steps_left_def)
  ultimately show ?thesis by (simp add: step_fine_def a')
next
  case fresh
  let ?x = "new_item jid pr (queue_key jid (Some jid))"
  have a': "a' = a\<lparr>pend := insert_item ?x (pend a)\<rparr>" "b = True" using fresh(1) e by auto
  have "item_key ?x = jid" by (simp only: item_key_new_item) (rule queue_key_self)
  moreover have "q_job_id ?x = jid" by (simp add: new_item_def)
  ultimately have key: "job_keyed ?x" by (simp only: job_keyed_def)
  have h: "holds (ts[i := Draining]) j z \<longleftrightarrow> holds ts j z" for j z using idle_holds i by simp
  have len: "length (insert_item ?x (pend a)) = Suc (length (pend a))"
    using arg_cong [OF mset_insert_item [of ?x "pend a"], of size] by simp
  have "steps_left a' (ts[i := Draining]) < steps_left a ts"
    using cost_update [OF i(1), of Draining] i(2) by (simp add: steps_left_def a' len)
  moreover have "workers_ok a' (ts[i := Draining])"
  proof (rule workers_okI)
    show "aq_ok a'" using workers_okD(1) [OF ok] aq_ok_enqueue [of a jid pr "Some jid"] e by simp
    show "\<exists>t\<in>set (ts[i := Draining]). awake t" using i(1) by (auto simp: awake_def intro: set_update_memI)
  qed (use workers_okD [OF ok] key in \<open>auto simp: h a'\<close>)
  ultimately show ?thesis by (simp add: step_fine_def a')
qed

lemma take_fine:
  assumes ok: "workers_ok a ts" and i: "i < length ts" "ts ! i = Draining" and d: "aq_dequeue a = (Some x, a')"
  shows "step_fine a ts a' (ts[i := Executing x])"
proof (rule step_fineI)
  obtain rest where p: "pend a = x # rest" and a': "a' = a\<lparr>pend := rest, flight := (flight a)(item_key x \<mapsto> x)\<rparr>"
    using d by (auto simp: aq_dequeue_def split: list.splits)
  have gone: "flight a (item_key x) = None" using workers_okD(1) [OF ok] p by (auto simp: aq_ok_def)
  have h: "holds (ts[i := Executing x]) j y \<longleftrightarrow> (if j = i then y = x else holds ts j y)" for j y
    using i(1) by (auto simp: holds_update)
  have other: "item_key y \<noteq> item_key x \<and> y \<noteq> x \<and> j \<noteq> i" if "holds ts j y" for j y
    using workers_okD(3) [OF ok that] gone that i(2) by (auto simp: holds_def)
  have free: "\<not> holds ts j x" for j using other by blast
  show "steps_left a' (ts[i := Executing x]) < steps_left a ts"
    using cost_update [OF i(1), of "Executing x"] i(2) by (simp add: steps_left_def a' p)
  show "workers_ok a' (ts[i := Executing x])"
  proof (rule workers_okI)
    show "aq_ok a'" using workers_okD(1) [OF ok] aq_ok_dequeue [of a] d by simp
    show "\<exists>t\<in>set (ts[i := Executing x]). awake t" using i(1) by (auto simp: awake_def intro: set_update_memI)
    show "\<exists>j. holds (ts[i := Executing x]) j y" if "flight a' k = Some y" for k y
      using that workers_okD(4) [OF ok, of k y] other by (fastforce simp: h a' split: if_splits)
  qed (use workers_okD [OF ok] other free p in \<open>auto simp: h a' split: if_splits\<close>)
qed

lemma stop_fine:
  assumes ok: "workers_ok a ts" and i: "i < length ts" "ts ! i = Draining" and d: "aq_dequeue a = (None, a')"
  shows "step_fine a ts a' (ts[i := Finished])"
proof (rule step_fineI)
  have p: "pend a = []" and a': "a' = a" using d by (auto simp: aq_dequeue_def split: list.splits)
  have h: "holds (ts[i := Finished]) j z \<longleftrightarrow> holds ts j z" for j z using idle_holds i by simp
  show "steps_left a' (ts[i := Finished]) < steps_left a ts"
    using cost_update [OF i(1), of Finished] i(2) by (simp add: steps_left_def a')
  show "workers_ok a' (ts[i := Finished])"
    by (rule workers_okI) (use workers_okD [OF ok] p in \<open>auto simp: h a'\<close>)
qed

lemma release_fine:
  assumes ok: "workers_ok a ts" and i: "i < length ts" "ts ! i = Executing x" and t: "t = Draining \<or> t = Raised"
  shows "step_fine a ts (aq_completed x a) (ts[i := t])"
proof (rule step_fineI)
  have x: "holds ts i x" using i by (simp add: holds_def)
  have h: "holds (ts[i := t]) j y \<longleftrightarrow> j \<noteq> i \<and> holds ts j y" for j y
    using i(1) t by (auto simp: holds_update)
  have other: "item_key y \<noteq> item_key x" if "holds ts j y" and "j \<noteq> i" for j y
    using workers_okD(3,5) [OF ok] x that by (metis option.inject)
  have kept: "\<exists>j. j \<noteq> i \<and> holds ts j y" if y: "flight a k = Some y" "k \<noteq> item_key x" for k y
  proof -
    obtain j where j: "holds ts j y" using workers_okD(4) [OF ok y(1)] by blast
    have "k = item_key y" using workers_okD(1) [OF ok] y(1) by (auto simp: aq_ok_def)
    with j y(2) i have "j \<noteq> i" by (auto simp: holds_def)
    with j show ?thesis by blast
  qed
  show "steps_left (aq_completed x a) (ts[i := t]) < steps_left a ts"
    using cost_update [OF i(1), of t] i(2) t by (auto simp: steps_left_def aq_completed_def)
  show "workers_ok (aq_completed x a) (ts[i := t])"
  proof (rule workers_okI)
    show "aq_ok (aq_completed x a)" using workers_okD(1) [OF ok] by (rule aq_ok_completed)
    show "\<exists>t\<in>set (ts[i := t]). awake t" using i(1) t by (auto simp: awake_def intro: set_update_memI)
    show "\<exists>j. holds (ts[i := t]) j y" if "flight (aq_completed x a) k = Some y" for k y
      using that kept [of k y] by (auto simp: h aq_completed_def split: if_splits)
  qed (use workers_okD [OF ok] other in \<open>auto simp: h aq_completed_def\<close>)
qed

lemma create_fine: "workers_ok a ts \<Longrightarrow> workers_ok a (ts @ [Enqueuing jid pr])"
  by (auto simp: workers_ok_def holds_append)

section \<open>Runs\<close>

lemma workers_ok_start: "aq_ok a \<Longrightarrow> pend a = [] \<Longrightarrow> flight a = Map.empty \<Longrightarrow> workers_ok a []"
  by (simp add: workers_ok_def holds_def)

context forecast_queue
begin

lemma dispatch_step_fine:
  assumes "dispatch_step qo (q, ts) (q', ts')" and "rel q a" and "room q" and "workers_ok a ts"
  shows "\<exists>a'. rel q' a' \<and> step_fine a ts a' ts'"
  using assms(1)
proof (cases rule: dispatch_step.cases)
  case (enqueue i jid pr x b)
  obtain a' where "aq_enqueue jid pr (Some jid) a = ((x, b), a')" and "rel q' a'"
    using enqueue_rel [OF assms(2,3), of jid pr "Some jid"] enqueue(4)
    by (cases "aq_enqueue jid pr (Some jid) a") auto
  with enqueue_fine [OF assms(4) enqueue(2,3)] enqueue(1) show ?thesis by blast
next
  case (take i x)
  obtain a' where "aq_dequeue a = (Some x, a')" and "rel q' a'"
    using dequeue_rel [OF assms(2)] take(4) by (cases "aq_dequeue a") auto
  with take_fine [OF assms(4) take(2,3)] take(1) show ?thesis by blast
next
  case (stop i)
  obtain a' where "aq_dequeue a = (None, a')" and "rel q' a'"
    using dequeue_rel [OF assms(2)] stop(4) by (cases "aq_dequeue a") auto
  with stop_fine [OF assms(4) stop(2,3)] stop(1) show ?thesis by blast
next
  case (complete i x)
  with release_fine [OF assms(4) complete(3,4), of Draining] completed_rel [OF assms(2), of x]
  show ?thesis by auto
next
  case (raise i x)
  with release_fine [OF assms(4) raise(3,4), of Raised] failed_rel [OF assms(2), of False x]
  show ?thesis by (auto simp: aq_failed_def)
qed

lemma dispatch_run_fine:
  assumes "dispatch_run qo room q0 n s" and "rel q0 a0" and "pend a0 = []" and "flight a0 = Map.empty"
  shows "\<exists>a. rel (fst s) a \<and> workers_ok a (snd s) \<and> n + steps_left a (snd s) \<le> 4 * length (snd s)"
  using assms(1)
proof induction
  case start
  then show ?case
    using assms(2-4) workers_ok_start [of a0] rel_ok by (intro exI [of _ a0]) (simp add: steps_left_def)
next
  case (create n q ts jid pr)
  then obtain a where a: "rel q a" "workers_ok a ts" "n + steps_left a ts \<le> 4 * length ts" by auto
  then show ?case by (intro exI [of _ a]) (simp add: create_fine steps_left_def)
next
  case (step n s s')
  then obtain a where a: "rel (fst s) a" "workers_ok a (snd s)" "n + steps_left a (snd s) \<le> 4 * length (snd s)" by auto
  have st: "dispatch_step qo (fst s, snd s) (fst s', snd s')" using step(3) by simp
  obtain a' where "rel (fst s') a'" "step_fine a (snd s) a' (snd s')"
    using dispatch_step_fine [OF st a(1) step(2) a(2)] by blast
  moreover have "length (snd s') = length (snd s)" using step(3) by (cases rule: dispatch_step.cases) auto
  ultimately show ?case using a(3) by (intro exI [of _ a']) (auto simp: step_fine_def)
qed

end

text \<open>A task that has not ended can always go on.\<close>

lemma task_can_step:
  assumes "i < length ts" and "ts ! i \<noteq> Finished" and "ts ! i \<noteq> Raised"
  shows "\<exists>s'. dispatch_step qo (q, ts) s'"
proof (cases "ts ! i")
  case (Enqueuing jid pr)
  obtain x b q' where e: "q_enqueue qo jid pr (Some jid) q = ((x, b), q')" by (metis surj_pair)
  from dispatch_step.enqueue [OF assms(1) Enqueuing e] show ?thesis by blast
next
  case Draining
  obtain r q' where d: "q_dequeue qo q = (r, q')" by fastforce
  show ?thesis
  proof (cases r)
    case None
    with dispatch_step.stop [OF assms(1) Draining, of qo q q'] d show ?thesis by blast
  next
    case (Some x)
    with dispatch_step.take [OF assms(1) Draining, of qo q x q'] d show ?thesis by blast
  qed
next
  case (Executing x)
  from dispatch_step.complete [OF assms(1) this, of qo q] show ?thesis by blast
qed (use assms in auto)

section \<open>The tasks that a worker keeps\<close>

text \<open>
  \<open>enqueue\<close> of the two asyncio workers: a task is created, put into the set \<open>_tasks\<close> of the worker
  and given the callback \<open>_tasks.discard\<close>. The event loop itself refers to a task only weakly, so a
  task that is still running has to be in that set; the callback runs some time after the task has
  ended. \<open>made\<close> numbers the tasks, \<open>live\<close> are those that run, with their jobs, \<open>callbacks\<close> those
  whose callback is due. The deferred workers hand their callback to the hook of the framework.
\<close>

record task_loop =
  made :: nat
  live :: "(nat \<times> string) list"
  callbacks :: "nat set"
  tasks :: "nat set"

definition asyncio_enqueue :: "string \<Rightarrow> task_loop \<Rightarrow> task_loop" where
  "asyncio_enqueue jid l =
     l\<lparr>made := Suc (made l), live := live l @ [(made l, jid)], tasks := insert (made l) (tasks l)\<rparr>"

definition deferred_enqueue :: "('f \<Rightarrow> string \<Rightarrow> 'x \<Rightarrow> 'x) \<Rightarrow> 'f \<Rightarrow> string \<Rightarrow> 'x \<Rightarrow> 'x" where
  "deferred_enqueue add_task run_job jid = add_task run_job jid"

inductive loop_step :: "task_loop \<Rightarrow> task_loop \<Rightarrow> bool" where
  enqueue: "loop_step l (asyncio_enqueue jid l)"
| ended: "t \<in> set (live l) \<Longrightarrow>
    loop_step l (l\<lparr>live := filter (\<lambda>u. fst u \<noteq> fst t) (live l), callbacks := insert (fst t) (callbacks l)\<rparr>)"
| discard: "i \<in> callbacks l \<Longrightarrow> loop_step l (l\<lparr>callbacks := callbacks l - {i}, tasks := tasks l - {i}\<rparr>)"

inductive loop_reach :: "task_loop \<Rightarrow> bool" where
  start: "loop_reach \<lparr>made = 0, live = [], callbacks = {}, tasks = {}\<rparr>"
| step: "loop_reach l \<Longrightarrow> loop_step l l' \<Longrightarrow> loop_reach l'"

definition loop_ok :: "task_loop \<Rightarrow> bool" where
  "loop_ok l \<longleftrightarrow>
     tasks l = fst ` set (live l) \<union> callbacks l \<and> fst ` set (live l) \<inter> callbacks l = {} \<and>
     (\<forall>i\<in>tasks l. i < made l)"

lemma loop_step_ok: "loop_step l l' \<Longrightarrow> loop_ok l \<Longrightarrow> loop_ok l'"
proof (induction rule: loop_step.induct)
  case (enqueue l jid)
  then show ?case by (auto simp: loop_ok_def asyncio_enqueue_def less_Suc_eq)
next
  case (ended t l)
  then show ?case by (auto simp: loop_ok_def)
next
  case (discard i l)
  then show ?case by (auto simp: loop_ok_def)
qed

text \<open>A running task is always kept, and nothing is kept for good: a worker whose tasks have ended and
  whose callbacks have run refers to none.\<close>

theorem running_tasks_are_kept:
  assumes "loop_reach l"
  shows "fst ` set (live l) \<subseteq> tasks l \<and> (live l = [] \<and> callbacks l = {} \<longrightarrow> tasks l = {})"
proof -
  from assms have "loop_ok l"
    by induction (simp add: loop_ok_def, rule loop_step_ok)
  then show ?thesis by (simp add: loop_ok_def)
qed

end
