(* ===== verification/Redis_Queue.thy ===== *)
theory Redis_Queue imports
  Queue_Port
begin

text \<open>
  \<open>infrastructure/queue/redis_queue.py\<close>: the Redis-backed queue. Redis itself is the parameter
  \<open>R\<close>, one function per command the adapter and its two Lua scripts send; \<open>redis_laws\<close> is what the
  Redis documentation says of these commands, in terms of the score of a member (\<open>ZSCORE\<close>) and the
  value of a counter.

  The hashes of a queue hold only what \<open>_encode_item\<close> wrote, so a payload is the JSON object itself,
  with the three fields it has there.
\<close>

section \<open>The Redis commands\<close>

record payload =
  p_job_id :: string
  p_priority :: string
  p_idempotency_key :: "string option"

record 'r redis_ops =
  r_incr :: "string \<Rightarrow> 'r \<Rightarrow> int \<times> 'r"
  r_hget :: "string \<Rightarrow> string \<Rightarrow> 'r \<Rightarrow> payload option"
  r_hset :: "string \<Rightarrow> string \<Rightarrow> payload \<Rightarrow> 'r \<Rightarrow> 'r"
  r_hdel :: "string \<Rightarrow> string \<Rightarrow> 'r \<Rightarrow> 'r"
  r_hlen :: "string \<Rightarrow> 'r \<Rightarrow> int"
  r_zadd :: "string \<Rightarrow> string \<Rightarrow> string \<Rightarrow> 'r \<Rightarrow> 'r"
  r_zfirst :: "string \<Rightarrow> 'r \<Rightarrow> string option"
  r_zrem :: "string \<Rightarrow> string \<Rightarrow> 'r \<Rightarrow> 'r"
  r_set_ex :: "string \<Rightarrow> string \<Rightarrow> int \<Rightarrow> 'r \<Rightarrow> 'r"
  r_delete :: "string list \<Rightarrow> 'r \<Rightarrow> 'r"
  r_scan :: "string \<Rightarrow> 'r \<Rightarrow> string list"

text \<open>
  A command changes what is stored under its own key and nothing else. A score is a double, exact
  for integers up to $2^{53}$.
\<close>

definition hash_laws :: "'r redis_ops \<Rightarrow> bool" where
  "hash_laws R \<longleftrightarrow>
     (\<forall>h f r h' f' v. r_hget R h' f' (r_hset R h f v r) = (if h' = h \<and> f' = f then Some v else r_hget R h' f' r)) \<and>
     (\<forall>h f r h' f'. r_hget R h' f' (r_hdel R h f r) = (if h' = h \<and> f' = f then None else r_hget R h' f' r)) \<and>
     (\<forall>h f r z s m. h \<noteq> z \<longrightarrow> r_hget R h f (r_zadd R z s m r) = r_hget R h f r) \<and>
     (\<forall>h f r z m. h \<noteq> z \<longrightarrow> r_hget R h f (r_zrem R z m r) = r_hget R h f r) \<and>
     (\<forall>h f r k. h \<noteq> k \<longrightarrow> r_hget R h f (snd (r_incr R k r)) = r_hget R h f r) \<and>
     (\<forall>h f r k v n. h \<noteq> k \<longrightarrow> r_hget R h f (r_set_ex R k v n r) = r_hget R h f r) \<and>
     (\<forall>h f r ks. r_hget R h f (r_delete R ks r) = (if h \<in> set ks then None else r_hget R h f r))"

definition zset_laws :: "'r redis_ops \<Rightarrow> (string \<Rightarrow> string \<Rightarrow> 'r \<Rightarrow> int option) \<Rightarrow> bool" where
  "zset_laws R zscore \<longleftrightarrow>
     (\<forall>z s m r z' m'. 0 \<le> s \<and> s \<le> 2 ^ 53 \<longrightarrow>
        zscore z' m' (r_zadd R z (int_str s) m r) = (if z' = z \<and> m' = m then Some s else zscore z' m' r)) \<and>
     (\<forall>z m r z' m'. zscore z' m' (r_zrem R z m r) = (if z' = z \<and> m' = m then None else zscore z' m' r)) \<and>
     (\<forall>z r. r_zfirst R z r = None \<longleftrightarrow> (\<forall>m. zscore z m r = None)) \<and>
     (\<forall>z r m. r_zfirst R z r = Some m \<longrightarrow>
        (\<exists>s. zscore z m r = Some s \<and> (\<forall>m' s'. zscore z m' r = Some s' \<longrightarrow> s \<le> s'))) \<and>
     (\<forall>z m r h f v. z \<noteq> h \<longrightarrow> zscore z m (r_hset R h f v r) = zscore z m r) \<and>
     (\<forall>z m r h f. z \<noteq> h \<longrightarrow> zscore z m (r_hdel R h f r) = zscore z m r) \<and>
     (\<forall>z m r k. z \<noteq> k \<longrightarrow> zscore z m (snd (r_incr R k r)) = zscore z m r) \<and>
     (\<forall>z m r k v n. z \<noteq> k \<longrightarrow> zscore z m (r_set_ex R k v n r) = zscore z m r) \<and>
     (\<forall>z m r ks. zscore z m (r_delete R ks r) = (if z \<in> set ks then None else zscore z m r))"

definition counter_laws :: "'r redis_ops \<Rightarrow> (string \<Rightarrow> 'r \<Rightarrow> int) \<Rightarrow> bool" where
  "counter_laws R counter \<longleftrightarrow>
     (\<forall>k r. fst (r_incr R k r) = counter k r + 1) \<and>
     (\<forall>k r k'. counter k' (snd (r_incr R k r)) = (if k' = k then counter k r + 1 else counter k' r)) \<and>
     (\<forall>k r h f v. k \<noteq> h \<longrightarrow> counter k (r_hset R h f v r) = counter k r) \<and>
     (\<forall>k r h f. k \<noteq> h \<longrightarrow> counter k (r_hdel R h f r) = counter k r) \<and>
     (\<forall>k r z s m. k \<noteq> z \<longrightarrow> counter k (r_zadd R z s m r) = counter k r) \<and>
     (\<forall>k r z m. k \<noteq> z \<longrightarrow> counter k (r_zrem R z m r) = counter k r) \<and>
     (\<forall>k r k' v n. k \<noteq> k' \<longrightarrow> counter k (r_set_ex R k' v n r) = counter k r) \<and>
     (\<forall>k r ks. counter k (r_delete R ks r) = (if k \<in> set ks then 0 else counter k r))"

definition redis_laws ::
    "'r redis_ops \<Rightarrow> (string \<Rightarrow> string \<Rightarrow> 'r \<Rightarrow> int option) \<Rightarrow> (string \<Rightarrow> 'r \<Rightarrow> int) \<Rightarrow> bool" where
  "redis_laws R zscore counter \<longleftrightarrow> hash_laws R \<and> zset_laws R zscore \<and> counter_laws R counter"

section \<open>The adapter\<close>

definition SCORE_FACTOR :: int where
  "SCORE_FACTOR = 1000000000000"

definition pending_hash_key :: "string \<Rightarrow> string" where
  "pending_hash_key n = n @ '':pending''"

definition in_flight_hash_key :: "string \<Rightarrow> string" where
  "in_flight_hash_key n = n @ '':in-flight''"

definition pending_zset_key :: "string \<Rightarrow> string" where
  "pending_zset_key n = n @ '':pending:score''"

definition sequence_key :: "string \<Rightarrow> string" where
  "sequence_key n = n @ '':sequence''"

definition lease_key :: "string \<Rightarrow> string \<Rightarrow> string" where
  "lease_key n key = n @ '':lease:'' @ key"

text \<open>\<open>queue_name.strip().rstrip(":")\<close>.\<close>

definition normalize_queue_name :: "string \<Rightarrow> string" where
  "normalize_queue_name n = rev (dropWhile (\<lambda>c. c = CHR 0x3A) (rev (py_strip n)))"

definition encode_item :: "queue_item \<Rightarrow> payload" where
  "encode_item i =
     \<lparr>p_job_id = q_job_id i, p_priority = priority_str (q_priority i), p_idempotency_key = q_idem i\<rparr>"

definition decode_priority :: "string \<Rightarrow> job_priority" where
  "decode_priority s =
     (if s = ''low'' then Low else if s = ''normal'' then Normal else if s = ''high'' then High
      else DEFAULT_FORECAST_JOB_PRIORITY)"

definition decode_item :: "payload option \<Rightarrow> queue_item option" where
  "decode_item p =
     map_option (\<lambda>d. \<lparr>q_job_id = p_job_id d, q_priority = decode_priority (p_priority d),
                       q_idem = p_idempotency_key d\<rparr>) p"

lemma decode_encode [simp]: "decode_item (Some (encode_item i)) = Some i"
  by (cases "q_priority i") (simp_all add: decode_item_def encode_item_def decode_priority_def)

text \<open>The two Lua scripts, which Redis runs without interruption.\<close>

definition enqueue_script ::
    "'r redis_ops \<Rightarrow> string \<Rightarrow> string \<Rightarrow> payload \<Rightarrow> string \<Rightarrow> 'r \<Rightarrow> (int \<times> payload) \<times> 'r" where
  "enqueue_script R n key p score r =
     (case r_hget R (pending_hash_key n) key r of
        Some existing \<Rightarrow> ((0, existing), r)
      | None \<Rightarrow>
          (case r_hget R (in_flight_hash_key n) key r of
             Some existing \<Rightarrow> ((0, existing), r)
           | None \<Rightarrow>
               ((1, p), r_zadd R (pending_zset_key n) score key (r_hset R (pending_hash_key n) key p r))))"

definition dequeue_script :: "'r redis_ops \<Rightarrow> string \<Rightarrow> 'r \<Rightarrow> payload option \<times> 'r" where
  "dequeue_script R n r =
     (case r_zfirst R (pending_zset_key n) r of
        None \<Rightarrow> (None, r)
      | Some key \<Rightarrow>
          (let p = r_hget R (pending_hash_key n) key r;
               r1 = r_hdel R (pending_hash_key n) key (r_zrem R (pending_zset_key n) key r)
           in (p, case p of None \<Rightarrow> r1 | Some v \<Rightarrow> r_hset R (in_flight_hash_key n) key v r1)))"

definition rq_enqueue ::
    "'r redis_ops \<Rightarrow> string \<Rightarrow> string \<Rightarrow> job_priority \<Rightarrow> string option \<Rightarrow> 'r \<Rightarrow> (queue_item \<times> bool) \<times> 'r" where
  "rq_enqueue R n jid pr idem r =
     (let key = queue_key jid idem;
          (sequence, r1) = r_incr R (sequence_key n) r;
          item = new_item jid pr key;
          score = priority_rank pr * SCORE_FACTOR + sequence;
          ((enqueued, returned), r2) = enqueue_script R n key (encode_item item) (int_str score) r1
      in ((case decode_item (Some returned) of None \<Rightarrow> item | Some i \<Rightarrow> i, enqueued \<noteq> 0), r2))"

definition rq_dequeue :: "'r redis_ops \<Rightarrow> string \<Rightarrow> int \<Rightarrow> 'r \<Rightarrow> queue_item option \<times> 'r" where
  "rq_dequeue R n visibility_timeout r =
     (let (p, r1) = dequeue_script R n r
      in case decode_item p of
           None \<Rightarrow> (None, r1)
         | Some i \<Rightarrow> (Some i, r_set_ex R (lease_key n (item_key i)) (q_job_id i) visibility_timeout r1))"

definition rq_mark_completed :: "'r redis_ops \<Rightarrow> string \<Rightarrow> queue_item \<Rightarrow> 'r \<Rightarrow> 'r" where
  "rq_mark_completed R n i r =
     r_delete R [lease_key n (item_key i)] (r_hdel R (in_flight_hash_key n) (item_key i) r)"

definition rq_mark_failed :: "'r redis_ops \<Rightarrow> string \<Rightarrow> queue_item \<Rightarrow> bool \<Rightarrow> 'r \<Rightarrow> 'r" where
  "rq_mark_failed R n i requeue r =
     (let r1 = r_delete R [lease_key n (item_key i)] (r_hdel R (in_flight_hash_key n) (item_key i) r)
      in if requeue then snd (rq_enqueue R n (q_job_id i) (q_priority i) (q_idem i) r1) else r1)"

definition rq_pending_count :: "'r redis_ops \<Rightarrow> string \<Rightarrow> 'r \<Rightarrow> int" where
  "rq_pending_count R n r = r_hlen R (pending_hash_key n) r"

definition rq_in_flight_count :: "'r redis_ops \<Rightarrow> string \<Rightarrow> 'r \<Rightarrow> int" where
  "rq_in_flight_count R n r = r_hlen R (in_flight_hash_key n) r"

definition rq_clear :: "'r redis_ops \<Rightarrow> string \<Rightarrow> 'r \<Rightarrow> 'r" where
  "rq_clear R n r =
     r_delete R ([pending_hash_key n, in_flight_hash_key n, pending_zset_key n, sequence_key n] @
       r_scan R (n @ '':lease:*'') r) r"

definition redis_queue_ops :: "'r redis_ops \<Rightarrow> string \<Rightarrow> int \<Rightarrow> 'r queue_ops" where
  "redis_queue_ops R n visibility_timeout =
     \<lparr>q_enqueue = rq_enqueue R n, q_dequeue = rq_dequeue R n visibility_timeout,
      q_completed = rq_mark_completed R n, q_failed = rq_mark_failed R n\<rparr>"

section \<open>The adapter keeps the port's promise\<close>

lemma redis_keys_distinct [simp]:
  "pending_hash_key n \<noteq> in_flight_hash_key n" "in_flight_hash_key n \<noteq> pending_hash_key n"
  "pending_hash_key n \<noteq> pending_zset_key n" "pending_zset_key n \<noteq> pending_hash_key n"
  "pending_hash_key n \<noteq> sequence_key n" "sequence_key n \<noteq> pending_hash_key n"
  "in_flight_hash_key n \<noteq> pending_zset_key n" "pending_zset_key n \<noteq> in_flight_hash_key n"
  "in_flight_hash_key n \<noteq> sequence_key n" "sequence_key n \<noteq> in_flight_hash_key n"
  "pending_zset_key n \<noteq> sequence_key n" "sequence_key n \<noteq> pending_zset_key n"
  "pending_hash_key n \<noteq> lease_key n k" "in_flight_hash_key n \<noteq> lease_key n k"
  "pending_zset_key n \<noteq> lease_key n k" "sequence_key n \<noteq> lease_key n k"
  by (simp_all add: pending_hash_key_def in_flight_hash_key_def pending_zset_key_def
      sequence_key_def lease_key_def)

type_synonym scored = "int \<times> queue_item"

definition tagged :: "scored \<Rightarrow> string \<times> scored" where
  "tagged e = (item_key (snd e), e)"

lemma fst_tagged [simp]: "fst (tagged e) = item_key (snd e)" "snd (tagged e) = e"
  by (simp_all add: tagged_def)

text \<open>
  The scored items of an abstract queue: the score of an item lies in the band of its priority, and
  the bands do not overlap while the sequence stays below \<open>SCORE_FACTOR\<close>.
\<close>

definition scored_ok :: "int \<Rightarrow> scored list \<Rightarrow> bool" where
  "scored_ok c es \<longleftrightarrow>
     0 \<le> c \<and> c < SCORE_FACTOR \<and> sorted_wrt (\<lambda>x y. fst x < fst y) es \<and>
     (\<forall>(s, i)\<in>set es. item_rank i * SCORE_FACTOR < s \<and> s \<le> item_rank i * SCORE_FACTOR + c)"

definition redis_rel ::
    "'r redis_ops \<Rightarrow> (string \<Rightarrow> string \<Rightarrow> 'r \<Rightarrow> int option) \<Rightarrow> (string \<Rightarrow> 'r \<Rightarrow> int) \<Rightarrow> string \<Rightarrow>
     'r \<Rightarrow> aqueue \<Rightarrow> bool" where
  "redis_rel R zscore counter n r a \<longleftrightarrow>
     aq_ok a \<and>
     (\<exists>es. pend a = map snd es \<and> scored_ok (counter (sequence_key n) r) es \<and>
        (\<forall>k. r_hget R (pending_hash_key n) k r = map_option (encode_item \<circ> snd) (map_of (map tagged es) k)) \<and>
        (\<forall>k. zscore (pending_zset_key n) k r = map_option fst (map_of (map tagged es) k))) \<and>
     (\<forall>k. r_hget R (in_flight_hash_key n) k r = map_option encode_item (flight a k))"

definition redis_room :: "(string \<Rightarrow> 'r \<Rightarrow> int) \<Rightarrow> string \<Rightarrow> 'r \<Rightarrow> bool" where
  "redis_room counter n r \<longleftrightarrow> counter (sequence_key n) r + 1 < SCORE_FACTOR"

lemma rank_band: "item_rank i < item_rank j \<Longrightarrow> item_rank i * SCORE_FACTOR + SCORE_FACTOR \<le> item_rank j * SCORE_FACTOR"
proof -
  assume "item_rank i < item_rank j"
  then have "(item_rank i + 1) * SCORE_FACTOR \<le> item_rank j * SCORE_FACTOR"
    by (intro mult_right_mono) (simp_all add: SCORE_FACTOR_def)
  then show ?thesis by (simp add: algebra_simps)
qed

lemma score_position:
  assumes "item_rank x * SCORE_FACTOR < sx" and "sx \<le> item_rank x * SCORE_FACTOR + c"
    and "c + 1 < SCORE_FACTOR"
  shows "item_rank i * SCORE_FACTOR + (c + 1) \<le> sx \<longleftrightarrow> \<not> item_rank x \<le> item_rank i"
proof (cases "item_rank x \<le> item_rank i")
  case True
  then have "item_rank x * SCORE_FACTOR \<le> item_rank i * SCORE_FACTOR"
    by (intro mult_right_mono) (simp_all add: SCORE_FACTOR_def)
  with True assms show ?thesis by linarith
next
  case False
  then have "item_rank i * SCORE_FACTOR + SCORE_FACTOR \<le> item_rank x * SCORE_FACTOR"
    by (intro rank_band) simp
  with False assms show ?thesis by linarith
qed

lemma scored_insert:
  assumes "scored_ok c es" and "c + 1 < SCORE_FACTOR"
  shows "map snd (insort_key fst (item_rank i * SCORE_FACTOR + (c + 1), i) es) = insert_item i (map snd es)"
  using assms(1)
proof (induction es)
  case (Cons e es)
  obtain s x where e: "e = (s, x)" by (cases e)
  have "scored_ok c es" using Cons.prems by (simp add: scored_ok_def)
  with Cons.IH show ?case
    using Cons.prems score_position [of x s c i] assms(2) by (auto simp: e scored_ok_def)
qed simp

lemma insort_sorted_wrt:
  "sorted_wrt (\<lambda>x y. fst x < fst y) es \<Longrightarrow> fst e \<notin> fst ` set es \<Longrightarrow>
   sorted_wrt (\<lambda>x y. fst x < (fst y :: int)) (insort_key fst e es)"
proof (induction es)
  case (Cons x es)
  then have "fst x \<noteq> fst e" by auto
  with Cons show ?case by (auto simp: set_insort_key)
qed simp

lemma scored_ok_insert:
  assumes ok: "scored_ok c es" and c: "c + 1 < SCORE_FACTOR"
  shows "scored_ok (c + 1) (insort_key fst (item_rank i * SCORE_FACTOR + (c + 1), i) es)"
proof -
  have "item_rank i * SCORE_FACTOR + (c + 1) \<notin> fst ` set es"
  proof
    assume "item_rank i * SCORE_FACTOR + (c + 1) \<in> fst ` set es"
    then obtain x where "(item_rank i * SCORE_FACTOR + (c + 1), x) \<in> set es" by auto
    with ok have "item_rank x * SCORE_FACTOR < item_rank i * SCORE_FACTOR + (c + 1)"
      and "item_rank i * SCORE_FACTOR + (c + 1) \<le> item_rank x * SCORE_FACTOR + c"
      by (auto simp: scored_ok_def)
    with score_position [of x "item_rank i * SCORE_FACTOR + (c + 1)" c i] c
      rank_band [of i x] show False by (auto simp: not_le)
  qed
  with ok c insort_sorted_wrt [of es] show ?thesis
    by (fastforce simp: scored_ok_def set_insort_key)
qed

lemma hash_facts:
  assumes "redis_laws R zscore counter"
  shows "r_hget R h' f' (r_hset R h f v r) = (if h' = h \<and> f' = f then Some v else r_hget R h' f' r)"
    and "r_hget R h' f' (r_hdel R h f r) = (if h' = h \<and> f' = f then None else r_hget R h' f' r)"
    and "h \<noteq> z \<Longrightarrow> r_hget R h f (r_zadd R z sc m r) = r_hget R h f r"
    and "h \<noteq> z \<Longrightarrow> r_hget R h f (r_zrem R z m r) = r_hget R h f r"
    and "h \<noteq> k \<Longrightarrow> r_hget R h f (snd (r_incr R k r)) = r_hget R h f r"
    and "h \<noteq> k \<Longrightarrow> r_hget R h f (r_set_ex R k vs n r) = r_hget R h f r"
    and "r_hget R h f (r_delete R ks r) = (if h \<in> set ks then None else r_hget R h f r)"
  using assms by (simp_all add: redis_laws_def hash_laws_def)

lemma zset_facts:
  assumes "redis_laws R zscore counter"
  shows "0 \<le> sc \<Longrightarrow> sc \<le> 2 ^ 53 \<Longrightarrow>
      zscore z' m' (r_zadd R z (int_str sc) m r) = (if z' = z \<and> m' = m then Some sc else zscore z' m' r)"
    and "zscore z' m' (r_zrem R z m r) = (if z' = z \<and> m' = m then None else zscore z' m' r)"
    and "r_zfirst R z r = None \<longleftrightarrow> (\<forall>m. zscore z m r = None)"
    and "r_zfirst R z r = Some m \<Longrightarrow>
      \<exists>s. zscore z m r = Some s \<and> (\<forall>m' s'. zscore z m' r = Some s' \<longrightarrow> s \<le> s')"
    and "z \<noteq> h \<Longrightarrow> zscore z m (r_hset R h f v r) = zscore z m r"
    and "z \<noteq> h \<Longrightarrow> zscore z m (r_hdel R h f r) = zscore z m r"
    and "z \<noteq> k \<Longrightarrow> zscore z m (snd (r_incr R k r)) = zscore z m r"
    and "z \<noteq> k \<Longrightarrow> zscore z m (r_set_ex R k vs n r) = zscore z m r"
    and "zscore z m (r_delete R ks r) = (if z \<in> set ks then None else zscore z m r)"
  using assms by (simp_all add: redis_laws_def zset_laws_def)

lemma counter_facts:
  assumes "redis_laws R zscore counter"
  shows "fst (r_incr R k r) = counter k r + 1"
    and "counter k' (snd (r_incr R k r)) = (if k' = k then counter k r + 1 else counter k' r)"
    and "k \<noteq> h \<Longrightarrow> counter k (r_hset R h f v r) = counter k r"
    and "k \<noteq> h \<Longrightarrow> counter k (r_hdel R h f r) = counter k r"
    and "k \<noteq> z \<Longrightarrow> counter k (r_zadd R z sc m r) = counter k r"
    and "k \<noteq> z \<Longrightarrow> counter k (r_zrem R z m r) = counter k r"
    and "k \<noteq> h \<Longrightarrow> counter k (r_set_ex R h vs n r) = counter k r"
    and "counter k (r_delete R ks r) = (if k \<in> set ks then 0 else counter k r)"
  using assms by (simp_all add: redis_laws_def counter_laws_def)

lemma tagged_lookup:
  assumes "distinct (map item_key (map snd es))"
  shows "map_of (map tagged es) k = find (\<lambda>e. item_key (snd e) = k) es"
  by (induction es) (auto simp: tagged_def)

lemma scored_mono: "scored_ok c es \<Longrightarrow> c + 1 < SCORE_FACTOR \<Longrightarrow> scored_ok (c + 1) es"
  by (fastforce simp: scored_ok_def)

lemma score_exact: "0 \<le> c \<Longrightarrow> c < SCORE_FACTOR \<Longrightarrow>
   0 \<le> priority_rank pr * SCORE_FACTOR + c \<and> priority_rank pr * SCORE_FACTOR + c \<le> 2 ^ 53"
  by (cases pr) (simp_all add: SCORE_FACTOR_def)

lemma redis_relE:
  assumes "redis_rel R zscore counter n r a"
  obtains es where "aq_ok a" and "pend a = map snd es" and "scored_ok (counter (sequence_key n) r) es"
    and "\<forall>k. r_hget R (pending_hash_key n) k r = map_option (encode_item \<circ> snd) (map_of (map tagged es) k)"
    and "\<forall>k. zscore (pending_zset_key n) k r = map_option fst (map_of (map tagged es) k)"
    and "\<forall>k. r_hget R (in_flight_hash_key n) k r = map_option encode_item (flight a k)"
  using assms unfolding redis_rel_def by blast

lemma redis_relI:
  assumes "aq_ok a" and "pend a = map snd es" and "scored_ok (counter (sequence_key n) r) es"
    and "\<forall>k. r_hget R (pending_hash_key n) k r = map_option (encode_item \<circ> snd) (map_of (map tagged es) k)"
    and "\<forall>k. zscore (pending_zset_key n) k r = map_option fst (map_of (map tagged es) k)"
    and "\<forall>k. r_hget R (in_flight_hash_key n) k r = map_option encode_item (flight a k)"
  shows "redis_rel R zscore counter n r a"
  using assms unfolding redis_rel_def by blast

lemma redis_pending_lookup:
  "map_option snd (map_of (map tagged es) k) = find (\<lambda>i. item_key i = k) (map snd es)"
  by (induction es) (auto simp: tagged_def)

lemma rq_enqueue_step:
  assumes laws: "redis_laws R zscore counter" and rel: "redis_rel R zscore counter n r a"
    and room: "redis_room counter n r"
  shows "fst (rq_enqueue R n jid pr idem r) = fst (aq_enqueue jid pr idem a) \<and>
         redis_rel R zscore counter n (snd (rq_enqueue R n jid pr idem r)) (snd (aq_enqueue jid pr idem a))"
proof -
  note H = hash_facts [OF laws] and Z = zset_facts [OF laws] and C = counter_facts [OF laws]
  obtain es where ok: "aq_ok a" and p: "pend a = map snd es"
    and sc: "scored_ok (counter (sequence_key n) r) es"
    and ph: "\<forall>k. r_hget R (pending_hash_key n) k r = map_option (encode_item \<circ> snd) (map_of (map tagged es) k)"
    and pz: "\<forall>k. zscore (pending_zset_key n) k r = map_option fst (map_of (map tagged es) k)"
    and fl: "\<forall>k. r_hget R (in_flight_hash_key n) k r = map_option encode_item (flight a k)"
    using rel by (rule redis_relE)
  let ?k = "queue_key jid idem" and ?c = "counter (sequence_key n) r"
  let ?i = "new_item jid pr (queue_key jid idem)"
  obtain r1 where r1: "r1 = snd (r_incr R (sequence_key n) r)" by blast
  have incr: "r_incr R (sequence_key n) r = (?c + 1, r1)"
    using C(1) [of "sequence_key n" r] r1 by (simp add: prod_eq_iff)
  have same1: "h \<noteq> sequence_key n \<Longrightarrow> r_hget R h f r1 = r_hget R h f r"
      "h \<noteq> sequence_key n \<Longrightarrow> zscore h f r1 = zscore h f r" "counter (sequence_key n) r1 = ?c + 1" for h f
    by (simp_all add: r1 H Z C)
  have c: "?c + 1 < SCORE_FACTOR" "0 \<le> ?c" using room sc by (simp_all add: redis_room_def scored_ok_def)
  have look: "r_hget R (pending_hash_key n) k r1 = map_option encode_item (find (\<lambda>i. item_key i = k) (pend a))" for k
    using redis_pending_lookup [of es k] by (simp add: same1 ph p option.map_comp [symmetric])
  have rel1: "redis_rel R zscore counter n r1 a"
    by (rule redis_relI [OF ok p]) (simp_all add: same1 H Z C ph pz fl scored_mono [OF sc c(1)])
  show ?thesis
  proof (cases rule: aq_enqueue_cases [of jid pr idem a])
    case (held i)
    have "enqueue_script R n ?k (encode_item ?i) s r1 = ((0, encode_item i), r1)" for s
    proof (cases "find (\<lambda>i. item_key i = ?k) (pend a)")
      case (Some j)
      with held(1) have "j = i" by (simp add: aq_enqueue_def Let_def)
      with Some show ?thesis by (simp add: enqueue_script_def look)
    next
      case None
      with held(2) have "flight a ?k = Some i" by (auto simp: find_None_iff)
      with None show ?thesis by (simp add: enqueue_script_def look) (simp add: same1 fl)
    qed
    with rel1 held(1) show ?thesis by (simp add: rq_enqueue_def Let_def incr)
  next
    case fresh
    let ?s = "priority_rank pr * SCORE_FACTOR + (?c + 1)"
    let ?r2 = "r_zadd R (pending_zset_key n) (int_str ?s) ?k (r_hset R (pending_hash_key n) ?k (encode_item ?i) r1)"
    let ?es = "insort_key fst (?s, ?i) es"
    have none: "find (\<lambda>i. item_key i = ?k) (pend a) = None" unfolding find_None_iff using fresh(2) by (metis imageI)
    have run: "rq_enqueue R n jid pr idem r = ((?i, True), ?r2)"
      using none fresh(3)
      by (simp add: rq_enqueue_def Let_def incr enqueue_script_def look) (simp add: same1 fl)
    have rank: "item_rank ?i = priority_rank pr" by (simp add: item_rank_def new_item_def)
    note ex = score_exact [of "?c + 1" pr]
    have m: "map_of (map tagged ?es) = (map_of (map tagged es))(?k \<mapsto> (?s, ?i))"
      using map_of_insort [of tagged "(?s, ?i)" es fst] fresh(2) ok p
      by (simp add: aq_ok_def image_image comp_def)
    have "redis_rel R zscore counter n ?r2 (a\<lparr>pend := insert_item ?i (pend a)\<rparr>)"
    proof (rule redis_relI [where es = ?es])
      show "aq_ok (a\<lparr>pend := insert_item ?i (pend a)\<rparr>)"
        using aq_ok_enqueue [OF ok, of jid pr idem] fresh(1) by simp
      show "pend (a\<lparr>pend := insert_item ?i (pend a)\<rparr>) = map snd ?es"
        using scored_insert [OF sc c(1), of ?i] by (simp add: rank p)
      show "scored_ok (counter (sequence_key n) ?r2) ?es"
        using scored_ok_insert [OF sc c(1), of ?i] by (simp add: same1 C rank)
    qed (use ex c in \<open>simp_all add: same1 H Z C ph pz fl m\<close>)
    with run fresh(1) show ?thesis by simp
  qed
qed

lemma rq_first:
  assumes laws: "redis_laws R zscore counter" and sc: "scored_ok c (e # es)"
    and pz: "\<forall>k. zscore z k r = map_option fst (map_of (map tagged (e # es)) k)"
  shows "r_zfirst R z r = Some (item_key (snd e))"
proof -
  note Z = zset_facts [OF laws]
  have here: "zscore z (item_key (snd e)) r = Some (fst e)" using pz by (simp add: tagged_def)
  then have "r_zfirst R z r \<noteq> None" using Z(3) [of z r] by auto
  then obtain m where m: "r_zfirst R z r = Some m" by auto
  from Z(4) [OF this] obtain s where s: "zscore z m r = Some s"
    and least: "\<forall>m' s'. zscore z m' r = Some s' \<longrightarrow> s \<le> s'" by auto
  from s pz obtain i where i: "map_of (map tagged (e # es)) m = Some (s, i)" by auto
  then have "(m, (s, i)) \<in> set (map tagged (e # es))" by (rule map_of_SomeD)
  then have mem: "(s, i) \<in> set (e # es)" and m': "m = item_key i" by (auto simp: tagged_def)
  have "s \<le> fst e" using least here by blast
  moreover have "\<forall>x\<in>set es. fst e < fst x" using sc by (simp add: scored_ok_def)
  ultimately have "(s, i) = e" using mem by auto
  with m m' show ?thesis by auto
qed

lemma rq_dequeue_step:
  assumes laws: "redis_laws R zscore counter" and rel: "redis_rel R zscore counter n r a"
  shows "fst (rq_dequeue R n t r) = fst (aq_dequeue a) \<and>
         redis_rel R zscore counter n (snd (rq_dequeue R n t r)) (snd (aq_dequeue a))"
proof -
  note H = hash_facts [OF laws] and Z = zset_facts [OF laws] and C = counter_facts [OF laws]
  obtain es where ok: "aq_ok a" and p: "pend a = map snd es"
    and sc: "scored_ok (counter (sequence_key n) r) es"
    and ph: "\<forall>k. r_hget R (pending_hash_key n) k r = map_option (encode_item \<circ> snd) (map_of (map tagged es) k)"
    and pz: "\<forall>k. zscore (pending_zset_key n) k r = map_option fst (map_of (map tagged es) k)"
    and fl: "\<forall>k. r_hget R (in_flight_hash_key n) k r = map_option encode_item (flight a k)"
    using rel by (rule redis_relE)
  show ?thesis
  proof (cases es)
    case Nil
    then have "r_zfirst R (pending_zset_key n) r = None" using pz by (simp add: Z(3))
    then have "rq_dequeue R n t r = (None, r)" by (simp add: rq_dequeue_def dequeue_script_def decode_item_def)
    moreover have "aq_dequeue a = (None, a)" using p Nil by (simp add: aq_dequeue_def)
    ultimately show ?thesis using rel by simp
  next
    case (Cons e es')
    let ?i = "snd e" and ?k = "item_key (snd e)"
    let ?r1 = "r_hdel R (pending_hash_key n) ?k (r_zrem R (pending_zset_key n) ?k r)"
    let ?r2 = "r_hset R (in_flight_hash_key n) ?k (encode_item ?i) ?r1"
    let ?r3 = "r_set_ex R (lease_key n ?k) (q_job_id ?i) t ?r2"
    let ?a = "a\<lparr>pend := map snd es', flight := (flight a)(?k \<mapsto> ?i)\<rparr>"
    have first: "r_zfirst R (pending_zset_key n) r = Some ?k"
      using rq_first [OF laws] sc pz by (simp add: Cons)
    have get: "r_hget R (pending_hash_key n) ?k r = Some (encode_item ?i)"
      using ph by (simp add: Cons tagged_def)
    have run: "rq_dequeue R n t r = (Some ?i, ?r3)"
      by (simp add: rq_dequeue_def dequeue_script_def first get Let_def)
    have step: "aq_dequeue a = (Some ?i, ?a)" using p by (simp add: aq_dequeue_def Cons)
    have "?k \<notin> item_key ` set (map snd es')" using ok p by (auto simp: aq_ok_def Cons)
    then have gone: "map_of (map tagged es') ?k = None"
      by (auto simp: map_of_eq_None_iff image_iff)
    then have m: "map_of (map tagged es') k = (if k = ?k then None else map_of (map tagged es) k)" for k
      by (simp add: Cons tagged_def)
    have "redis_rel R zscore counter n ?r3 ?a"
    proof (rule redis_relI [where es = es'])
      show "aq_ok ?a" using aq_ok_dequeue [OF ok] step by simp
      show "scored_ok (counter (sequence_key n) ?r3) es'" using sc by (simp add: C scored_ok_def Cons)
    qed (simp_all add: H Z ph pz fl m)
    with run step show ?thesis by simp
  qed
qed

lemma rq_completed_step:
  assumes laws: "redis_laws R zscore counter" and rel: "redis_rel R zscore counter n r a"
  shows "redis_rel R zscore counter n (rq_mark_completed R n i r) (aq_completed i a)"
proof -
  note H = hash_facts [OF laws] and Z = zset_facts [OF laws] and C = counter_facts [OF laws]
  obtain es where ok: "aq_ok a" and p: "pend a = map snd es"
    and sc: "scored_ok (counter (sequence_key n) r) es"
    and ph: "\<forall>k. r_hget R (pending_hash_key n) k r = map_option (encode_item \<circ> snd) (map_of (map tagged es) k)"
    and pz: "\<forall>k. zscore (pending_zset_key n) k r = map_option fst (map_of (map tagged es) k)"
    and fl: "\<forall>k. r_hget R (in_flight_hash_key n) k r = map_option encode_item (flight a k)"
    using rel by (rule redis_relE)
  show ?thesis
    by (rule redis_relI [where es = es])
      (simp_all add: aq_ok_completed [OF ok, unfolded aq_completed_def] aq_completed_def p sc rq_mark_completed_def H Z C ph pz fl)
qed

theorem redis_queue_is_forecast_queue:
  assumes laws: "redis_laws R zscore counter"
  shows "forecast_queue (redis_queue_ops R n t) (redis_rel R zscore counter n) (redis_room counter n)"
proof
  fix r a and jid pr idem and i :: queue_item and requeue
  assume rel: "redis_rel R zscore counter n r a"
  show "aq_ok a" using rel by (rule redis_relE)
  show "fst (q_dequeue (redis_queue_ops R n t) r) = fst (aq_dequeue a) \<and>
        redis_rel R zscore counter n (snd (q_dequeue (redis_queue_ops R n t) r)) (snd (aq_dequeue a))"
    using rq_dequeue_step [OF laws rel] by (simp add: redis_queue_ops_def)
  show "redis_rel R zscore counter n (q_completed (redis_queue_ops R n t) i r) (aq_completed i a)"
    using rq_completed_step [OF laws rel] by (simp add: redis_queue_ops_def)
  show "fst (q_enqueue (redis_queue_ops R n t) jid pr idem r) = fst (aq_enqueue jid pr idem a) \<and>
        redis_rel R zscore counter n (snd (q_enqueue (redis_queue_ops R n t) jid pr idem r))
          (snd (aq_enqueue jid pr idem a))" if "redis_room counter n r"
    using rq_enqueue_step [OF laws rel that] by (simp add: redis_queue_ops_def)
  show "redis_rel R zscore counter n (q_failed (redis_queue_ops R n t) i requeue r) (aq_failed i requeue a)"
    if can: "requeue \<longrightarrow> redis_room counter n r"
  proof -
    note done' = rq_completed_step [OF laws rel, of i]
    have "redis_room counter n (rq_mark_completed R n i r)" if "redis_room counter n r"
      using that by (simp add: redis_room_def rq_mark_completed_def counter_facts [OF laws])
    with done' \<open>requeue \<longrightarrow> redis_room counter n r\<close> show ?thesis
      using rq_enqueue_step [OF laws done']
      by (cases requeue) (simp_all add: redis_queue_ops_def rq_mark_failed_def aq_failed_def Let_def
          rq_mark_completed_def [symmetric])
  qed
qed

text \<open>Clearing a queue leaves an empty one.\<close>

lemma redis_rel_clear:
  assumes laws: "redis_laws R zscore counter"
  shows "redis_rel R zscore counter n (rq_clear R n r) \<lparr>pend = [], flight = Map.empty\<rparr>"
  by (rule redis_relI [where es = "[]"])
    (simp_all add: rq_clear_def hash_facts [OF laws] zset_facts [OF laws] counter_facts [OF laws]
      scored_ok_def aq_ok_def SCORE_FACTOR_def)

section \<open>A Redis that keeps the laws\<close>

text \<open>The laws can hold: an in-memory model of the commands satisfies them.\<close>

record model_redis =
  mr_hash :: "(string \<times> string) \<Rightarrow> payload option"
  mr_zset :: "((string \<times> string) \<times> string) list"
  mr_string :: "string \<Rightarrow> string option"
  mr_counter :: "string \<Rightarrow> int"

definition parse_score :: "string \<Rightarrow> int" where
  "parse_score s = foldl (\<lambda>a c. a * 10 + (int (of_char c) - 48)) 0 s"

definition zset_members :: "string \<Rightarrow> model_redis \<Rightarrow> (string \<times> int) list" where
  "zset_members z r = map (\<lambda>((_, m), s). (m, parse_score s)) (filter (\<lambda>((z', _), _). z' = z) (AList.clearjunk (mr_zset r)))"

definition model_redis_ops :: "model_redis redis_ops" where
  "model_redis_ops =
     \<lparr>r_incr = (\<lambda>k r. (mr_counter r k + 1, r\<lparr>mr_counter := (mr_counter r)(k := mr_counter r k + 1)\<rparr>)),
      r_hget = (\<lambda>h f r. mr_hash r (h, f)),
      r_hset = (\<lambda>h f v r. r\<lparr>mr_hash := (mr_hash r)((h, f) \<mapsto> v)\<rparr>),
      r_hdel = (\<lambda>h f r. r\<lparr>mr_hash := (mr_hash r)((h, f) := None)\<rparr>),
      r_hlen = (\<lambda>h r. int (card {f. mr_hash r (h, f) \<noteq> None})),
      r_zadd = (\<lambda>z s m r. r\<lparr>mr_zset := AList.update (z, m) s (mr_zset r)\<rparr>),
      r_zfirst = (\<lambda>z r. case sort_key snd (zset_members z r) of [] \<Rightarrow> None | (m, _) # _ \<Rightarrow> Some m),
      r_zrem = (\<lambda>z m r. r\<lparr>mr_zset := AList.delete (z, m) (mr_zset r)\<rparr>),
      r_set_ex = (\<lambda>k v n r. r\<lparr>mr_string := (mr_string r)(k \<mapsto> v)\<rparr>),
      r_delete = (\<lambda>ks r. r\<lparr>mr_hash := (\<lambda>(h, f). if h \<in> set ks then None else mr_hash r (h, f)),
                           mr_zset := filter (\<lambda>((z, _), _). z \<notin> set ks) (mr_zset r),
                           mr_string := (\<lambda>k. if k \<in> set ks then None else mr_string r k),
                           mr_counter := (\<lambda>k. if k \<in> set ks then 0 else mr_counter r k)\<rparr>),
      r_scan = (\<lambda>p r. [])\<rparr>"

definition model_score :: "string \<Rightarrow> string \<Rightarrow> model_redis \<Rightarrow> int option" where
  "model_score z m r = map_option parse_score (map_of (mr_zset r) (z, m))"

definition empty_redis :: model_redis where
  "empty_redis = \<lparr>mr_hash = (\<lambda>_. None), mr_zset = [], mr_string = (\<lambda>_. None), mr_counter = (\<lambda>_. 0)\<rparr>"

lemma parse_nat_str: "parse_score (nat_str n) = int n"
proof (induction n rule: nat_str.induct)
  case (1 n)
  have digit: "of_char (char_of (48 + d) :: char) = 48 + d" if "d < 10" for d :: nat
    using that by simp
  show ?case
  proof (cases "n < 10")
    case True
    then show ?thesis by (simp add: nat_str.simps [of n] parse_score_def digit)
  next
    case False
    then have "parse_score (nat_str n) = parse_score (nat_str (n div 10)) * 10 + int (n mod 10)"
      by (subst nat_str.simps) (simp add: parse_score_def digit)
    with 1 [OF False] have "parse_score (nat_str n) = int (n div 10) * 10 + int (n mod 10)" by simp
    with div_mult_mod_eq [of n 10] show ?thesis by linarith
  qed
qed

lemma parse_int_str: "0 \<le> s \<Longrightarrow> parse_score (int_str s) = s"
  by (simp add: int_str_def parse_nat_str)

lemma model_hash_laws: "hash_laws model_redis_ops"
  by (simp add: hash_laws_def model_redis_ops_def)

lemma model_counter_laws: "counter_laws model_redis_ops (\<lambda>k r. mr_counter r k)"
  by (simp add: counter_laws_def model_redis_ops_def)

lemma zset_members_score: "(m, s) \<in> set (zset_members z r) \<longleftrightarrow> model_score z m r = Some s"
proof -
  have d: "distinct (map fst (AList.clearjunk (mr_zset r)))" by (rule distinct_clearjunk)
  have "(m, s) \<in> set (zset_members z r) \<longleftrightarrow>
      (\<exists>v. ((z, m), v) \<in> set (AList.clearjunk (mr_zset r)) \<and> s = parse_score v)"
    by (force simp: zset_members_def)
  also have "\<dots> \<longleftrightarrow> (\<exists>v. map_of (mr_zset r) (z, m) = Some v \<and> s = parse_score v)"
    by (simp add: map_of_eq_Some_iff [OF d, symmetric] map_of_clearjunk)
  finally show ?thesis by (auto simp: model_score_def)
qed

lemma model_zset_laws: "zset_laws model_redis_ops model_score"
proof -
  have none: "r_zfirst model_redis_ops z r = None \<longleftrightarrow> (\<forall>m. model_score z m r = None)" for z r
  proof -
    have "r_zfirst model_redis_ops z r = None \<longleftrightarrow> sort_key snd (zset_members z r) = []"
      by (auto simp: model_redis_ops_def split: list.split)
    also have "\<dots> \<longleftrightarrow> set (zset_members z r) = {}" by (metis set_empty set_sort)
    also have "\<dots> \<longleftrightarrow> (\<forall>m. model_score z m r = None)"
      using zset_members_score [of _ _ z r] by (metis equals0D equals0I not_None_eq surj_pair)
    finally show ?thesis .
  qed
  have least: "\<exists>s. model_score z m r = Some s \<and> (\<forall>m' s'. model_score z m' r = Some s' \<longrightarrow> s \<le> s')"
    if first: "r_zfirst model_redis_ops z r = Some m" for z r m
  proof -
    obtain s xs where c: "sort_key snd (zset_members z r) = (m, s) # xs"
      using first by (cases "sort_key snd (zset_members z r)") (auto simp: model_redis_ops_def)
    have "sorted (map snd ((m, s) # xs))" using sorted_sort_key [of snd "zset_members z r"] by (simp add: c)
    then have "\<forall>p\<in>set (sort_key snd (zset_members z r)). s \<le> snd p" by (auto simp: c)
    then have "\<forall>m' s'. model_score z m' r = Some s' \<longrightarrow> s \<le> s'"
      by (metis set_sort snd_conv zset_members_score)
    moreover have "(m, s) \<in> set (sort_key snd (zset_members z r))" by (simp add: c)
    ultimately show ?thesis using zset_members_score [of m s z r] by auto
  qed
  have del: "map_of (filter (\<lambda>((z, _), _). z \<notin> K) xs) (z, m) = (if z \<in> K then None else map_of xs (z, m))"
    for K z m and xs :: "((string \<times> string) \<times> string) list"
    by (induction xs) auto
  show ?thesis
    unfolding zset_laws_def
    by (intro conjI allI impI none least; (simp add: model_redis_ops_def model_score_def parse_int_str del; fail)?)
qed

lemma model_redis_laws: "redis_laws model_redis_ops model_score (\<lambda>k r. mr_counter r k)"
  by (simp add: redis_laws_def model_hash_laws model_zset_laws model_counter_laws)

lemma model_redis_empty:
  "redis_rel model_redis_ops model_score (\<lambda>k r. mr_counter r k) n empty_redis \<lparr>pend = [], flight = Map.empty\<rparr>"
  by (rule redis_relI [where es = "[]"])
    (simp_all add: model_redis_ops_def model_score_def empty_redis_def scored_ok_def aq_ok_def SCORE_FACTOR_def)

end
