(* ===== verification/Dispatch_Properties.thy ===== *)
theory Dispatch_Properties imports
  Job_Dispatch
  Worker_System
  Redis_Queue
  Fixtures
begin

text \<open>
  The properties of the dispatch queue and of the service as a whole: queue, workers, commands,
  provider and store. Where an adapter is left open, the statement holds for every adapter that
  keeps its contract (\<open>job_store\<close>, \<open>forecast_queue\<close>, \<open>provider_port\<close>).
\<close>

section \<open>Concrete parts\<close>

definition ex_math :: math_lib where
  "ex_math = \<lparr>math_sin = (\<lambda>x. Fin 0), math_cos = (\<lambda>x. Fin 1), math_radians = (\<lambda>x. x), math_float_str = (\<lambda>x. [])\<rparr>"

lemma ex_mock_usable: "mock_usable (ex_math, 63900000000000000)"
  by (simp add: mock_usable_def math_lib_ok_def ex_math_def flt_between_iff datetime_max_def)

definition ex_provider :: forecast_provider where
  "ex_provider = mock_as_provider (ex_math, 63900000000000000)"

lemma ex_provider_usable: "\<exists>s. mock_usable s \<and> ex_provider = mock_as_provider s"
  using ex_mock_usable by (auto simp: ex_provider_def)

text \<open>A queue that holds the one job of the store.\<close>

definition ex_aqueue :: aqueue where
  "ex_aqueue = \<lparr>pend = [new_item ex_id Normal ex_id], flight = Map.empty\<rparr>"

definition ex_queue :: memory_queue where
  "ex_queue = snd (mq_enqueue ex_id Normal None empty_memory_queue)"

lemma queue_key_None [simp]: "queue_key jid None = jid"
  by (simp add: queue_key_def opt_str_or_def)

lemma aq_enqueue_empty:
  "aq_enqueue jid pr None \<lparr>pend = [], flight = Map.empty\<rparr> =
     ((new_item jid pr jid, True), \<lparr>pend = [new_item jid pr jid], flight = Map.empty\<rparr>)"
  by (simp add: aq_enqueue_def)

lemma ex_queue_rel: "mq_rel ex_queue ex_aqueue"
  using mem_queue.enqueue_rel [OF mq_rel_empty, of ex_id Normal None]
  by (simp add: ex_queue_def ex_aqueue_def aq_enqueue_empty)

section \<open>The queue adapters\<close>

text \<open>C9. The in-memory priority queue refines the abstract queue: from every state related to an
  abstract queue each method returns what the abstract method returns and ends in a related state;
  a new queue is related to the empty one.\<close>

theorem memory_queue_contract:
  "forecast_queue memory_queue_ops mq_rel (\<lambda>_. True) \<and>
   mq_rel empty_memory_queue \<lparr>pend = [], flight = Map.empty\<rparr>"
  using mem_queue.forecast_queue_axioms mq_rel_empty by blast

text \<open>C10. So does the Redis queue with its two Lua scripts and its single number for priority and
  sequence, given the documented behaviour of the Redis commands and as long as fewer than
  \<open>10^12\<close> items have been enqueued; clearing it leaves the empty queue.\<close>

theorem redis_queue_contract:
  assumes "redis_laws R zscore counter"
  shows "forecast_queue (redis_queue_ops R n t) (redis_rel R zscore counter n) (redis_room counter n) \<and>
    redis_rel R zscore counter n (rq_clear R n r) \<lparr>pend = [], flight = Map.empty\<rparr>"
  using redis_queue_is_forecast_queue [OF assms] redis_rel_clear [OF assms] by blast

theorem redis_queue_contract_witness:
  "forecast_queue (redis_queue_ops model_redis_ops ''jobs'' 300)
     (redis_rel model_redis_ops model_score (\<lambda>k r. mr_counter r k) ''jobs'')
     (redis_room (\<lambda>k r. mr_counter r k) ''jobs'') \<and>
   redis_rel model_redis_ops model_score (\<lambda>k r. mr_counter r k) ''jobs''
     (rq_clear model_redis_ops ''jobs'' empty_redis) \<lparr>pend = [], flight = Map.empty\<rparr>"
  by (rule redis_queue_contract [OF model_redis_laws])

section \<open>Dispatch order\<close>

definition enqueue_all :: "(string \<times> job_priority) list \<Rightarrow> memory_queue \<Rightarrow> memory_queue" where
  "enqueue_all reqs q = fold (\<lambda>(jid, pr) q. snd (mq_enqueue jid pr None q)) reqs q"

definition request_item :: "string \<times> job_priority \<Rightarrow> queue_item" where
  "request_item r = new_item (fst r) (snd r) (fst r)"

lemma filter_insert_other:
  "item_rank i \<noteq> n \<Longrightarrow> filter (\<lambda>x. n = item_rank x) (insert_item i xs) = filter (\<lambda>x. n = item_rank x) xs"
  by (induction xs) auto

lemma sort_items_append: "sort_key item_rank (xs @ [i]) = insert_item i (sort_key item_rank xs)"
proof (rule properties_for_sort_key)
  show "mset (insert_item i (sort_key item_rank xs)) = mset (xs @ [i])" by (simp add: mset_insert_item)
  show "filter (\<lambda>x. item_rank k = item_rank x) (insert_item i (sort_key item_rank xs)) =
      filter (\<lambda>x. item_rank k = item_rank x) (xs @ [i])" for k
  proof (cases "item_rank k = item_rank i")
    case True
    have "filter (\<lambda>x. item_rank i = item_rank x) (sort_key item_rank xs) = filter (\<lambda>x. item_rank i = item_rank x) xs"
      by (rule sort_key_stable [of item_rank "item_rank i" xs, unfolded eq_commute [of _ "item_rank i"]])
    then show ?thesis
      using insert_item_fifo [of "sort_key item_rank xs" i] True by (simp add: eq_commute [of _ "item_rank i"])
  next
    case False
    then show ?thesis
      using sort_key_stable [of item_rank "item_rank k" xs]
      by (simp add: filter_insert_other eq_commute [of _ "item_rank k"])
  qed
  show "sorted (map item_rank (insert_item i (sort_key item_rank xs)))" by (simp add: sorted_insert_item)
qed

lemma sort_key_map: "sort_key f (map g xs) = map g (sort_key (\<lambda>x. f (g x)) xs)"
proof -
  have "insort_key f (g x) (map g ys) = map g (insort_key (\<lambda>x. f (g x)) x ys)" for x ys
    by (induction ys) auto
  then show ?thesis by (induction xs) auto
qed

lemma enqueue_all_rel:
  assumes "distinct (map fst reqs)"
  shows "mq_rel (enqueue_all reqs empty_memory_queue)
    \<lparr>pend = sort_key item_rank (map request_item reqs), flight = Map.empty\<rparr>"
  using assms
proof (induction reqs rule: rev_induct)
  case Nil
  then show ?case by (simp add: enqueue_all_def mq_rel_empty)
next
  case (snoc r reqs)
  obtain jid pr where r: "r = (jid, pr)" by (cases r)
  let ?a = "\<lparr>pend = sort_key item_rank (map request_item reqs), flight = Map.empty\<rparr>"
  let ?q = "enqueue_all reqs empty_memory_queue"
  have rel: "mq_rel ?q ?a" using snoc by simp
  have request_item: "request_item (jid, pr) = new_item jid pr jid" by (simp add: request_item_def)
  have "item_key (request_item x) = fst x" for x
    by (simp add: request_item_def item_key_def new_item_def opt_str_or_def str_or_def)
  then have free: "jid \<notin> item_key ` set (pend ?a)" using snoc.prems r by (auto simp: image_image)
  then have "aq_enqueue jid pr None ?a =
      ((new_item jid pr jid, True), ?a\<lparr>pend := insert_item (new_item jid pr jid) (pend ?a)\<rparr>)"
    by (cases rule: aq_enqueue_cases [of jid pr None ?a]) (auto simp: image_iff)
  with mem_queue.enqueue_rel [OF rel, of jid pr None] show ?case
    by (simp add: enqueue_all_def r sort_items_append request_item [symmetric])
qed

text \<open>C11. Jobs are dispatched by priority, and first come first served within a priority: when jobs
  with distinct ids are enqueued and a worker then drains the queue, the drain ends and runs each of
  them once, in the order that sorting the requests by the rank of their priority gives, where
  sorting is stable.\<close>

theorem dispatch_order:
  assumes "distinct (map fst reqs)"
  shows "\<exists>q'. drain_queue memory_queue_ops (\<lambda>k (q, ks). (Inr () :: job_error + unit, q, ks @ [k]))
      (enqueue_all reqs empty_memory_queue) [] =
    Some (Inr (), q', map fst (sort_key (\<lambda>(k, pr). priority_rank pr) reqs)) \<and>
    mq_rel q' \<lparr>pend = [], flight = Map.empty\<rparr>"
proof -
  have log: "fold (\<lambda>i ks. ks @ [q_job_id i]) is ks = ks @ map q_job_id is" for "is" ks
    by (induction "is" arbitrary: ks) auto
  have "map q_job_id (sort_key item_rank (map request_item reqs)) =
      map fst (sort_key (\<lambda>(k, pr). priority_rank pr) reqs)"
    by (simp add: sort_key_map item_rank_def request_item_def new_item_def case_prod_unfold comp_def)
  with mem_queue.drain_all [where I = "\<lambda>_. True" and f = "\<lambda>k ks. ks @ [k]" and x = "[]"
      and run = "\<lambda>k (q, ks). (Inr () :: job_error + unit, q, ks @ [k])", OF enqueue_all_rel [OF assms]]
  show ?thesis by (simp add: log)
qed

theorem dispatch_order_witness:
  "\<exists>q'. drain_queue memory_queue_ops (\<lambda>k (q, ks). (Inr () :: job_error + unit, q, ks @ [k]))
      (enqueue_all [(''a'', Low), (''b'', Normal), (''c'', High), (''d'', Normal)] empty_memory_queue) [] =
    Some (Inr (), q', [''c'', ''b'', ''d'', ''a''])"
  using dispatch_order [of "[(''a'', Low), (''b'', Normal), (''c'', High), (''d'', Normal)]"]
  by (auto simp: priority_rank.simps)

section \<open>Queued jobs end\<close>

text \<open>C13. A worker that drains the queue returns, and brings every queued job it was given to its
  end: the job has succeeded with the forecast or failed with the message of the provider's answer;
  jobs that are not queued any more and jobs outside the queue are untouched, and nothing is left
  pending. This holds with every store, queue and provider adapter that keeps its contract, when the
  ids in the queue are those of stored jobs.\<close>

theorem drain_finishes_jobs:
  assumes "job_store st ok amap" and "forecast_queue qo rel room" and "provider_port provider usable"
    and "\<forall>k. \<exists>s. usable s \<and> pv k = provider s"
    and "rel q a" and "ok (stored w)" and "q_job_id ` set (pend a) \<subseteq> dom (amap (stored w))"
  shows "\<exists>q' w'. drain_queue qo (run_job st pv) q w = Some (Inr (), q', w') \<and>
    rel q' (a\<lparr>pend := []\<rparr>) \<and> ok (stored w') \<and> dom (amap (stored w')) = dom (amap (stored w)) \<and>
    (\<forall>k j. amap (stored w) k = Some j \<longrightarrow> (\<exists>j'. amap (stored w') k = Some j' \<and>
       (if k \<in> q_job_id ` set (pend a) \<and> status j = Queued
        then ended_with j (get_provider_result (pv k) j) j' else j' = j)))"
proof -
  have pv: "\<And>k. \<exists>s. usable s \<and> pv k = provider s" using assms(4) by blast
  from provider_port.drain_ends_jobs [where pv = pv, OF assms(3,1,2) pv assms(5-7)]
  obtain q' w' where "drain_queue qo (run_job st pv) q w = Some (Inr (), q', w')" "rel q' (a\<lparr>pend := []\<rparr>)"
    "ok (stored w')" "all_run pv (q_job_id ` set (pend a)) (amap (stored w)) (amap (stored w'))" by blast
  then show ?thesis
    unfolding all_run_def run_result_def if_if_eq_conj by (intro exI [of _ q'] exI [of _ w'] conjI) auto
qed

theorem drain_finishes_jobs_witness:
  "\<exists>q' w' j'. drain_queue memory_queue_ops (run_job memory_ops (\<lambda>_. ex_provider)) ex_queue
       (ex_world (ex_memory ex_queued)) = Some (Inr (), q', w') \<and>
     mem_map (stored w') ex_id = Some j' \<and> ended_with ex_queued (get_provider_result ex_provider ex_queued) j'"
proof -
  let ?w = "ex_world (ex_memory ex_queued)"
  have ok: "mem_ok (stored ?w)" using ex_memory_ok ex_facts by simp
  have m: "mem_map (stored ?w) ex_id = Some ex_queued" by (simp add: ex_memory_map)
  have ids: "q_job_id ` set (pend ex_aqueue) = {ex_id}" by (simp add: ex_aqueue_def new_item_def)
  have pv: "\<forall>k::string. \<exists>s. mock_usable s \<and> ex_provider = mock_as_provider s" using ex_provider_usable by blast
  have sub: "q_job_id ` set (pend ex_aqueue) \<subseteq> dom (mem_map (stored ?w))" using ids m by auto
  from drain_finishes_jobs [where pv = "\<lambda>_. ex_provider", OF mem.job_store_axioms mem_queue.forecast_queue_axioms
      mock.provider_port_axioms pv ex_queue_rel ok sub]
  obtain q' w' where r: "drain_queue memory_queue_ops (run_job memory_ops (\<lambda>_. ex_provider)) ex_queue ?w = Some (Inr (), q', w')"
    and all: "\<forall>k j. mem_map (stored ?w) k = Some j \<longrightarrow> (\<exists>j'. mem_map (stored w') k = Some j' \<and>
       (if k \<in> q_job_id ` set (pend ex_aqueue) \<and> status j = Queued
        then ended_with j (get_provider_result ex_provider j) j' else j' = j))" by blast
  from all m ids ex_facts obtain j' where "mem_map (stored w') ex_id = Some j'"
    "ended_with ex_queued (get_provider_result ex_provider ex_queued) j'" by force
  with r show ?thesis by blast
qed

section \<open>What a worker does not do\<close>

text \<open>One dispatch per key: while an item with the key of a job is pending or in flight, enqueuing
  the job returns that item and changes nothing, and a worker started for the job returns without
  running it. With the Redis adapter this also concerns an item that a process left in flight when
  it died: nothing in the program releases it, so the recovered job is not dispatched again.\<close>

theorem held_job_is_not_run:
  assumes "forecast_queue qo rel room" and "rel q a" and "room q"
    and "queue_key jid (Some jid) \<in> item_key ` set (pend a) \<union> dom (flight a)"
  shows "(\<exists>i q'. q_enqueue qo jid pr (Some jid) q = ((i, False), q') \<and>
      item_key i = queue_key jid (Some jid) \<and> rel q' a) \<and>
    (\<exists>q'. enqueue_and_drain qo run pr jid q x = Some (Inr (), q', x) \<and> rel q' a)"
  by (rule conjI [OF forecast_queue.enqueue_held [OF assms] forecast_queue.worker_skips [OF assms]])

theorem held_job_is_not_run_witness:
  "\<exists>q'. enqueue_and_drain memory_queue_ops (run_job memory_ops (\<lambda>_. ex_provider)) Normal ex_id ex_queue
      (ex_world (ex_memory ex_queued)) = Some (Inr (), q', ex_world (ex_memory ex_queued)) \<and> mq_rel q' ex_aqueue"
proof -
  have "queue_key ex_id (Some ex_id) \<in> item_key ` set (pend ex_aqueue) \<union> dom (flight ex_aqueue)"
    by (simp add: ex_aqueue_def queue_key_def item_key_def new_item_def opt_str_or_def)
  from held_job_is_not_run [OF mem_queue.forecast_queue_axioms ex_queue_rel TrueI this] show ?thesis
    by (rule conjunct2)
qed

text \<open>When the callback of a job raises, the item leaves the in-flight set and is not requeued, and
  the drain ends with the exception: the items behind it stay pending, and no one runs them until a
  worker is started for another job.\<close>

theorem drain_stops_at_exception:
  assumes "forecast_queue qo rel room" and "rel q a" and "pend a = i # later"
    and "run (q_job_id i) = (\<lambda>(q, x). (Inl e, q, f x))"
  shows "\<exists>q'. drain_queue qo run q x = Some (Inl e, q', f x) \<and> rel q' (a\<lparr>pend := later\<rparr>)"
  by (rule forecast_queue.drain_raise [where run = run and f = f, OF assms])

theorem drain_stops_at_exception_witness:
  "\<exists>q'. drain_queue memory_queue_ops (\<lambda>k (q, n). (Inl (ForecastJobNotFoundError k), q, n + 1)) ex_queue (0::int) =
      Some (Inl (ForecastJobNotFoundError ex_id), q', 1) \<and> mq_rel q' \<lparr>pend = [], flight = Map.empty\<rparr>"
  using drain_stops_at_exception [OF mem_queue.forecast_queue_axioms ex_queue_rel, of "new_item ex_id Normal ex_id" "[]"
      "\<lambda>k (q, n). (Inl (ForecastJobNotFoundError k), q, n + 1)" "ForecastJobNotFoundError ex_id" "\<lambda>n::int. n + 1" "0::int"]
  by (simp add: ex_aqueue_def new_item_def)

section \<open>Answers of the provider\<close>

text \<open>An answer that comes too late is dropped: when a job is not running any more, because it was
  cancelled or timed out meanwhile, whatever the provider answers changes no job and no metric.\<close>

theorem late_answer_is_ignored:
  assumes "job_store st ok amap" and "ok (stored w)" and "amap (stored w) k = Some j"
    and "status j \<noteq> Running" and "answer_storable a"
  shows "\<exists>w'. run_finish st k a w = (Inr (), w') \<and> ok (stored w') \<and>
    amap (stored w') = amap (stored w) \<and> registry w' = registry w"
proof -
  obtain r w' where run: "run_finish st k a w = (r, w')" by fastforce
  note sim = simulatesD(1,2) [OF job_store.sim_run_finish [OF assms(1,5)] assms(2) run]
  note S = store_wfD(1,2) [OF job_store.inv_wf [OF assms(1,2)] assms(3)]
  have wf: "store_wf (stored (abs_world amap w))" using job_store.inv_wf [OF assms(1,2)] by simp
  have n: "normalize_job_id k = Inr k" using S(2) by simp
  have here: "stored (abs_world amap w) k = Some j" using assms(3) by simp
  have "\<exists>t. run_finish ref_store k a (abs_world amap w) = (Inr (), (abs_world amap w)\<lparr>ticks := t\<rparr>)"
  proof (cases a)
    case (Inl e)
    have "run_finish ref_store k a (abs_world amap w) = (Inr (), (abs_world amap w)\<lparr>ticks := ticks (abs_world amap w)\<rparr>)"
      unfolding Inl using mark_failed_run [OF wf n here] assms(4)
      by (cases e) (simp_all add: run_finish_def del: abs_world_upd)
    then show ?thesis by blast
  next
    case (Inr x)
    then show ?thesis using run_success_run [OF wf n here, of x] assms(4) by auto
  qed
  then obtain t where "r = Inr ()" "abs_world amap w' = (abs_world amap w)\<lparr>ticks := t\<rparr>" using sim(2) by auto
  then have "r = Inr ()" "stored (abs_world amap w') = stored (abs_world amap w)"
    "registry (abs_world amap w') = registry (abs_world amap w)" by simp_all
  with run sim(1) show ?thesis by simp
qed

theorem late_answer_is_ignored_witness:
  "\<exists>w'. run_finish memory_ops ex_id (Inl (OtherProviderError ''timeout'')) (ex_world (ex_memory ex_cancelled)) =
      (Inr (), w') \<and> mem_map (stored w') = [ex_id \<mapsto> ex_cancelled]"
proof -
  have ok: "mem_ok (stored (ex_world (ex_memory ex_cancelled)))" using ex_memory_ok ex_facts by simp
  have j: "mem_map (stored (ex_world (ex_memory ex_cancelled))) ex_id = Some ex_cancelled" by (simp add: ex_memory_map)
  have a: "answer_storable (Inl (OtherProviderError ''timeout''))" by (simp add: answer_storable_def)
  have st: "status ex_cancelled \<noteq> Running" by (simp add: ex_facts)
  have "mem_map (stored (ex_world (ex_memory ex_cancelled))) = [ex_id \<mapsto> ex_cancelled]" by (simp add: ex_memory_map)
  with late_answer_is_ignored [OF mem.job_store_axioms ok j st a] show ?thesis by metis
qed

text \<open>A provider whose diagnostics do not fit their schema orphans its job: the exception of the
  schema leaves the handler, and the job stays running although no call for it is under way. (Both
  providers of the program only give diagnostics that fit.)\<close>

theorem bad_diagnostics_orphan_job:
  assumes "job_store st ok amap" and "ok (stored w)" and "amap (stored w) k = Some j"
    and "status j = Running" and "failure_diagnostics (Some d) = Inl e"
  shows "\<exists>w'. run_finish st k (Inl (ForecastProviderUnavailableError m d)) w = (Inl e, w') \<and>
    amap (stored w') k = Some j"
proof -
  let ?a = "Inl (ForecastProviderUnavailableError m d)"
  obtain r w' where run: "run_finish st k ?a w = (r, w')" by fastforce
  have "answer_storable ?a" by (simp add: answer_storable_def)
  note sim = simulatesD(2) [OF job_store.sim_run_finish [OF assms(1) this] assms(2) run]
  have wf: "store_wf (stored (abs_world amap w))" using job_store.inv_wf [OF assms(1,2)] by simp
  have here: "stored (abs_world amap w) k = Some j" using assms(3) by simp
  have n: "normalize_job_id k = Inr k" using store_wfD(2) [OF wf here] by simp
  have "run_finish ref_store k ?a (abs_world amap w) =
      (Inl e, (abs_world amap w)\<lparr>ticks := Suc (ticks (abs_world amap w))\<rparr>)"
    using mark_failed_run [OF wf n here, of m "Some d"] assms(4,5) by (simp add: run_finish_def del: abs_world_upd)
  then have "r = Inl e" "stored (abs_world amap w') = stored (abs_world amap w)" using sim by auto
  with run assms(3) show ?thesis by simp
qed

theorem bad_diagnostics_orphan_job_witness:
  "\<exists>w'. run_finish memory_ops ex_id (Inl (ForecastProviderUnavailableError ''down'' [(''provider'', DInt 7)]))
      (ex_world (ex_memory ex_running)) = (Inl ValidationError, w') \<and> mem_map (stored w') ex_id = Some ex_running"
proof -
  have ok: "mem_ok (stored (ex_world (ex_memory ex_running)))" using ex_memory_ok ex_facts by simp
  have j: "mem_map (stored (ex_world (ex_memory ex_running))) ex_id = Some ex_running" by (simp add: ex_memory_map)
  have d: "failure_diagnostics (Some [(''provider'', DInt 7)]) = Inl ValidationError" by code_simp
  show ?thesis
    by (rule bad_diagnostics_orphan_job [OF mem.job_store_axioms ok j _ d]) (simp add: ex_facts)
qed

section \<open>Workers beside each other\<close>

text \<open>C15. No job is run by two tasks at once: however the tasks of the workers interleave, whatever they
  enqueue and whichever of them end with an exception, two tasks that run a job run different jobs. So
  it is with every queue adapter that keeps its contract.\<close>

theorem no_job_run_twice:
  assumes "forecast_queue qo rel room" and "rel q0 a0" and "pend a0 = []" and "flight a0 = Map.empty"
    and "dispatch_run qo room q0 n (q, ts)"
    and "i < length ts" and "ts ! i = Executing x" and "j < length ts" and "ts ! j = Executing y" and "i \<noteq> j"
  shows "q_job_id x \<noteq> q_job_id y \<and> item_key x \<noteq> item_key y"
proof -
  obtain a where ok: "workers_ok a ts"
    using forecast_queue.dispatch_run_fine [OF assms(1,5,2-4)] by auto
  have h: "holds ts i x" "holds ts j y" using assms(6-9) by (simp_all add: holds_def)
  then have "item_key x \<noteq> item_key y"
    using workers_okD(3) [OF ok h(1)] workers_okD(3) [OF ok h(2)] workers_okD(5) [OF ok] assms(10)
    by (metis option.inject)
  with workers_okD(3) [OF ok h(1)] workers_okD(3) [OF ok h(2)] show ?thesis by (simp add: job_keyed_def)
qed

text \<open>Two workers, each with a job of its own.\<close>

definition ex_q1 :: memory_queue where
  "ex_q1 = snd (mq_enqueue ''a'' Normal (Some ''a'') empty_memory_queue)"

definition ex_q2 :: memory_queue where
  "ex_q2 = snd (mq_dequeue ex_q1)"

definition ex_q3 :: memory_queue where
  "ex_q3 = snd (mq_enqueue ''b'' High (Some ''b'') ex_q2)"

definition ex_q4 :: memory_queue where
  "ex_q4 = snd (mq_dequeue ex_q3)"

lemma ex_dispatch:
  "mq_enqueue ''a'' Normal (Some ''a'') empty_memory_queue = ((new_item ''a'' Normal ''a'', True), ex_q1)"
  "mq_dequeue ex_q1 = (Some (new_item ''a'' Normal ''a''), ex_q2)"
  "mq_enqueue ''b'' High (Some ''b'') ex_q2 = ((new_item ''b'' High ''b'', True), ex_q3)"
  "mq_dequeue ex_q3 = (Some (new_item ''b'' High ''b''), ex_q4)"
  "fst (mq_dequeue (mq_mark_completed (new_item ''a'' Normal ''a'') ex_q2)) = None"
  by code_simp+

abbreviation ex_run :: "nat \<Rightarrow> memory_queue \<times> task list \<Rightarrow> bool" where
  "ex_run \<equiv> dispatch_run memory_queue_ops (\<lambda>_. True) empty_memory_queue"

lemma ex_enqueue:
  assumes "ex_run n (q, ts)" and "i < length ts" and "ts ! i = Enqueuing jid pr"
    and "mq_enqueue jid pr (Some jid) q = ((x, True), q')"
  shows "ex_run (Suc n) (q', ts[i := Draining])"
  using dispatch_run.step [OF assms(1)] dispatch_step.enqueue [of i ts jid pr memory_queue_ops q x True q'] assms(2-4)
  by simp

lemma ex_take:
  assumes "ex_run n (q, ts)" and "i < length ts" and "ts ! i = Draining" and "mq_dequeue q = (Some x, q')"
  shows "ex_run (Suc n) (q', ts[i := Executing x])"
  using dispatch_run.step [OF assms(1)] dispatch_step.take [of i ts memory_queue_ops q x q'] assms(2-4) by simp

lemma ex_run_first: "ex_run 2 (ex_q2, [Executing (new_item ''a'' Normal ''a'')])"
proof -
  have "ex_run 0 (empty_memory_queue, [Enqueuing ''a'' Normal])"
    using dispatch_run.create [OF dispatch_run.start] by simp
  from ex_enqueue [OF this, of 0] have "ex_run 1 (ex_q1, [Draining])" by (simp add: ex_dispatch(1))
  from ex_take [OF this, of 0] show ?thesis by (simp add: ex_dispatch(2) numeral_2_eq_2)
qed

lemma ex_run_second:
  "ex_run 4 (ex_q4, [Executing (new_item ''a'' Normal ''a''), Executing (new_item ''b'' High ''b'')])"
proof -
  let ?x = "Executing (new_item ''a'' Normal ''a'')"
  have "ex_run 2 (ex_q2, [?x, Enqueuing ''b'' High])" using dispatch_run.create [OF ex_run_first] by simp
  from ex_enqueue [OF this, of 1] have "ex_run 3 (ex_q3, [?x, Draining])" by (simp add: ex_dispatch(3))
  from ex_take [OF this, of 1] show ?thesis by (simp add: ex_dispatch(4))
qed

lemmas ex_workers = mem_queue.forecast_queue_axioms mq_rel_empty

theorem no_job_run_twice_witness:
  "q_job_id (new_item ''a'' Normal ''a'') \<noteq> q_job_id (new_item ''b'' High ''b'')"
  using no_job_run_twice [OF ex_workers _ _ ex_run_second, of 0 "new_item ''a'' Normal ''a''" 1 "new_item ''b'' High ''b''"]
  by simp

text \<open>C16. No job is left behind: when all tasks have ended, none of them with an exception, nothing is
  pending, and nothing is in flight, so every job can be enqueued again. A job that is enqueued while
  others drain is taken by one of them or by its own task.\<close>

theorem no_job_left_behind:
  assumes "forecast_queue qo rel room" and "rel q0 a0" and "pend a0 = []" and "flight a0 = Map.empty"
    and "dispatch_run qo room q0 n (q, ts)" and "\<forall>t\<in>set ts. t = Finished"
  shows "fst (q_dequeue qo q) = None \<and> (room q \<longrightarrow> snd (fst (q_enqueue qo jid pr idem q)))"
proof -
  obtain a where a: "rel q a" and ok: "workers_ok a ts"
    using forecast_queue.dispatch_run_fine [OF assms(1,5,2-4)] by auto
  have "pend a = []" using workers_okD(6) [OF ok] assms(6) by (auto simp: awake_def)
  moreover have "flight a k = None" for k
    using workers_okD(4) [OF ok, of k] assms(6) nth_mem by (cases "flight a k") (fastforce simp: holds_def)+
  ultimately show ?thesis
    using forecast_queue.dequeue_rel [OF assms(1) a] forecast_queue.enqueue_rel [OF assms(1) a, of jid pr idem]
    by (simp add: aq_dequeue_def aq_enqueue_def Let_def)
qed

lemma ex_run_ended:
  "\<exists>q. ex_run 4 (q, [Finished])"
proof -
  let ?x = "new_item ''a'' Normal ''a''" let ?q = "mq_mark_completed ?x ex_q2"
  have "ex_run 3 (?q, [Draining])"
    using dispatch_run.step [OF ex_run_first] dispatch_step.complete [of 0 "[Executing ?x]" ?x memory_queue_ops ex_q2] by simp
  moreover obtain q where "mq_dequeue ?q = (None, q)" using ex_dispatch(5) by (metis prod.collapse)
  ultimately have "ex_run 4 (q, [Finished])"
    using dispatch_run.step [of memory_queue_ops "\<lambda>_. True" empty_memory_queue 3 "(?q, [Draining])"]
      dispatch_step.stop [of 0 "[Draining]" memory_queue_ops ?q q] by simp
  then show ?thesis ..
qed

theorem no_job_left_behind_witness: "\<exists>q. ex_run 4 (q, [Finished]) \<and> fst (mq_dequeue q) = None"
proof -
  obtain q where q: "ex_run 4 (q, [Finished])" using ex_run_ended by blast
  from no_job_left_behind [OF ex_workers _ _ q] q show ?thesis by auto
qed

text \<open>C17. The workers come to an end: the tasks together take at most four steps for every task that was
  created, under every schedule, and they can go on exactly as long as some task has not ended.\<close>

theorem workers_terminate:
  assumes "forecast_queue qo rel room" and "rel q0 a0" and "pend a0 = []" and "flight a0 = Map.empty"
    and "dispatch_run qo room q0 n (q, ts)"
  shows "n \<le> 4 * length ts \<and>
    ((\<exists>s'. dispatch_step qo (q, ts) s') \<longleftrightarrow> (\<exists>t\<in>set ts. t \<noteq> Finished \<and> t \<noteq> Raised))"
proof -
  have "n \<le> 4 * length ts" using forecast_queue.dispatch_run_fine [OF assms(1,5,2-4)] by auto
  moreover have "\<exists>t\<in>set ts. t \<noteq> Finished \<and> t \<noteq> Raised" if "dispatch_step qo (q, ts) s'" for s'
    using that by (cases rule: dispatch_step.cases) (use nth_mem in fastforce)+
  moreover have "\<exists>s'. dispatch_step qo (q, ts) s'" if "\<exists>t\<in>set ts. t \<noteq> Finished \<and> t \<noteq> Raised"
    using that task_can_step by (metis in_set_conv_nth)
  ultimately show ?thesis by blast
qed

theorem workers_terminate_witness: "\<exists>q. ex_run 4 (q, [Finished]) \<and> (\<nexists>s'. dispatch_step memory_queue_ops (q, [Finished]) s')"
proof -
  obtain q where q: "ex_run 4 (q, [Finished])" using ex_run_ended by blast
  from workers_terminate [OF ex_workers _ _ q] q show ?thesis by auto
qed

end
