(* ===== verification/Http_Security.thy ===== *)
theory Http_Security imports
  Metrics
begin

text \<open>
  \<open>api/http/middleware/security.py\<close>: API keys and the fixed-window rate limiter, with the request
  ids of \<open>observability/request_context.py\<close>.

  \<open>monotonic()\<close> is an argument, an exact rational (the rounding of float subtraction is not
  modelled). The hex digest of an API key is the parameter \<open>digest\<close>. A request holds what the
  middleware reads of it; \<open>PassOn\<close> is the call of the next handler.
\<close>

section \<open>The rate limiter\<close>

record rate_decision =
  allowed :: bool
  retry_after :: int

type_synonym windows = "((string \<times> string) \<times> (rat \<times> int)) list"

definition limiter_check ::
    "int \<Rightarrow> int \<Rightarrow> rat \<Rightarrow> string \<Rightarrow> string \<Rightarrow> windows \<Rightarrow> rate_decision \<times> windows" where
  "limiter_check capacity window_seconds now identity route ws =
     (let key = (identity, route);
          (window_start, count) = dict_get ws key (now, 0);
          elapsed = now - window_start
      in if elapsed \<ge> rat_of_int window_seconds
         then (\<lparr>allowed = True, retry_after = 0\<rparr>, AList.update key (now, 1) ws)
         else if count \<ge> capacity
         then (\<lparr>allowed = False, retry_after = max 1 \<lceil>rat_of_int window_seconds - elapsed\<rceil>\<rparr>, ws)
         else (\<lparr>allowed = True, retry_after = 0\<rparr>, AList.update key (window_start, count + 1) ws))"

text \<open>The requests of one client to one route at the given times: which of them are let through.\<close>

fun limiter_run :: "int \<Rightarrow> int \<Rightarrow> string \<Rightarrow> string \<Rightarrow> rat list \<Rightarrow> windows \<Rightarrow> bool list" where
  "limiter_run cap win identity route [] ws = []"
| "limiter_run cap win identity route (t # ts) ws =
     (let (d, ws') = limiter_check cap win t identity route ws
      in allowed d # limiter_run cap win identity route ts ws')"

definition grants :: "bool list \<Rightarrow> int" where
  "grants bs = int (length (filter (\<lambda>b. b) bs))"

definition window_of :: "windows \<Rightarrow> string \<Rightarrow> string \<Rightarrow> (rat \<times> int) option" where
  "window_of ws identity route = map_of ws (identity, route)"

definition limiter_ok :: "int \<Rightarrow> windows \<Rightarrow> bool" where
  "limiter_ok cap ws \<longleftrightarrow> (\<forall>k s c. map_of ws k = Some (s, c) \<longrightarrow> 1 \<le> c \<and> c \<le> cap)"

lemma limiter_check_eq:
  "limiter_check cap win now i r ws =
     (case window_of ws i r of
        None \<Rightarrow>
          if win \<le> 0 then (\<lparr>allowed = True, retry_after = 0\<rparr>, AList.update (i, r) (now, 1) ws)
          else if cap \<le> 0 then (\<lparr>allowed = False, retry_after = max 1 win\<rparr>, ws)
          else (\<lparr>allowed = True, retry_after = 0\<rparr>, AList.update (i, r) (now, 1) ws)
      | Some (s, c) \<Rightarrow>
          if rat_of_int win \<le> now - s then (\<lparr>allowed = True, retry_after = 0\<rparr>, AList.update (i, r) (now, 1) ws)
          else if cap \<le> c then (\<lparr>allowed = False, retry_after = max 1 \<lceil>rat_of_int win - (now - s)\<rceil>\<rparr>, ws)
          else (\<lparr>allowed = True, retry_after = 0\<rparr>, AList.update (i, r) (s, c + 1) ws))"
  by (auto simp: limiter_check_def dict_get_def window_of_def Let_def split: option.split)

lemma limiter_okD: "limiter_ok cap ws \<Longrightarrow> window_of ws i r = Some (s, c) \<Longrightarrow> 1 \<le> c \<and> c \<le> cap"
  by (auto simp: limiter_ok_def window_of_def)

lemma limiter_ok_update:
  "limiter_ok cap ws \<Longrightarrow> 1 \<le> c \<Longrightarrow> c \<le> cap \<Longrightarrow> limiter_ok cap (AList.update (i, r) (s, c) ws)"
  by (auto simp: limiter_ok_def)

lemma limiter_ok_check:
  assumes "limiter_ok cap ws" and "1 \<le> cap"
  shows "limiter_ok cap (snd (limiter_check cap win now i r ws))"
proof (cases "window_of ws i r")
  case None
  with assms show ?thesis by (simp add: limiter_check_eq limiter_ok_update)
next
  case (Some sc)
  obtain s c where sc: "sc = (s, c)" by (cases sc)
  with limiter_okD [OF assms(1)] Some have "1 \<le> c" by auto
  with assms Some sc show ?thesis by (simp add: limiter_check_eq limiter_ok_update)
qed

lemma limiter_other_key:
  "(i', r') \<noteq> (i, r) \<Longrightarrow> window_of (snd (limiter_check cap win now i r ws)) i' r' = window_of ws i' r'"
  by (auto simp: limiter_check_eq window_of_def split: option.split)

lemma grants_Cons [simp]: "grants (b # bs) = (if b then 1 else 0) + grants bs"
  by (simp add: grants_def)

lemma grants_Nil [simp]: "grants [] = 0"
  by (simp add: grants_def)

text \<open>While the current window lasts, at most what is left of its budget is granted.\<close>

lemma grants_in_window:
  "window_of ws i r = Some (s, c) \<Longrightarrow> c \<le> cap \<Longrightarrow> \<forall>t\<in>set ts. t - s < rat_of_int win \<Longrightarrow>
   grants (limiter_run cap win i r ts ws) \<le> cap - c"
proof (induction ts arbitrary: ws c)
  case (Cons t ts)
  have alive: "\<not> rat_of_int win \<le> t - s" using Cons.prems(3) by simp
  show ?case
  proof (cases "cap \<le> c")
    case True
    have "grants (limiter_run cap win i r ts ws) \<le> cap - c"
      using Cons.IH [OF Cons.prems(1,2)] Cons.prems(3) by simp
    with True Cons.prems(1) alive show ?thesis by (simp add: limiter_check_eq Let_def)
  next
    case False
    let ?ws = "AList.update (i, r) (s, c + 1) ws"
    have "window_of ?ws i r = Some (s, c + 1)" by (simp add: window_of_def)
    from Cons.IH [OF this] have "grants (limiter_run cap win i r ts ?ws) \<le> cap - (c + 1)"
      using False Cons.prems(3) by simp
    with False alive Cons.prems(1) show ?thesis by (simp add: limiter_check_eq Let_def)
  qed
qed simp

text \<open>
  Over any stretch of time shorter than the window a client gets at most twice the capacity: a
  stretch can straddle two windows and no more.
\<close>

lemma grants_in_stretch:
  assumes "1 \<le> cap" and "limiter_ok cap ws" and "\<forall>t\<in>set ts. a \<le> t \<and> t < a + rat_of_int win"
  shows "grants (limiter_run cap win i r ts ws) \<le>
     (case window_of ws i r of None \<Rightarrow> cap | Some (s, c) \<Rightarrow> 2 * cap - c)"
  using assms(2,3)
proof (induction ts arbitrary: ws)
  case Nil
  then show ?case using assms(1) by (fastforce dest: limiter_okD split: option.split)
next
  case (Cons t ts)
  have fresh: "grants (limiter_run cap win i r ts (AList.update (i, r) (t, 1) ws)) \<le> cap - 1"
  proof (rule grants_in_window)
    show "window_of (AList.update (i, r) (t, 1) ws) i r = Some (t, 1)" by (simp add: window_of_def)
    show "1 \<le> cap" by (rule assms(1))
    show "\<forall>t'\<in>set ts. t' - t < rat_of_int win" using Cons.prems(2) by fastforce
  qed
  have win: "0 < win" using Cons.prems(2) by fastforce
  show ?case
  proof (cases "window_of ws i r")
    case None
    with fresh win assms(1) show ?thesis by (simp add: limiter_check_eq Let_def)
  next
    case (Some sc)
    obtain s c where sc: "sc = (s, c)" by (cases sc)
    have c: "1 \<le> c" "c \<le> cap" using limiter_okD [OF Cons.prems(1)] Some sc by auto
    show ?thesis
    proof (cases "rat_of_int win \<le> t - s")
      case True
      with fresh Some sc c show ?thesis by (simp add: limiter_check_eq Let_def)
    next
      case False
      show ?thesis
      proof (cases "cap \<le> c")
        case True
        with Cons.IH [OF Cons.prems(1)] Cons.prems(2) Some sc False show ?thesis
          by (simp add: limiter_check_eq Let_def)
      next
        case room: False
        have "limiter_ok cap (AList.update (i, r) (s, c + 1) ws)"
          using Cons.prems(1) c room by (simp add: limiter_ok_update)
        from Cons.IH [OF this] Cons.prems(2) Some sc False room show ?thesis
          by (simp add: limiter_check_eq Let_def window_of_def)
      qed
    qed
  qed
qed

text \<open>A refused client that waits as long as it is told is let through.\<close>

lemma limiter_retry:
  assumes "limiter_check cap win now i r ws = (d, ws')" and "\<not> allowed d" and "1 \<le> cap" and "1 \<le> win"
    and later: "now + rat_of_int (retry_after d) \<le> now'"
  shows "1 \<le> retry_after d \<and> allowed (fst (limiter_check cap win now' i r ws'))"
proof -
  obtain s c where w: "window_of ws i r = Some (s, c)" and d: "d = \<lparr>allowed = False, retry_after = max 1 \<lceil>rat_of_int win - (now - s)\<rceil>\<rparr>"
    and ws': "ws' = ws"
    using assms(1-4) by (auto simp: limiter_check_eq split: option.splits if_splits prod.splits)
  have "rat_of_int win - (now - s) \<le> rat_of_int \<lceil>rat_of_int win - (now - s)\<rceil>" by (rule le_of_int_ceiling)
  also have "\<dots> \<le> rat_of_int (retry_after d)" by (simp add: d)
  finally have "rat_of_int win \<le> now' - s" using later by simp
  then show ?thesis by (simp add: limiter_check_eq w ws' d)
qed

lemma limiter_retry_bound:
  assumes "limiter_check cap win now i r ws = (d, ws')" and "1 \<le> win"
    and "window_of ws i r = Some (s, c)" and "s \<le> now"
  shows "retry_after d \<le> win"
proof -
  have "\<lceil>rat_of_int win - (now - s)\<rceil> \<le> win" using assms(4) by (simp add: ceiling_le_iff)
  then show ?thesis using assms(1-3) by (auto simp: limiter_check_eq split: if_splits)
qed

section \<open>Access control\<close>

record http_request =
  rq_method :: string
  rq_path :: string
  rq_api_key :: "string option"
  rq_forwarded_for :: "string option"
  rq_client_host :: "string option"

record security_settings =
  set_api_key_required :: bool
  set_api_key :: "string option"
  set_api_keys :: "string option"
  set_rate_limit_enabled :: bool
  set_rate_limit_capacity :: int
  set_rate_limit_window_seconds :: int
  set_rate_limit_routes :: string

text \<open>\<open>s.split(",")\<close>.\<close>

fun split_comma :: "string \<Rightarrow> string list" where
  "split_comma [] = [[]]"
| "split_comma (c # s) =
     (if c = CHR '','' then [] # split_comma s
      else case split_comma s of [] \<Rightarrow> [[c]] | w # ws \<Rightarrow> (c # w) # ws)"

definition stripped_items :: "string list \<Rightarrow> string list" where
  "stripped_items vs = map py_strip (filter (\<lambda>v. py_strip v \<noteq> []) vs)"

definition configured_api_keys :: "security_settings \<Rightarrow> string set" where
  "configured_api_keys st =
     set (stripped_items
       ((case set_api_key st of None \<Rightarrow> [] | Some k \<Rightarrow> [k]) @
        (case set_api_keys st of None \<Rightarrow> [] | Some ks \<Rightarrow> split_comma ks)))"

definition PUBLIC_PATHS :: "string set" where
  "PUBLIC_PATHS = {''/'', ''/health'', ''/metrics'', ''/openapi.json'', ''/favicon.ico''}"

definition starts_with :: "string \<Rightarrow> string \<Rightarrow> bool" where
  "starts_with pre s = (take (length pre) s = pre)"

definition is_public_request :: "http_request \<Rightarrow> bool" where
  "is_public_request rq =
     (rq_method rq = ''OPTIONS'' \<or> rq_path rq \<in> PUBLIC_PATHS \<or>
      list_ex (\<lambda>pre. starts_with pre (rq_path rq)) [''/docs'', ''/redoc''])"

definition parse_route_specs :: "string \<Rightarrow> string set" where
  "parse_route_specs v = set (stripped_items (split_comma v))"

definition route_spec :: "http_request \<Rightarrow> string" where
  "route_spec rq = py_upper (rq_method rq) @ '' '' @ rq_path rq"

definition header :: "string option \<Rightarrow> string" where
  "header h = (case h of None \<Rightarrow> [] | Some v \<Rightarrow> v)"

definition rate_limit_identity :: "(string \<Rightarrow> string) \<Rightarrow> http_request \<Rightarrow> string \<Rightarrow> string" where
  "rate_limit_identity digest rq api_key =
     (if api_key \<noteq> [] then ''api-key:'' @ digest api_key
      else if header (rq_forwarded_for rq) \<noteq> []
      then ''ip:'' @ py_strip (takeWhile (\<lambda>c. c \<noteq> CHR '','') (header (rq_forwarded_for rq)))
      else ''ip:'' @ (case rq_client_host rq of None \<Rightarrow> ''unknown'' | Some h \<Rightarrow> h))"

datatype access_decision = PassOn | Unauthorized | RateLimited int

definition access_dispatch ::
    "(string \<Rightarrow> string) \<Rightarrow> security_settings \<Rightarrow> rat \<Rightarrow> http_request \<Rightarrow> windows \<Rightarrow> access_decision \<times> windows" where
  "access_dispatch digest st now rq ws =
     (if is_public_request rq then (PassOn, ws)
      else
       (let api_key = py_strip (header (rq_api_key rq)) in
        if set_api_key_required st \<and> api_key \<notin> configured_api_keys st then (Unauthorized, ws)
        else
         (let route = route_spec rq in
          if set_rate_limit_enabled st \<and> route \<in> parse_route_specs (set_rate_limit_routes st)
          then
           (let (d, ws') = limiter_check (set_rate_limit_capacity st) (set_rate_limit_window_seconds st)
                             now (rate_limit_identity digest rq api_key) route ws
            in if \<not> allowed d then (RateLimited (retry_after d), ws') else (PassOn, ws'))
          else (PassOn, ws))))"

text \<open>\<open>coerce_request_id\<close>; the uuid drawn when there is no usable header is an argument.\<close>

definition coerce_request_id :: "string option \<Rightarrow> string \<Rightarrow> string" where
  "coerce_request_id v fresh = str_or (py_strip (header v)) fresh"

lemma stripped_items_nonempty: "[] \<notin> set (stripped_items vs)"
  by (auto simp: stripped_items_def)

lemma no_empty_api_key: "[] \<notin> configured_api_keys st"
  unfolding configured_api_keys_def by (rule stripped_items_nonempty)

text \<open>Whatever reaches a protected handler carried a configured key.\<close>

lemma access_needs_key:
  assumes "access_dispatch digest st now rq ws = (PassOn, ws')" and "set_api_key_required st"
    and "\<not> is_public_request rq"
  shows "py_strip (header (rq_api_key rq)) \<in> configured_api_keys st"
  using assms by (auto simp: access_dispatch_def Let_def split: if_splits)

lemma access_unauthorized_free:
  "access_dispatch digest st now rq ws = (Unauthorized, ws') \<Longrightarrow> ws' = ws"
  by (auto simp: access_dispatch_def Let_def split: if_splits prod.splits)

lemma access_public: "is_public_request rq \<Longrightarrow> access_dispatch digest st now rq ws = (PassOn, ws)"
  by (simp add: access_dispatch_def)

lemma access_ok:
  "limiter_ok (set_rate_limit_capacity st) ws \<Longrightarrow> 1 \<le> set_rate_limit_capacity st \<Longrightarrow>
   limiter_ok (set_rate_limit_capacity st) (snd (access_dispatch digest st now rq ws))"
  using limiter_ok_check [of "set_rate_limit_capacity st" ws "set_rate_limit_window_seconds st" now
      "rate_limit_identity digest rq (py_strip (header (rq_api_key rq)))" "route_spec rq"]
  by (auto simp: access_dispatch_def Let_def split: prod.split)

lemma split_comma_not_Nil: "split_comma s \<noteq> []"
  by (induction s) (auto split: list.split)

lemma split_comma_no_comma: "w \<in> set (split_comma s) \<Longrightarrow> CHR '','' \<notin> set w"
proof (induction s arbitrary: w)
  case (Cons c s)
  then show ?case
    using split_comma_not_Nil [of s] by (cases "split_comma s") (auto split: if_splits)
qed simp

end
