(* ===== verification/Forecast_Api.thy ===== *)
theory Forecast_Api imports
  Provider_Port
  Http_Security
begin

text \<open>
  The forecast routes and what surrounds them: the choice of the provider
  (\<open>providers/factory.py\<close>) from the settings (\<open>bootstrap/settings.py\<close>), the routes of
  \<open>forecast_queries.py\<close>, \<open>provider_status.py\<close>, \<open>health.py\<close> and \<open>metrics.py\<close>, the two middlewares
  \<open>metrics.py\<close> and \<open>request_correlation.py\<close>, and the order in which \<open>bootstrap/app_factory.py\<close>
  stacks them around a route.
\<close>

section \<open>Settings and the provider\<close>

datatype provider_name = SelectMock | SelectFourCastNet

fun provider_name_str :: "provider_name \<Rightarrow> string" where
  "provider_name_str SelectMock = ''mock''"
| "provider_name_str SelectFourCastNet = ''fourcastnet''"

record app_settings =
  set_app_name :: string
  set_environment :: string
  set_forecast_provider :: provider_name
  set_endpoint_mode :: endpoint_mode
  set_nim_base_url :: string
  set_hosted_url :: string
  set_status_url :: string
  set_nvidia_api_key :: "string option"
  set_max_poll_attempts :: int
  set_poll_interval_seconds :: pyfloat
  set_cache_enabled :: bool

datatype 'n any_provider = MockForecastProvider math_lib | FourCastNetForecastProvider "'n fcn_provider"

text \<open>The libraries behind the providers and the transport of the HTTP client.\<close>

record 'n provider_libs =
  pl_math :: math_lib
  pl_transport :: "'n transport"
  pl_decoder :: decoder_lib
  pl_artifact :: artifact_lib

definition client_of :: "app_settings \<Rightarrow> nim_client" where
  "client_of st =
     \<lparr>base_url = (if set_endpoint_mode st = Hosted then set_hosted_url st else set_nim_base_url st),
      client_mode = set_endpoint_mode st, api_key = opt_or (set_nvidia_api_key st) None,
      status_url = set_status_url st, max_poll_attempts = set_max_poll_attempts st,
      poll_interval_seconds = set_poll_interval_seconds st\<rparr>"

definition build_forecast_provider :: "'n provider_libs \<Rightarrow> app_settings \<Rightarrow> 'n any_provider" where
  "build_forecast_provider libs st =
     (if set_forecast_provider st = SelectMock then MockForecastProvider (pl_math libs)
      else FourCastNetForecastProvider
        \<lparr>fp_client = client_of st, fp_transport = pl_transport libs, fp_decoder = pl_decoder libs,
         fp_lib = pl_artifact libs, fp_cached = set_cache_enabled st\<rparr>)"

section \<open>Routes\<close>

text \<open>A document with its status, an \<open>HTTPException\<close> (or FastAPI's 422), or an exception that no
  route catches.\<close>

datatype 'b api_response = ApiOk nat 'b | ApiError nat string | ApiCrash

fun response_status :: "'b api_response \<Rightarrow> nat" where
  "response_status (ApiOk n b) = n"
| "response_status (ApiError n m) = n"
| "response_status ApiCrash = 500"

text \<open>\<open>except ForecastProviderUnavailableError\<close> with its message; nothing else is caught.\<close>

fun unavailable_response :: "fcn_error \<Rightarrow> 'b api_response" where
  "unavailable_response (Unavailable (ForecastProviderUnavailableError m d)) = ApiError 503 m"
| "unavailable_response _ = ApiCrash"

definition respond :: "('s, fcn_error, 'b) handler \<Rightarrow> 's \<Rightarrow> 'b api_response \<times> 's" where
  "respond h s = (case h s of (Inl e, s') \<Rightarrow> (unavailable_response e, s') | (Inr b, s') \<Rightarrow> (ApiOk 200 b, s'))"

fun provider_point_forecast :: "'n any_provider \<Rightarrow> pyfloat \<Rightarrow> pyfloat \<Rightarrow>
    ('n provider_state, fcn_error, forecast_summary) handler" where
  "provider_point_forecast (MockForecastProvider lib) lat lon =
     bindM clock_read (\<lambda>now. liftS DecoderError (liftM (mock_get_point_forecast lib now lat lon)))"
| "provider_point_forecast (FourCastNetForecastProvider f) lat lon = fcn_get_point_forecast f lat lon"

text \<open>\<open>/point\<close> and \<open>/sample\<close> share one body.\<close>

definition point_forecast :: "'n any_provider \<Rightarrow> pyfloat \<Rightarrow> pyfloat \<Rightarrow> 'n provider_state \<Rightarrow>
    forecast_summary api_response \<times> 'n provider_state" where
  "point_forecast p lat lon s =
     (if \<not> (flt_between (-90) lat 90 \<and> flt_between (-180) lon 180) then (ApiError 422 [], s)
      else respond (provider_point_forecast p lat lon) s)"

definition hosted_fourcastnet_inference :: "'n any_provider \<Rightarrow> hosted_request \<Rightarrow> 'n provider_state \<Rightarrow>
    hosted_result api_response \<times> 'n provider_state" where
  "hosted_fourcastnet_inference p req s =
     (if \<not> hosted_request_valid req then (ApiError 422 [], s)
      else case p of
             MockForecastProvider lib \<Rightarrow>
               (ApiError 409 ''Select EARTH2_FORECAST_PROVIDER=fourcastnet to run hosted inference.'', s)
           | FourCastNetForecastProvider f \<Rightarrow> respond (provider_run_hosted_inference f req) s)"

definition forecast_provider_status :: "'n any_provider \<Rightarrow> 'n provider_state \<Rightarrow>
    forecast_provider_status api_response \<times> 'n provider_state" where
  "forecast_provider_status p s =
     (case p of
        MockForecastProvider lib \<Rightarrow> (ApiOk 200 mock_status, s)
      | FourCastNetForecastProvider f \<Rightarrow>
          (case fcn_get_status f s of (Inl e, s') \<Rightarrow> (ApiCrash, s') | (Inr st, s') \<Rightarrow> (ApiOk 200 st, s')))"

definition index_route :: "app_settings \<Rightarrow> (string \<times> json) list" where
  "index_route st =
     [(''service'', JString (set_app_name st)), (''status'', JString ''ok''),
      (''links'', JObject
        [(''health'', JString ''/health''), (''docs'', JString ''/docs''),
         (''provider_status'', JString ''/api/v1/forecast/provider/status''),
         (''point_forecast'', JString ''/api/v1/forecast/point?latitude=37.5665&longitude=126.9780''),
         (''forecast_jobs'', JString ''/api/v1/forecast/jobs'')])]"

definition health :: "app_settings \<Rightarrow> (string \<times> json) list" where
  "health st =
     [(''status'', JString ''ok''), (''service'', JString (set_app_name st)),
      (''environment'', JString (set_environment st)),
      (''mock_forecast'', JBool (set_forecast_provider st = SelectMock)),
      (''forecast_provider'', JString (provider_name_str (set_forecast_provider st)))]"

section \<open>Middlewares\<close>

text \<open>
  What travels back through the middlewares: a status, the headers and the body. A handler that
  raised is \<open>None\<close>. The registry of metrics is threaded through; it is also what a job route
  increments.
\<close>

record web_response =
  web_status :: nat
  web_headers :: "(string \<times> string) list"
  web_body :: "(string \<times> json) list"

type_synonym 'w app = "http_request \<Rightarrow> 'w \<Rightarrow> web_response option \<times> 'w"

record web_state =
  web_registry :: metrics_registry
  web_windows :: windows

definition REQUEST_ID_HEADER :: string where
  "REQUEST_ID_HEADER = ''X-Request-ID''"

text \<open>\<open>ApiAccessControlMiddleware\<close> around the next handler, with the responses it gives itself.\<close>

definition access_middleware ::
    "(string \<Rightarrow> string) \<Rightarrow> security_settings \<Rightarrow> rat \<Rightarrow> ('z web_state_scheme) app \<Rightarrow> ('z web_state_scheme) app" where
  "access_middleware digest st now next_app rq w =
     (case access_dispatch digest st now rq (web_windows w) of
        (PassOn, ws) \<Rightarrow> next_app rq (w\<lparr>web_windows := ws\<rparr>)
      | (Unauthorized, ws) \<Rightarrow>
          (Some \<lparr>web_status = 401, web_headers = [],
                 web_body = [(''detail'', JString ''Missing or invalid API key.'')]\<rparr>, w\<lparr>web_windows := ws\<rparr>)
      | (RateLimited seconds, ws) \<Rightarrow>
          (Some \<lparr>web_status = 429, web_headers = [(''Retry-After'', int_str seconds)],
                 web_body = [(''detail'', JString ''Rate limit exceeded.'')]\<rparr>, w\<lparr>web_windows := ws\<rparr>))"

definition correlation_middleware :: "string option \<Rightarrow> string \<Rightarrow> 'w app \<Rightarrow> 'w app" where
  "correlation_middleware value fresh next_app rq w =
     (case next_app rq w of
        (None, w') \<Rightarrow> (None, w')
      | (Some r, w') \<Rightarrow>
          (Some (r\<lparr>web_headers := AList.update REQUEST_ID_HEADER (coerce_request_id value fresh) (web_headers r)\<rparr>), w'))"

definition route_path :: "string option \<Rightarrow> http_request \<Rightarrow> string" where
  "route_path matched rq = opt_str_or matched (rq_path rq)"

text \<open>\<open>route\<close> is the path of the route that matched, if one did; \<open>duration\<close> what \<open>perf_counter\<close> measured.\<close>

definition metrics_middleware ::
    "string option \<Rightarrow> pyfloat \<Rightarrow> ('z web_state_scheme) app \<Rightarrow> ('z web_state_scheme) app" where
  "metrics_middleware matched duration next_app rq w =
     (case next_app rq w of (r, w') \<Rightarrow>
        (r, w'\<lparr>web_registry := record_http_request (rq_method rq) (route_path matched rq)
                 (case r of None \<Rightarrow> 500 | Some x \<Rightarrow> int (web_status x)) duration (web_registry w')\<rparr>))"

text \<open>The scrape endpoint, itself a route inside the middlewares.\<close>

definition metrics_route :: "(pyfloat \<Rightarrow> string) \<Rightarrow> ('z web_state_scheme) \<Rightarrow> string" where
  "metrics_route flt_str w = render_prometheus flt_str (web_registry w)"

text \<open>One request, as \<open>create_app_from_container\<close> stacks the middlewares: the one added last is the
  outermost.\<close>

record request_context =
  rc_now :: rat
  rc_request_id :: "string option"
  rc_fresh_id :: string
  rc_route :: "string option"
  rc_duration :: pyfloat

definition serve :: "(string \<Rightarrow> string) \<Rightarrow> security_settings \<Rightarrow> request_context \<Rightarrow>
    ('z web_state_scheme) app \<Rightarrow> ('z web_state_scheme) app" where
  "serve digest st rc route_app =
     metrics_middleware (rc_route rc) (rc_duration rc)
       (correlation_middleware (rc_request_id rc) (rc_fresh_id rc)
         (access_middleware digest st (rc_now rc) route_app))"

section \<open>Lemmas\<close>

text \<open>The mock provider always answers a request for a coordinate on earth.\<close>

lemma mock_point_forecast_ok:
  assumes "mock_usable (lib, wall_clock s (clock_reads s))"
    and "flt_between (- 90) lat 90" and "flt_between (- 180) lon 180"
  shows "\<exists>x s'. point_forecast (MockForecastProvider lib) lat lon s = (ApiOk 200 x, s') \<and> storable_summary x \<and>
    sent s' = sent s"
proof -
  obtain x where x: "mock_get_point_forecast lib (wall_clock s (clock_reads s)) lat lon = Inr x" "storable_summary x"
    using assms mock_get_point_forecast_ok [of lib "wall_clock s (clock_reads s)" lat lon]
    by (auto simp: mock_usable_def in_ints_between)
  then show ?thesis
    using assms(2,3) by (simp add: point_forecast_def respond_def bindM_def clock_read_def liftS_def)
qed

text \<open>Without a key the hosted model is not called.\<close>

lemma no_key_no_request:
  assumes "opt_or (api_key (fp_client f)) None = None" and "client_mode (fp_client f) = Hosted"
    and "flt_between (- 90) lat 90" and "flt_between (- 180) lon 180"
  shows "point_forecast (FourCastNetForecastProvider f) lat lon s =
    (ApiError 503 ''FourCastNet provider is not ready. Use mock provider until NIM is configured.'', s)"
  using assms
  by (simp add: point_forecast_def respond_def fcn_get_point_forecast_def get_point_forecast_with_diagnostics_def
      fcn_get_status_def get_readiness_status_def hosted_status_def bindM_def liftS_def Let_def unavailable_def
      opt_or_def opt_str_or_def str_or_def provider_unavailable_def split: option.splits if_splits)

definition request_labels :: "string \<Rightarrow> string \<Rightarrow> int \<Rightarrow> labels" where
  "request_labels meth path code =
     make_labels [(''method'', py_upper meth), (''path'', path), (''status_code'', int_str code)]"

definition request_count :: "labels \<Rightarrow> metrics_registry \<Rightarrow> int" where
  "request_count ls reg = dict_get (http_request_counts reg) ls 0"

lemma request_count_record:
  "request_count ls (record_http_request m p c d reg) =
     request_count ls reg + (if ls = request_labels m p c then 1 else 0)"
  by (auto simp: request_count_def record_http_request_def request_labels_def Let_def dict_get_def)

lemma serve_run:
  "serve digest st rc route_app rq w =
     (case access_middleware digest st (rc_now rc) route_app rq w of (r, w') \<Rightarrow>
        (map_option (\<lambda>x. x\<lparr>web_headers := AList.update REQUEST_ID_HEADER
             (coerce_request_id (rc_request_id rc) (rc_fresh_id rc)) (web_headers x)\<rparr>) r,
         w'\<lparr>web_registry := record_http_request (rq_method rq) (route_path (rc_route rc) rq)
              (case r of None \<Rightarrow> 500 | Some x \<Rightarrow> int (web_status x)) (rc_duration rc) (web_registry w')\<rparr>))"
  by (auto simp: serve_def metrics_middleware_def correlation_middleware_def split: prod.split option.split)

lemma access_middleware_refuses:
  assumes "fst (access_dispatch digest st now rq (web_windows w)) \<noteq> PassOn"
  shows "\<exists>x ws. access_middleware digest st now route_app rq w = (Some x, w\<lparr>web_windows := ws\<rparr>) \<and>
    web_status x = (if fst (access_dispatch digest st now rq (web_windows w)) = Unauthorized then 401 else 429)"
  using assms by (auto simp: access_middleware_def split: prod.split access_decision.split)

end
