(* ===== verification/Edge_Properties.thy ===== *)
theory Edge_Properties imports
  Fixtures
  Forecast_Api
begin

text \<open>
  The properties of the HTTP surface: the job routes over any store adapter, access control and rate
  limiting, request metrics and ids.
\<close>

section \<open>Routes over any store\<close>

text \<open>A route over a store adapter answers as over the abstract store, and ends in the state the
  abstract store ends in.\<close>

lemmas route_sim = answer_sim [OF job_store.sim_cancel] answer_sim [OF job_store.sim_retry]
  answer_sim [OF job_store.sim_submit] answer_sim [OF job_store.sim_cleanup]

lemma abs_stored: "stored (abs_world amap w) = amap (stored w)"
  by simp

lemma cancel_route_sim:
  assumes "job_store st ok amap" and "ok (stored w)"
  shows "fst (cancel_forecast_job st f jid w) = fst (cancel_forecast_job ref_store f jid (abs_world amap w))"
    and "stored (snd (cancel_forecast_job ref_store f jid (abs_world amap w))) =
           amap (stored (snd (cancel_forecast_job st f jid w)))"
  using route_sim(1,2) [OF assms] by (simp_all add: cancel_forecast_job_def)

lemma retry_route_sim:
  assumes "job_store st ok amap" and "ok (stored w)"
  shows "fst (retry_forecast_job st f jid w) = fst (retry_forecast_job ref_store f jid (abs_world amap w))"
    and "stored (snd (retry_forecast_job ref_store f jid (abs_world amap w))) =
           amap (stored (snd (retry_forecast_job st f jid w)))"
  using route_sim(3,4) [OF assms] by (simp_all add: retry_forecast_job_def)

lemma create_route_sim:
  assumes "job_store st ok amap" and "ok (stored w)"
  shows "fst (create_forecast_job st f la lo w) = fst (create_forecast_job ref_store f la lo (abs_world amap w))"
    and "stored (snd (create_forecast_job ref_store f la lo (abs_world amap w))) =
           amap (stored (snd (create_forecast_job st f la lo w)))"
  using route_sim(5,6) [OF assms] by (simp_all add: create_forecast_job_def)

lemma cleanup_route_sim:
  assumes "job_store st ok amap" and "ok (stored w)"
  shows "fst (cleanup_forecast_jobs st n r w) = fst (cleanup_forecast_jobs ref_store n r (abs_world amap w))"
    and "stored (snd (cleanup_forecast_jobs ref_store n r (abs_world amap w))) =
           amap (stored (snd (cleanup_forecast_jobs st n r w)))"
  using route_sim(7,8) [OF assms] by (simp_all add: cleanup_forecast_jobs_def)

section \<open>The job routes\<close>



text \<open>C20. Cancelling a job: 404 for an id that names no job in whatever spelling, 409 for a job that
  has already ended, and otherwise 200 with the cancelled job.\<close>

theorem cancel_route:
  assumes "job_store st ok amap" and "ok (stored w)"
  shows "fst (fst (cancel_forecast_job st f jid w)) =
    (case find_job (amap (stored w)) jid of
       None \<Rightarrow> HttpError 404 not_found_detail
     | Some j \<Rightarrow>
         if is_terminal_job_status (status j)
         then HttpError 409 (conflict_message (cannot ''cancel'' (status j)))
         else Response 200 (with_job_links f
                ((cancelled_job j (clock_fn w (ticks w)))\<lparr>updated_at := clock_fn w (Suc (ticks w))\<rparr>)))"
  using cancel_response [of "abs_world amap w" f jid] job_store.inv_wf [OF assms] cancel_route_sim(1) [OF assms, of f jid]
  unfolding abs_world_sel is_terminal_job_status_def by simp

theorem cancel_route_witness:
  "fst (fst (cancel_forecast_job memory_ops ex_links ex_id (ex_world (ex_memory ex_cancelled)))) =
     HttpError 409 (conflict_message (cannot ''cancel'' Cancelled))"
proof -
  let ?w = "ex_world (ex_memory ex_cancelled)"
  have ok: "mem_ok (stored ?w)" using ex_memory_ok ex_facts by simp
  have here: "find_job (mem_map (stored ?w)) ex_id = Some ex_cancelled"
    by (simp add: find_job_def normalize_canonical ex_memory_map)
  from cancel_route [where jid = ex_id and f = ex_links, OF mem.job_store_axioms ok] show ?thesis
    unfolding here by (simp add: ex_facts is_terminal_job_status_def TERMINAL_JOB_STATUSES_def)
qed

text \<open>C21. Retrying a job: an ended job gets 202 with a new queued job at the same coordinates, one
  attempt further and with the old job as its parent, which is stored and handed to the queue while
  the old job stays; an active job gets 409, an unknown one 404, and neither changes anything.\<close>

theorem retry_route:
  assumes "job_store st ok amap" and "ok (stored w)" and "identity_parse (id_fn w (ids_used w)) = Inr k"
  shows "case find_job (amap (stored w)) jid of
      None \<Rightarrow> fst (retry_forecast_job st f jid w) = (HttpError 404 not_found_detail, []) \<and>
        amap (stored (snd (retry_forecast_job st f jid w))) = amap (stored w)
    | Some j \<Rightarrow>
        if is_active_job_status (status j)
        then fst (retry_forecast_job st f jid w) =
               (HttpError 409 (conflict_message (cannot ''retry'' (status j))), []) \<and>
             amap (stored (snd (retry_forecast_job st f jid w))) = amap (stored w)
        else \<exists>n. fst (retry_forecast_job st f jid w) = (Response 202 (with_job_links f n), [k]) \<and>
          amap (stored (snd (retry_forecast_job st f jid w))) = (amap (stored w))(k \<mapsto> n) \<and>
          job_id n = k \<and> status n = Queued \<and> latitude n = latitude j \<and> longitude n = longitude j \<and>
          attempt n = attempt j + 1 \<and> parent_job_id n = Some (job_id j)"
proof -
  let ?a = "abs_world amap w"
  have wf: "store_wf (stored ?a)" using job_store.inv_wf [OF assms(1,2)] by simp
  have id: "identity_parse (id_fn ?a (ids_used ?a)) = Inr k" using assms(3) by simp
  note sim = retry_route_sim [OF assms(1,2), of f jid]
  show ?thesis
  proof (cases "find_job (amap (stored w)) jid")
    case None
    with retry_refused [of ?a jid undefined f] sim show ?thesis by simp
  next
    case (Some j)
    then have here: "find_job (stored ?a) jid = Some j" by simp
    show ?thesis
    proof (cases "status j \<in> ACTIVE_JOB_STATUSES")
      case True
      with retry_refused [of ?a jid j f] here sim show ?thesis by (simp add: is_active_job_status_def)
    next
      case False
      then have t: "status j \<in> TERMINAL_JOB_STATUSES" by (simp add: status_cases)
      from retry_response [OF wf id here t, of f] sim Some False show ?thesis
        by (auto simp: is_active_job_status_def)
    qed
  qed
qed

theorem retry_route_witness:
  "\<exists>n. fst (retry_forecast_job memory_ops ex_links ex_id (ex_world (ex_memory ex_cancelled))) =
      (Response 202 (with_job_links ex_links n), [uuid_str 1]) \<and> attempt n = 2 \<and> parent_job_id n = Some ex_id"
proof -
  let ?w = "ex_world (ex_memory ex_cancelled)"
  have ok: "mem_ok (stored ?w)" using ex_memory_ok ex_facts by simp
  have id: "identity_parse (id_fn ?w (ids_used ?w)) = Inr (uuid_str 1)" using ex_ids by simp
  have here: "find_job (mem_map (stored ?w)) ex_id = Some ex_cancelled"
    by (simp add: find_job_def normalize_canonical ex_memory_map)
  have "attempt ex_cancelled = 1" by (simp add: ex_cancelled_def cancelled_job_def ex_queued_def new_job_record_def)
  with retry_route [where jid = ex_id and f = ex_links, OF mem.job_store_axioms ok id] show ?thesis
    unfolding here by (auto simp: ex_facts is_active_job_status_def ACTIVE_JOB_STATUSES_def)
qed

text \<open>C22. Polling tells the truth: for a consistent job the route answers 200, says that the job has
  ended exactly when it has, that the forecast is ready exactly when it succeeded, asks the client to
  come back in two seconds exactly while it is active, and its latest event is that of the current
  status.\<close>

theorem poll_route:
  assumes "job_store st ok amap" and "ok (stored w)" and "find_job (amap (stored w)) jid = Some j" and "job_ok j"
  shows "\<exists>r. fst (fst (poll_forecast_job st f jid w)) = Response 200 r \<and> poll_id r = job_id j \<and>
    poll_status r = status j \<and> poll_terminal r = is_terminal_job_status (status j) \<and>
    poll_forecast_ready r = (status j = Succeeded) \<and>
    poll_retry_after_seconds r = (if is_active_job_status (status j) then Some 2 else None) \<and>
    (\<exists>e. poll_latest_event r = Some e \<and> event_status e = status j)"
proof -
  note r = poll_found [OF assms(1-3), of f]
  have "events j \<noteq> []" using assms(4) by (auto simp: job_ok_def history_def)
  moreover have "event_status (last (events j)) = status j"
    using assms(4) calculation by (simp add: job_ok_def history_def last_map)
  ultimately show ?thesis
    using assms(4) r
    by (intro exI [of _ "to_job_poll_response (with_job_links f j)"])
      (simp add: to_job_poll_response_def with_job_links_def Let_def job_ok_def is_terminal_job_status_def
        is_active_job_status_def status_cases)
qed

theorem poll_route_witness:
  "\<exists>r. fst (fst (poll_forecast_job memory_ops ex_links ex_id (ex_world (ex_memory ex_running)))) = Response 200 r \<and>
     poll_retry_after_seconds r = Some 2"
proof -
  let ?w = "ex_world (ex_memory ex_running)"
  have ok: "mem_ok (stored ?w)" using ex_memory_ok ex_facts by simp
  have here: "find_job (mem_map (stored ?w)) ex_id = Some ex_running"
    by (simp add: find_job_def normalize_canonical ex_memory_map)
  from poll_route [where f = ex_links, OF mem.job_store_axioms ok here ex_facts(5)] show ?thesis
    by (auto simp: ex_facts is_active_job_status_def ACTIVE_JOB_STATUSES_def)
qed



section \<open>Access control and rate limiting\<close>

text \<open>C24. The rate limiter keeps its promise over time: in any stretch of time shorter than the window,
  however the requests of one client to one route fall into it and whatever happened before, at most
  twice the capacity are let through, and at most the capacity when the client was not seen before.\<close>

theorem rate_limit_bound:
  assumes "1 \<le> cap" and "limiter_ok cap ws" and "\<forall>t\<in>set ts. a \<le> t \<and> t < a + rat_of_int win"
  shows "grants (limiter_run cap win i r ts ws) \<le> 2 * cap \<and>
    (window_of ws i r = None \<longrightarrow> grants (limiter_run cap win i r ts ws) \<le> cap)"
proof -
  note bound = grants_in_stretch [OF assms, of i r]
  have "1 \<le> c" if "window_of ws i r = Some (s, c)" for s c using limiter_okD [OF assms(2) that] by simp
  with bound assms(1) show ?thesis by (fastforce split: option.splits)
qed

theorem rate_limit_bound_witness:
  "grants (limiter_run 1 60 ''ip:a'' ''GET /x'' [0, 30, 59] []) \<le> 1"
  using rate_limit_bound [of 1 "[]" "[0, 30, 59]" 0 60 "''ip:a''" "''GET /x''"]
  by (simp add: limiter_ok_def window_of_def)

text \<open>A refused client is told how long to wait: at least one second, at most the window, and if it
  waits that long its next request is let through.\<close>

theorem rate_limit_retry:
  assumes "limiter_check cap win now i r ws = (d, ws')" and "\<not> allowed d" and "1 \<le> cap" and "1 \<le> win"
    and "\<forall>s c. window_of ws i r = Some (s, c) \<longrightarrow> s \<le> now"
    and "now + rat_of_int (retry_after d) \<le> now'"
  shows "1 \<le> retry_after d \<and> retry_after d \<le> win \<and> allowed (fst (limiter_check cap win now' i r ws'))"
proof -
  obtain s c where w: "window_of ws i r = Some (s, c)"
    using assms(1-4) by (auto simp: limiter_check_eq split: option.splits if_splits prod.splits)
  with assms(5) have "retry_after d \<le> win" using limiter_retry_bound [OF assms(1,4) w] by simp
  with limiter_retry [OF assms(1-4,6)] show ?thesis by simp
qed

theorem rate_limit_retry_witness:
  "allowed (fst (limiter_check 1 60 40 ''ip:a'' ''GET /x''
     (snd (limiter_check 1 60 10 ''ip:a'' ''GET /x'' [((''ip:a'', ''GET /x''), (-20, 1))]))))"
proof -
  let ?ws = "[((''ip:a'', ''GET /x''), (-20 :: rat, 1 :: int))]"
  have now: "limiter_check 1 60 10 ''ip:a'' ''GET /x'' ?ws = (\<lparr>allowed = False, retry_after = 30\<rparr>, ?ws)"
    by (simp add: limiter_check_def dict_get_def)
  have past: "\<forall>s c. window_of ?ws ''ip:a'' ''GET /x'' = Some (s, c) \<longrightarrow> s \<le> 10" by (simp add: window_of_def)
  have refused: "\<not> allowed \<lparr>allowed = False, retry_after = 30\<rparr>" by simp
  from rate_limit_retry [OF now refused _ _ past, of 40] show ?thesis by (simp only: now) simp
qed

text \<open>A protected route is only reached with a configured key: when keys are required, a request
  that is let through to the routes either goes to a public path (or is a preflight) or carries one of
  the configured keys, and the empty key is never one of them. A refused request leaves the limiter
  as it is.\<close>

theorem protected_routes_need_key:
  assumes "access_dispatch digest st now rq ws = (d, ws')" and "set_api_key_required st"
  shows "(d = PassOn \<longrightarrow> is_public_request rq \<or>
      py_strip (header (rq_api_key rq)) \<in> configured_api_keys st \<and> py_strip (header (rq_api_key rq)) \<noteq> []) \<and>
    (d = Unauthorized \<longrightarrow> ws' = ws)"
  using access_needs_key [of digest st now rq ws ws'] access_unauthorized_free [of digest st now rq ws ws']
    no_empty_api_key [of st] assms by metis

definition ex_security :: security_settings where
  "ex_security = \<lparr>set_api_key_required = True, set_api_key = None, set_api_keys = Some ''k1, k2,'',
     set_rate_limit_enabled = False, set_rate_limit_capacity = 60, set_rate_limit_window_seconds = 60,
     set_rate_limit_routes = ''GET /x''\<rparr>"

definition ex_request :: "string option \<Rightarrow> http_request" where
  "ex_request key = \<lparr>rq_method = ''GET'', rq_path = ''/api/v1/forecast/jobs'', rq_api_key = key,
     rq_forwarded_for = None, rq_client_host = Some ''10.0.0.1''\<rparr>"

lemma ex_access:
  "access_dispatch (\<lambda>k. k) ex_security 0 (ex_request (Some ''k2'')) [] = (PassOn, [])"
  "access_dispatch (\<lambda>k. k) ex_security 0 (ex_request None) [] = (Unauthorized, [])"
proof -
  have closed: "\<not> is_public_request (ex_request key)" for key
    by (simp add: is_public_request_def ex_request_def PUBLIC_PATHS_def starts_with_def)
  have key: "py_strip ''k2'' \<in> configured_api_keys ex_security" by code_simp
  have no_key: "py_strip [] \<notin> configured_api_keys ex_security" by code_simp
  show "access_dispatch (\<lambda>k. k) ex_security 0 (ex_request (Some ''k2'')) [] = (PassOn, [])"
    unfolding access_dispatch_def using closed key
    by (simp add: Let_def ex_request_def header_def) (simp add: ex_security_def)
  show "access_dispatch (\<lambda>k. k) ex_security 0 (ex_request None) [] = (Unauthorized, [])"
    unfolding access_dispatch_def using closed no_key
    by (simp add: Let_def ex_request_def header_def) (simp add: ex_security_def)
qed

theorem protected_routes_need_key_witness:
  "is_public_request (ex_request (Some ''k2'')) \<or>
     py_strip (header (rq_api_key (ex_request (Some ''k2'')))) \<in> configured_api_keys ex_security"
  using protected_routes_need_key [OF ex_access(1)] by (auto simp: ex_security_def)

text \<open>Without required keys the limiter can be evaded: the key a client sends is its identity for
  the limiter although nothing has checked it, so a request with a key that was not used before is let
  through whatever the client has sent so far.\<close>

theorem unchecked_key_evades_limit:
  assumes "\<not> set_api_key_required st" and "1 \<le> set_rate_limit_capacity st" and "py_strip key \<noteq> []"
    and "window_of ws (''api-key:'' @ digest (py_strip key)) (route_spec rq) = None"
  shows "fst (access_dispatch digest st now (rq\<lparr>rq_api_key := Some key\<rparr>) ws) = PassOn"
  using assms
  by (auto simp: access_dispatch_def Let_def header_def rate_limit_identity_def limiter_check_eq route_spec_def
      split: prod.split)

theorem unchecked_key_evades_limit_witness:
  "let st = ex_security\<lparr>set_api_key_required := False, set_rate_limit_enabled := True, set_rate_limit_capacity := 1\<rparr>;
       ws = [((''api-key:a'', ''GET /api/v1/forecast/jobs''), (0, 1))]
   in fst (access_dispatch (\<lambda>k. k) st 1 (ex_request None\<lparr>rq_api_key := Some ''b''\<rparr>) ws) = PassOn"
proof -
  have "py_strip ''b'' = ''b''" by code_simp
  then show ?thesis
    unfolding Let_def
    by (intro unchecked_key_evades_limit) (simp_all add: ex_security_def ex_request_def window_of_def)
qed

section \<open>Accounting\<close>

text \<open>C27. Every request is accounted for: whatever a request meets, a refusal by access control, an
  answer of a route or an exception, exactly the counter of its method, path and status goes up by
  one, where an exception counts as 500; a response, refusals included, carries the request id the
  client sent or the one drawn for it; and a refused request never reaches a route.\<close>

theorem request_accounting:
  assumes "serve digest st rc route_app rq w = (r, w')"
    and "\<forall>rq w. http_request_counts (web_registry (snd (route_app rq w))) = http_request_counts (web_registry w)"
  shows "request_count ls (web_registry w') = request_count ls (web_registry w) +
      (if ls = request_labels (rq_method rq) (route_path (rc_route rc) rq)
                 (case r of None \<Rightarrow> 500 | Some x \<Rightarrow> int (web_status x)) then 1 else 0) \<and>
    (\<forall>x. r = Some x \<longrightarrow> map_of (web_headers x) REQUEST_ID_HEADER =
       Some (coerce_request_id (rc_request_id rc) (rc_fresh_id rc))) \<and>
    (fst (access_dispatch digest st (rc_now rc) rq (web_windows w)) \<noteq> PassOn \<longrightarrow>
       (\<exists>x. r = Some x \<and> web_status x \<in> {401, 429}) \<and>
       (\<forall>other. serve digest st rc other rq w = (r, w')))"
proof -
  let ?acc = "access_dispatch digest st (rc_now rc) rq (web_windows w)"
  obtain r1 w1 where inner: "access_middleware digest st (rc_now rc) route_app rq w = (r1, w1)" by fastforce
  obtain d ws where acc: "?acc = (d, ws)" by fastforce
  have "http_request_counts (web_registry (snd (route_app rq (w\<lparr>web_windows := ws\<rparr>)))) = http_request_counts (web_registry w)"
    using assms(2) by simp
  then have counts: "http_request_counts (web_registry w1) = http_request_counts (web_registry w)"
    using inner by (cases d) (auto simp: access_middleware_def acc)
  have r: "r = map_option (\<lambda>x. x\<lparr>web_headers := AList.update REQUEST_ID_HEADER
        (coerce_request_id (rc_request_id rc) (rc_fresh_id rc)) (web_headers x)\<rparr>) r1"
    and w': "web_registry w' = record_http_request (rq_method rq) (route_path (rc_route rc) rq)
        (case r1 of None \<Rightarrow> 500 | Some x \<Rightarrow> int (web_status x)) (rc_duration rc) (web_registry w1)"
    using assms(1) by (auto simp: serve_run inner)
  have "(case r of None \<Rightarrow> 500 | Some x \<Rightarrow> int (web_status x)) = (case r1 of None \<Rightarrow> 500 | Some x \<Rightarrow> int (web_status x))"
    unfolding r by (cases r1) simp_all
  then have count: "request_count ls (web_registry w') = request_count ls (web_registry w) +
      (if ls = request_labels (rq_method rq) (route_path (rc_route rc) rq)
                 (case r of None \<Rightarrow> 500 | Some x \<Rightarrow> int (web_status x)) then 1 else 0)"
    by (simp add: w' request_count_record) (simp add: request_count_def counts)
  have refused: "(\<exists>x. r = Some x \<and> web_status x \<in> {401, 429}) \<and> (\<forall>other. serve digest st rc other rq w = (r, w'))"
    if refusal: "fst ?acc \<noteq> PassOn"
  proof
    obtain x ws where x: "access_middleware digest st (rc_now rc) route_app rq w = (Some x, w\<lparr>web_windows := ws\<rparr>)"
      "web_status x = 401 \<or> web_status x = 429"
      using access_middleware_refuses [OF refusal, of route_app] by (auto split: if_splits)
    then show "\<exists>x. r = Some x \<and> web_status x \<in> {401, 429}" using r inner by auto
    have same: "access_middleware digest st (rc_now rc) other rq w = access_middleware digest st (rc_now rc) route_app rq w" for other
      using refusal by (auto simp: access_middleware_def split: prod.split access_decision.split)
    have "serve digest st rc other rq w = serve digest st rc route_app rq w" for other
      unfolding serve_run same [of other] ..
    then show "\<forall>other. serve digest st rc other rq w = (r, w')" using assms(1) by simp
  qed
  have header: "\<forall>x. r = Some x \<longrightarrow> map_of (web_headers x) REQUEST_ID_HEADER =
      Some (coerce_request_id (rc_request_id rc) (rc_fresh_id rc))"
    unfolding r by (cases r1) auto
  show ?thesis by (intro conjI count header impI refused [THEN conjunct1] refused [THEN conjunct2])
qed

definition ex_context :: request_context where
  "ex_context = \<lparr>rc_now = 0, rc_request_id = Some ''r-1'', rc_fresh_id = ''r-2'', rc_route = None, rc_duration = Fin 0\<rparr>"

theorem request_accounting_witness:
  "fst (serve (\<lambda>k. k) ex_security ex_context (\<lambda>rq w. (None, w)) (ex_request None)
      \<lparr>web_registry = empty_registry, web_windows = []\<rparr>) =
   fst (serve (\<lambda>k. k) ex_security ex_context (\<lambda>rq w. (Some \<lparr>web_status = 200, web_headers = [], web_body = []\<rparr>, w))
      (ex_request None) \<lparr>web_registry = empty_registry, web_windows = []\<rparr>)"
proof -
  let ?w = "\<lparr>web_registry = empty_registry, web_windows = []\<rparr>"
  obtain r w' where s: "serve (\<lambda>k. k) ex_security ex_context (\<lambda>rq w. (None, w)) (ex_request None) ?w = (r, w')" by fastforce
  have "fst (access_dispatch (\<lambda>k. k) ex_security (rc_now ex_context) (ex_request None) (web_windows ?w)) \<noteq> PassOn"
    by (simp add: ex_context_def ex_access)
  with request_accounting [OF s, of "[]"] s show ?thesis by (metis fst_conv snd_conv)
qed



text \<open>C29. Job ids round trip: the text of every 128-bit number parses to that number, and whatever
  spelling of a UUID is given, the identity it parses to is its canonical text of 36 characters, which
  parses to itself; so two spellings name the same job exactly when they name the same number.\<close>

theorem job_identity_round_trip:
  assumes "identity_parse a = Inr k" and "n < 2 ^ 128"
  shows "uuid_parse (uuid_str n) = Some n \<and> identity_parse k = Inr k \<and> length k = 36 \<and>
    (identity_parse b = Inr k \<longleftrightarrow> uuid_parse b = uuid_parse a)"
proof -
  obtain m where m: "uuid_parse a = Some m" "k = uuid_str m"
    using assms(1) by (auto simp: identity_parse_def split: option.splits)
  have "m < 2 ^ 128" using uuid_parse_bound [OF m(1)] .
  then have "identity_parse b = Inr k \<longleftrightarrow> uuid_parse b = uuid_parse a"
    using uuid_str_inj uuid_parse_bound [of b] by (auto simp: identity_parse_def m split: option.splits)
  moreover have "identity_parse k = Inr k" using identity_parse_canonical [OF assms(1)] by simp
  ultimately show ?thesis using assms(2) m(2) by simp
qed

theorem job_identity_round_trip_witness:
  "identity_parse ''{00000000000000000000000000000001}'' = Inr ''00000000-0000-0000-0000-000000000001'' \<and>
   uuid_parse ''urn:uuid:00000000-0000-0000-0000-000000000001'' = uuid_parse ''{00000000000000000000000000000001}''"
proof -
  have a: "identity_parse ''{00000000000000000000000000000001}'' = Inr ''00000000-0000-0000-0000-000000000001''" by code_simp
  have b: "identity_parse ''urn:uuid:00000000-0000-0000-0000-000000000001'' = Inr ''00000000-0000-0000-0000-000000000001''" by code_simp
  have n: "(1::nat) < 2 ^ 128" by simp
  from job_identity_round_trip [OF a n] a b show ?thesis by blast
qed

end
