(* ===== verification/Provider_Properties.thy ===== *)
theory Provider_Properties imports
  Forecast_Api
  Dispatch_Properties
begin

text \<open>
  The properties of the forecast providers: the decoder of the hosted model, its client and cache,
  the provider that joins them, the mock provider, and the forecast routes on top of them.
\<close>

section \<open>A concrete archive\<close>

text \<open>One member, for lead time 6 and batch 0, whose array has one cell for each of the five variables.\<close>

definition ex_array :: nd_array where
  "ex_array = \<lparr>nd_shape = [1, 5, 1, 1], nd_dtype = ''float32'', nd_values = [Fin 280, Fin 280, Fin 280, Fin 280, Fin 280]\<rparr>"

definition ex_decoder :: decoder_lib where
  "ex_decoder =
     \<lparr>lib_open_tar = (\<lambda>b. Inr [\<lparr>tm_name = ''out/006_000.npy'', tm_isfile = True, tm_data = ReadBytes b\<rparr>]),
      lib_load_npy = (\<lambda>b. Inr ex_array), lib_mean = (\<lambda>a qs. NaN), lib_float_str = (\<lambda>x. []),
      lib_variable_order = REQUIRED_POINT_VARIABLES\<rparr>"

definition ex_member :: decoded_member where
  "ex_member = \<lparr>dm_filename = ''006_000.npy'', dm_lead_time_hours = 6, dm_batch_index = 0, dm_array = ex_array\<rparr>"

lemma ex_member_name: "base_name ''out/006_000.npy'' = ''006_000.npy''" "match_member_name ''006_000.npy'' = Some (6, 0)"
  by code_simp+

lemma ex_load: "load_tar_members ex_decoder b = Inr ([ex_member], [])"
  by (simp add: load_tar_members_def ex_decoder_def ex_member_name ex_member_def)

lemma ex_array_ok: "nd_ok ex_array" "array_usable 5 ex_array"
  by (simp_all add: ex_array_def nd_ok_def array_usable_def flt_finite_def)

lemma ex_decoder_ok: "decoder_lib_ok ex_decoder"
proof -
  have "is_double 280" using is_double_of_int [of 280] by simp
  then show ?thesis
    using ex_array_ok(1) by (auto simp: decoder_lib_ok_def ex_decoder_def) (auto simp: ex_array_def)
qed

lemma ex_select: "select_batch_members [ex_member] = [ex_member]"
  by (simp add: select_batch_members_def ex_member_def)

lemma ex_variables: "missing_variables (req_variables point_request) = []" "length (req_variables point_request) = 5"
  by (simp_all add: missing_variables_def point_request_def FOURCASTNET_POINT_VARIABLES_def REQUIRED_POINT_VARIABLES_def)


section \<open>The decoder\<close>

text \<open>C30. A forecast that the decoder returns is consistent: it is for the requested coordinate and
  time, its steps are the lead times of one batch of the archive, each once and in increasing order,
  step and window times are the generation time plus the lead, every field keeps the schema's bounds,
  and every number is finite, so a job can store it.\<close>

theorem decoded_forecast_consistent:
  assumes "build_summary_from_tar_bytes lib now content req la lo g = Inr s" and "decoder_lib_ok lib"
  shows "\<exists>ms ws. load_tar_members lib content = Inr (ms, ws) \<and>
    map lead_time_hours (timeline s) =
      sorted_list_of_set (dm_lead_time_hours ` {m \<in> set ms. dm_batch_index m = chosen_batch ms}) \<and>
    storable_summary s \<and> summary_latitude s = la \<and> summary_longitude s = lo \<and>
    generated_at s = (case g of None \<Rightarrow> now | Some t \<Rightarrow> t) \<and> timeline s \<noteq> [] \<and>
    (\<forall>t\<in>set (timeline s). valid_at t = generated_at s + lead_time_hours t * 3600 * 1000000) \<and>
    lead_hours (forecast_window_of s) = map lead_time_hours (timeline s) \<and>
    start_at (forecast_window_of s) = valid_at (hd (timeline s)) \<and>
    end_at (forecast_window_of s) = valid_at (last (timeline s))"
proof -
  obtain ms ws where l: "load_tar_members lib content = Inr (ms, ws)" "ms \<noteq> []"
    and leads: "map lead_time_hours (timeline s) = map dm_lead_time_hours (select_batch_members ms)"
    and rest: "storable_summary s" "summary_latitude s = la" "summary_longitude s = lo"
      "generated_at s = (case g of None \<Rightarrow> now | Some t \<Rightarrow> t)"
      "\<forall>t\<in>set (timeline s). valid_at t = generated_at s + lead_time_hours t * 3600 * 1000000"
      "lead_hours (forecast_window_of s) = map lead_time_hours (timeline s)"
      "start_at (forecast_window_of s) = valid_at (hd (timeline s))"
      "end_at (forecast_window_of s) = valid_at (last (timeline s))"
    by (rule build_summary_Inr [OF assms]) (rule that)
  have "timeline s \<noteq> []" using leads l(2) select_batch_members_nonempty [of ms] by auto
  then show ?thesis
    using l(1) rest leads [unfolded select_batch_members_leads] by (intro exI [of _ ms] exI [of _ ws]) simp
qed

lemma ex_forecast:
  "\<exists>s. build_summary_from_tar_bytes ex_decoder 63900000000000000 b point_request (Fin 37) (Fin 127) None = Inr s"
proof (rule build_summary_total [OF ex_load])
  show "\<forall>m\<in>set (select_batch_members [ex_member]). array_usable (length (req_variables point_request)) (dm_array m)"
    using ex_array_ok by (simp only: ex_select ex_variables) (simp add: ex_member_def)
qed (simp_all add: ex_decoder_ok ex_variables datetime_max_def)

theorem decoded_forecast_consistent_witness:
  "\<exists>s. build_summary_from_tar_bytes ex_decoder 63900000000000000 [] point_request (Fin 37) (Fin 127) None = Inr s \<and>
     map lead_time_hours (timeline s) = [6] \<and> storable_summary s"
proof -
  obtain s where s: "build_summary_from_tar_bytes ex_decoder 63900000000000000 [] point_request (Fin 37) (Fin 127) None = Inr s"
    using ex_forecast by blast
  have "{m \<in> set [ex_member]. dm_batch_index m = chosen_batch [ex_member]} = {ex_member}"
    by (auto simp: chosen_batch_def)
  with decoded_forecast_consistent [OF s ex_decoder_ok] s show ?thesis
    by (auto simp: ex_load) (auto simp: ex_member_def)
qed

text \<open>C31. Whatever the archive holds, a step that the decoder builds lies in the ranges its formulas
  promise: humidity between 15 and 98 percent, the rain proxy between 2 and 95 percent, confidence
  between 0 and 1, the valid time within the calendar.\<close>

theorem decoded_step_bounds:
  assumes "build_timeline_step lib vs la lo t n m = Inr s"
  shows "flt_between 15 (humidity_percent s) 98 \<and> flt_between 2 (precipitation_probability_percent s) 95 \<and>
    flt_between 0 (confidence s) 1 \<and> lead_time_hours s = dm_lead_time_hours m \<and>
    valid_at s = t + dm_lead_time_hours m * 3600 * 1000000 \<and> 0 \<le> valid_at s \<and> valid_at s \<le> datetime_max \<and>
    timeline_step_valid s"
proof -
  obtain u a b c d where s: "s = timeline_step_of lib (dm_lead_time_hours m) n u a b c d"
    and u: "plus_hours t (dm_lead_time_hours m) = Inr u" and valid: "timeline_step_valid s"
    using assms by (auto simp: build_timeline_step_def Let_def bindE_Inr split: if_splits)
  have "lead_time_hours s = dm_lead_time_hours m" "valid_at s = u"
    by (simp_all add: s timeline_step_of_def Let_def)
  moreover have "u = t + dm_lead_time_hours m * 3600 * 1000000 \<and> 0 \<le> u \<and> u \<le> datetime_max"
    using u by (auto simp: plus_hours_def Let_def split: if_splits)
  ultimately show ?thesis using valid unfolding s by (simp add: timeline_step_of_bounds)
qed

lemma ex_step: "\<exists>s. build_timeline_step ex_decoder FOURCASTNET_POINT_VARIABLES (Fin 37) (Fin 127) 63900000000000000 0 ex_member = Inr s"
proof (rule build_timeline_step_total [OF ex_decoder_ok])
  show "member_ok ex_decoder ex_member"
    by (simp add: member_ok_def ex_member_def ex_member_name) (simp add: ex_decoder_def)
  show "array_usable (length FOURCASTNET_POINT_VARIABLES) (dm_array ex_member)"
    using ex_array_ok(2) ex_variables(2) by (simp add: ex_member_def point_request_def)
  show "missing_variables FOURCASTNET_POINT_VARIABLES = []" using ex_variables(1) by (simp add: point_request_def)
qed (simp_all add: datetime_max_def)

theorem decoded_step_bounds_witness:
  "\<exists>s. build_timeline_step ex_decoder FOURCASTNET_POINT_VARIABLES (Fin 37) (Fin 127) 63900000000000000 0 ex_member = Inr s \<and>
     flt_between 15 (humidity_percent s) 98 \<and> valid_at s = 63900021600000000"
proof -
  obtain s where s: "build_timeline_step ex_decoder FOURCASTNET_POINT_VARIABLES (Fin 37) (Fin 127) 63900000000000000 0 ex_member = Inr s"
    using ex_step by blast
  from decoded_step_bounds [OF s] s show ?thesis by (simp add: ex_member_def)
qed

text \<open>C32. The decoder does not fail on an archive it can use: when the archive opens, holds at least
  one array, the arrays of the selected batch have the expected axes and finite values, and the
  request names the required variables, every coordinate on earth yields a forecast.\<close>

theorem decoder_succeeds:
  assumes "load_tar_members lib content = Inr (ms, ws)" and "ms \<noteq> []" and "decoder_lib_ok lib"
    and "\<forall>m\<in>set (select_batch_members ms). array_usable (length (req_variables req)) (dm_array m)"
    and "missing_variables (req_variables req) = []"
    and "- 90 \<le> la" and "la \<le> 90" and "- 180 \<le> lo" and "lo \<le> 180"
    and "0 \<le> now" and "now + 999 * 3600 * 1000000 \<le> datetime_max"
  shows "\<exists>s. build_summary_from_tar_bytes lib now content req (Fin la) (Fin lo) None = Inr s"
  by (rule build_summary_total [OF assms]) simp

theorem decoder_succeeds_witness:
  "\<exists>s. build_summary_from_tar_bytes ex_decoder 63900000000000000 [] point_request (Fin (- 90)) (Fin 180) None = Inr s"
proof (rule decoder_succeeds [OF ex_load])
  show "\<forall>m\<in>set (select_batch_members [ex_member]). array_usable (length (req_variables point_request)) (dm_array m)"
    using ex_array_ok by (simp only: ex_select ex_variables) (simp add: ex_member_def)
qed (simp_all add: ex_decoder_ok ex_variables datetime_max_def)


text \<open>An archive whose array has no ensemble member.\<close>

definition ex_empty_array :: nd_array where
  "ex_empty_array = \<lparr>nd_shape = [0, 5, 1, 1], nd_dtype = ''float32'', nd_values = []\<rparr>"

definition ex_hollow :: decoder_lib where
  "ex_hollow = ex_decoder\<lparr>lib_load_npy := (\<lambda>b. Inr ex_empty_array)\<rparr>"

lemma ex_hollow_load: "load_tar_members ex_hollow b = Inr ([ex_member\<lparr>dm_array := ex_empty_array\<rparr>], [])"
  by (simp add: load_tar_members_def ex_hollow_def ex_decoder_def ex_member_name ex_member_def)

lemma ex_hollow_select:
  "select_batch_members [ex_member\<lparr>dm_array := ex_empty_array\<rparr>] = [ex_member\<lparr>dm_array := ex_empty_array\<rparr>]"
  by (simp add: select_batch_members_def ex_member_def)

lemma ex_hollow_step:
  "build_timeline_step ex_hollow FOURCASTNET_POINT_VARIABLES (Fin 37) (Fin 127) t n (ex_member\<lparr>dm_array := ex_empty_array\<rparr>) =
     Inl ArrayIndexError"
proof -
  obtain i j where "grid_indices ex_empty_array (Fin 37) (Fin 127) = Inr (i, j)"
    using grid_indices_total [of 37 ex_empty_array 127] by (auto simp: ex_empty_array_def)
  then show ?thesis
    by (simp add: build_timeline_step_def sample_member_values_def ex_hollow_def ex_decoder_def
        REQUIRED_POINT_VARIABLES_def FOURCASTNET_POINT_VARIABLES_def)
      (simp add: ex_empty_array_def read_grid_value_def nd_get_def Let_def)
qed

lemma ex_hollow_raises:
  "build_summary_from_tar_bytes ex_hollow 0 [] point_request (Fin 37) (Fin 127) None = Inl ArrayIndexError"
proof -
  have "req_variables point_request = FOURCASTNET_POINT_VARIABLES" by (simp add: point_request_def)
  then show ?thesis
    using ex_variables(1)
    by (simp add: build_summary_from_tar_bytes_def ex_hollow_load ex_hollow_select ex_hollow_step Let_def)
qed


text \<open>C34. The cell that is sampled is the nearest one of the quarter-degree grid: for a coordinate on
  earth the row and column lie in the 721 by 1440 grid and the centre of the cell is within an eighth
  of a degree of the coordinate (up to the rounding of one float), with longitudes taken around the
  globe.\<close>

theorem sampled_cell_is_nearest:
  assumes "nd_shape a ! (length (nd_shape a) - 2) = 721" and "nd_shape a ! (length (nd_shape a) - 1) = 1440"
    and "is_double la" and "- 90 \<le> la" and "la \<le> 90" and "is_double lo" and "- 180 \<le> lo" and "lo \<le> 180"
  shows "\<exists>i j. grid_indices a (Fin la) (Fin lo) = Inr (i, j) \<and> i \<le> 720 \<and> j < 1440 \<and>
    \<bar>(90 - of_nat i / 4) - la\<bar> \<le> 1 / 8 + 2 powi (- 45) \<and>
    (\<exists>k\<in>{- 360, 0, 360}. \<bar>of_nat j / 4 + k - lo\<bar> \<le> 1 / 8 + 2 powi (- 45))"
  by (rule quarter_grid_nearest [OF assms]) blast

theorem sampled_cell_is_nearest_witness:
  "\<exists>i j. grid_indices \<lparr>nd_shape = [1, 5, 721, 1440], nd_dtype = [], nd_values = []\<rparr> (Fin (- 90)) (Fin (- 180)) = Inr (i, j) \<and>
     i \<le> 720 \<and> j < 1440"
proof -
  let ?a = "\<lparr>nd_shape = [1, 5, 721, 1440], nd_dtype = [], nd_values = []\<rparr>"
  have d: "is_double (- 90)" "is_double (- 180)" using is_double_of_int [of "- 90"] is_double_of_int [of "- 180"] by simp_all
  from sampled_cell_is_nearest [OF _ _ d(1) _ _ d(2), of ?a] show ?thesis by force
qed

text \<open>The loop that selects the members to decode, with its dict of leads, computes what one would
  write down: of the batch 0, or of the first member's batch when 0 is missing, the first member of
  every lead time, in the order of the lead times.\<close>

theorem select_batch_members_spec:
  "select_batch_members ms =
     map (\<lambda>k. the (List.find (\<lambda>m. dm_batch_index m = chosen_batch ms \<and> dm_lead_time_hours m = k) ms))
       (sorted_list_of_set (dm_lead_time_hours ` {m \<in> set ms. dm_batch_index m = chosen_batch ms}))"
  by (rule select_batch_members_eq)

section \<open>The client of the hosted model\<close>

definition ex_client :: nim_client where
  "ex_client =
     \<lparr>base_url = ''https://host/infer'', client_mode = Hosted, api_key = Some ''key'',
      status_url = ''https://host/status/'', max_poll_attempts = 2, poll_interval_seconds = Fin 1\<rparr>"

text \<open>C35. A hosted inference is bounded and keeps the key to itself: it sends at most two requests
  more than the configured number of polls and sleeps at most once a poll, whatever the server
  answers; every request that carries headers, the API key among them, goes to the configured
  inference URL or below the configured status URL and does not follow redirects; and without the
  hosted mode or without a key nothing is sent.\<close>

theorem hosted_inference_bounded:
  assumes "run_hosted_inference lib c transport req s = (r, s')"
  shows "\<exists>qs. sent s' = sent s @ qs \<and> length qs \<le> 2 + nat (max_poll_attempts c) \<and>
    sleeps s' \<le> sleeps s + nat (max_poll_attempts c) \<and>
    (\<forall>q\<in>set qs. hq_headers q \<noteq> [] \<longrightarrow> \<not> hq_follow_redirects q \<and>
       (hq_url q = base_url c \<or> (\<exists>rid. hq_url q = rstrip_slash (status_url c) @ ''/'' @ rid))) \<and>
    (client_mode c \<noteq> Hosted \<or> opt_or (api_key c) None = None \<longrightarrow> qs = [])"
proof -
  have none: "s' = s" if "client_mode c \<noteq> Hosted \<or> opt_or (api_key c) None = None"
    using assms that by (auto simp: run_hosted_inference_def split: if_splits)
  from run_hosted_inference_log [OF assms] show ?thesis
  proof
    assume "sent s' = sent s \<and> sleeps s' = sleeps s"
    then show ?thesis by (intro exI [of _ "[]"]) simp
  next
    assume "\<exists>key ps dl. api_key c = Some key \<and> sent s' = sent s @ post_request c key req # ps @ dl \<and>
       polls c (headers_of key req) ps \<and> download_log dl \<and>
       length ps \<le> nat (max_poll_attempts c) \<and> sleeps s' \<le> sleeps s + length ps"
    then obtain key ps dl where log: "sent s' = sent s @ post_request c key req # ps @ dl"
      "polls c (headers_of key req) ps" "download_log dl" "length ps \<le> nat (max_poll_attempts c)"
      "sleeps s' \<le> sleeps s + length ps" by blast
    have dl: "length dl \<le> 1" "\<forall>q\<in>set dl. hq_headers q = []"
      using log(3) by (auto simp: download_log_def get_request_def)
    have ps: "\<forall>q\<in>set ps. \<not> hq_follow_redirects q \<and> (\<exists>rid. hq_url q = rstrip_slash (status_url c) @ ''/'' @ rid)"
      using log(2) by (auto simp: polls_def status_request_def get_request_def)
    have "\<not> hq_follow_redirects (post_request c key req)" "hq_url (post_request c key req) = base_url c"
      by (simp_all add: post_request_def)
    moreover have "client_mode c = Hosted \<and> opt_or (api_key c) None \<noteq> None"
      using none log(1) by (metis append_self_conv list.distinct(1))
    ultimately show ?thesis using dl ps log
      by (intro exI [of _ "post_request c key req # ps @ dl"]) auto
  qed
qed

definition ex_nim_lib :: nim_lib where
  "ex_nim_lib = \<lparr>sha256_hex = (\<lambda>b. ''0a''), json_repr = (\<lambda>j. [])\<rparr>"

text \<open>A server that never has the result ready.\<close>

definition ex_pending :: "unit transport" where
  "ex_pending q n = (Inr \<lparr>hr_status = 202, hr_headers = [(''nvcf-reqid'', ''r'')], hr_content = [], hr_text = [], hr_json = None\<rparr>, n)"

theorem hosted_inference_bounded_witness:
  "length (sent (snd (run_hosted_inference ex_nim_lib ex_client ex_pending point_request \<lparr>net = (), sent = [], sleeps = 0\<rparr>))) \<le> 4"
proof -
  let ?run = "run_hosted_inference ex_nim_lib ex_client ex_pending point_request \<lparr>net = (), sent = [], sleeps = 0\<rparr>"
  obtain r s' where r: "?run = (r, s')" by fastforce
  have "length (sent s') \<le> 2 + nat (max_poll_attempts ex_client)"
    using hosted_inference_bounded [OF r] by auto
  then show ?thesis by (simp add: r) (simp add: ex_client_def)
qed

section \<open>The result cache and the provider\<close>

text \<open>A JSON codec that keeps the strings of an object: every character is marked, every text ended.\<close>

fun enc_text :: "string \<Rightarrow> string" where
  "enc_text [] = [CHR ''.'']"
| "enc_text (c # cs) = CHR ''+'' # c # enc_text cs"

fun dec_text :: "string \<Rightarrow> string \<times> string" where
  "dec_text (c # d # cs) =
     (if c = CHR ''+'' then (let (t, rest) = dec_text cs in (d # t, rest)) else ([], d # cs))"
| "dec_text cs = ([], [])"

lemma dec_enc_text [simp]: "dec_text (enc_text t @ rest) = (t, rest)"
  by (induction t) (cases rest; simp)+

lemma dec_text_shorter: "cs \<noteq> [] \<Longrightarrow> length (snd (dec_text cs)) < length cs"
  by (induction cs rule: dec_text.induct) (auto simp: Let_def split: prod.splits, fastforce)

fun enc_object :: "(string \<times> json) list \<Rightarrow> bytes" where
  "enc_object [] = []"
| "enc_object ((k, JString t) # d) = enc_text k @ enc_text t @ enc_object d"
| "enc_object (_ # d) = enc_object d"

fun dec_object :: "nat \<Rightarrow> bytes \<Rightarrow> (string \<times> json) list" where
  "dec_object (Suc n) (c # cs) =
     (let (k, rest) = dec_text (c # cs); (t, rest) = dec_text rest in (k, JString t) # dec_object n rest)"
| "dec_object _ _ = []"

definition string_entries :: "(string \<times> json) list \<Rightarrow> (string \<times> json) list" where
  "string_entries d = filter (\<lambda>(k, v). \<exists>t. v = JString t) d"

lemma enc_text_Cons: "\<exists>c cs. enc_text t @ rest = c # cs"
  by (cases t) auto

lemma dec_enc_object: "length (string_entries d) \<le> n \<Longrightarrow> dec_object n (enc_object d) = string_entries d"
proof (induction d arbitrary: n rule: enc_object.induct)
  case (2 k t d)
  then obtain m where n: "n = Suc m" "length (string_entries d) \<le> m" by (cases n) (auto simp: string_entries_def)
  obtain c cs where c: "enc_text k @ enc_text t @ enc_object d = c # cs" using enc_text_Cons by blast
  have k: "dec_text (c # cs) = (k, enc_text t @ enc_object d)" unfolding c [symmetric] by simp
  show ?case using 2(1) [OF n(2)] unfolding n(1) enc_object.simps c dec_object.simps k
    by (simp add: string_entries_def)
qed (simp_all add: string_entries_def)

lemma string_entries_lookup:
  "distinct (map fst d) \<Longrightarrow> map_of (string_entries d) k = Some (JString t) \<longleftrightarrow> map_of d k = Some (JString t)"
  by (induction d) (auto simp: string_entries_def dest!: map_of_SomeD intro: rev_image_eqI)

definition ex_artifact_lib :: artifact_lib where
  "ex_artifact_lib =
     \<lparr>sha256_hex = (\<lambda>b. ''0a''), json_repr = (\<lambda>j. []), json_dumps = enc_object,
      json_compact = (\<lambda>d. []), json_loads = (\<lambda>b. Some (JObject (dec_object (length b) b))), iso_format = (\<lambda>t. [])\<rparr>"

lemma length_string_entries: "length (string_entries d) \<le> length (enc_object d)"
proof (induction d rule: enc_object.induct)
  case (2 k t d)
  moreover have "1 \<le> length (enc_text k)" by (cases k) auto
  ultimately show ?case by (simp add: string_entries_def)
qed (simp_all add: string_entries_def)

lemma ex_artifact_lib_ok: "artifact_lib_ok ex_artifact_lib"
proof -
  have "safe_key ''0a''" by code_simp
  then show ?thesis
    by (simp add: artifact_lib_ok_def ex_artifact_lib_def dec_enc_object length_string_entries string_entries_lookup)
qed

text \<open>A server that answers at once with an archive.\<close>

definition ex_ready :: "unit transport" where
  "ex_ready q n =
     (Inr \<lparr>hr_status = 200, hr_headers = [(''content-type'', ''application/x-tar'')], hr_content = ''tar'', hr_text = [],
           hr_json = None\<rparr>, n)"

definition ex_fcn :: "unit fcn_provider" where
  "ex_fcn =
     \<lparr>fp_client = ex_client, fp_transport = ex_ready, fp_decoder = ex_decoder, fp_lib = ex_artifact_lib, fp_cached = True\<rparr>"

definition ex_state :: "unit provider_state" where
  "ex_state =
     \<lparr>net = (), sent = [], sleeps = 0, artifact_files = [], wall_clock = (\<lambda>i. 63900000000000000), clock_reads = 0\<rparr>"

text \<open>C36. A result that was stored is served from then on without the hosted model: the same request
  again returns the same bytes and content type under the same artifact id, marked as a hit from the
  cache, and neither sends a request nor changes anything.\<close>

theorem stored_result_is_reused:
  assumes "run_inference_with_cache f req s = (Inr result, s1)" and "res_cache_status result = CacheStored"
    and "artifact_lib_ok (fp_lib f)"
  shows "\<exists>hit. run_inference_with_cache f req s1 = (Inr hit, s1) \<and>
    res_raw_content hit = res_raw_content result \<and> res_content_type hit = res_content_type result \<and>
    res_cache_status hit = CacheHit \<and> res_response_source hit = SourceCache \<and>
    res_cached_artifact_id hit = res_cached_artifact_id result"
  by (rule stored_result_is_served [OF assms]) blast

lemma ex_stored:
  "\<exists>result s1. run_inference_with_cache ex_fcn point_request ex_state = (Inr result, s1) \<and>
     res_cache_status result = CacheStored \<and> res_raw_content result = Some ''tar''"
proof -
  have "(case run_inference_with_cache ex_fcn point_request ex_state of
      (Inr result, s1) \<Rightarrow> res_cache_status result = CacheStored \<and> res_raw_content result = Some ''tar'' | _ \<Rightarrow> False)"
    by code_simp
  then show ?thesis by (auto split: prod.splits sum.splits)
qed

theorem stored_result_is_reused_witness:
  "\<exists>result s1 hit. run_inference_with_cache ex_fcn point_request ex_state = (Inr result, s1) \<and>
     run_inference_with_cache ex_fcn point_request s1 = (Inr hit, s1) \<and> res_raw_content hit = Some ''tar''"
proof -
  obtain result s1 where r: "run_inference_with_cache ex_fcn point_request ex_state = (Inr result, s1)"
    "res_cache_status result = CacheStored" "res_raw_content result = Some ''tar''" using ex_stored by blast
  have "artifact_lib_ok (fp_lib ex_fcn)" using ex_artifact_lib_ok by (simp add: ex_fcn_def)
  from stored_result_is_reused [OF r(1,2) this] r show ?thesis by metis
qed

text \<open>Nothing corrupted is served: what the artifact store loads is the content of the key's file
  only if its digest is the one the metadata file recorded, the record it returns tells the digest and
  length of just these bytes, and only keys that stay inside the root are looked up.\<close>

theorem loaded_artifact_is_intact:
  assumes "artifact_load lib key s = (Inr (Some (content, r)), s')"
  shows "s' = s \<and> safe_key key \<and> map_of (artifact_files s) (key @ ''.tar'') = Some content \<and>
    ar_key r = key \<and> ar_sha256 r = sha256_hex lib content \<and> ar_byte_length r = int (length content) \<and>
    (\<exists>text metadata. map_of (artifact_files s) (key @ ''.json'') = Some text \<and>
       json_loads lib text = Some (JObject metadata) \<and>
       map_of metadata ''sha256'' = Some (JString (sha256_hex lib content)))"
  using artifact_load_digest [OF assms] by simp

definition ex_files :: "unit provider_state" where
  "ex_files = ex_state\<lparr>artifact_files :=
     [(''k.tar'', ''tar''), (''k.json'', enc_object [(''sha256'', JString ''0a'')])]\<rparr>"

theorem loaded_artifact_is_intact_witness:
  "\<exists>r. artifact_load ex_artifact_lib ''k'' ex_files = (Inr (Some (''tar'', r)), ex_files) \<and>
     ar_sha256 r = ''0a'' \<and> ar_byte_length r = 3"
proof -
  have "(case artifact_load ex_artifact_lib ''k'' ex_files of (Inr (Some (b, r)), s) \<Rightarrow> b = ''tar'' | _ \<Rightarrow> False)"
    by code_simp
  then obtain r s' where r: "artifact_load ex_artifact_lib ''k'' ex_files = (Inr (Some (''tar'', r)), s')"
    by (auto split: prod.splits sum.splits option.splits)
  from loaded_artifact_is_intact [OF r] r show ?thesis by (simp add: ex_artifact_lib_def)
qed

text \<open>C37. A job that is run with the hosted model ends, whatever the service, the network, the cache
  and the archive do: every exception inside the provider becomes a result the job store can record,
  so the job succeeds with the forecast or fails with the message, and no other job is touched.\<close>

theorem hosted_job_ends:
  assumes "job_store st ok amap" and "ok (stored w)" and "amap (stored w) k = Some j"
    and "status j = Queued" and "decoder_lib_ok (fp_decoder f)"
  shows "\<exists>w' j'. run_execute st (fcn_as_provider (f, ps)) k w = (Inr (), w') \<and> ok (stored w') \<and>
    amap (stored w') = (amap (stored w))(k \<mapsto> j') \<and> is_terminal_job_status (status j') \<and>
    ended_with j (get_provider_result (fcn_as_provider (f, ps)) j) j'"
proof -
  have "fcn_usable (f, ps)" using assms(5) by (simp add: fcn_usable_def)
  from fourcastnet.job_ends [OF assms(1-4) this] obtain w' j' where run:
    "run_execute st (fcn_as_provider (f, ps)) k w = (Inr (), w')" "ok (stored w')"
    "amap (stored w') = (amap (stored w))(k \<mapsto> j')" "ended_with j (get_provider_result (fcn_as_provider (f, ps)) j) j'"
    by blast
  then have "is_terminal_job_status (status j')"
    by (auto simp: ended_with_def is_terminal_job_status_def TERMINAL_JOB_STATUSES_def split: sum.splits)
  with run show ?thesis by blast
qed

theorem hosted_job_ends_witness:
  "\<exists>w' j'. run_execute memory_ops (fcn_as_provider (ex_fcn, ex_state)) ex_id (ex_world (ex_memory ex_queued)) = (Inr (), w') \<and>
     mem_map (stored w') ex_id = Some j' \<and> is_terminal_job_status (status j')"
proof -
  let ?w = "ex_world (ex_memory ex_queued)"
  have w: "mem_ok (stored ?w)" "mem_map (stored ?w) ex_id = Some ex_queued"
    using ex_memory_ok ex_queued_facts by (simp_all add: ex_memory_map)
  have d: "decoder_lib_ok (fp_decoder ex_fcn)" using ex_decoder_ok by (simp add: ex_fcn_def)
  from hosted_job_ends [OF mem.job_store_axioms w ex_queued_facts(4) d, of ex_state] show ?thesis by force
qed

section \<open>The forecast route\<close>



end
