(* ===== verification/Structured_Log.thy ===== *)
theory Structured_Log imports
  Job_Api
  Http_Security
begin

text \<open>
  \<open>observability/structured_logging.py\<close> and \<open>observability/request_context.py\<close>: the log lines of the
  program and the context variable with the id of the current request. A line is one JSON object, as
  \<open>json.dumps\<close> writes a dict of text, integers, floats and \<open>None\<close> compactly, with sorted keys and
  escaped to ASCII; \<open>flt_str\<close> is the text of a float. \<open>read_line\<close> is a reader of such lines, and what
  is written is read back.
\<close>

section \<open>JSON text\<close>

datatype log_value = LogStr string | LogInt int | LogFloat pyfloat | LogNone

definition escape_char :: "char \<Rightarrow> string" where
  "escape_char c =
     (if c = CHR 0x22 then [CHR 0x5C, CHR 0x22]
      else if c = CHR 0x5C then [CHR 0x5C, CHR 0x5C]
      else if c = CHR 0x0A then [CHR 0x5C, CHR ''n'']
      else if c = CHR 0x0D then [CHR 0x5C, CHR ''r'']
      else if c = CHR 0x09 then [CHR 0x5C, CHR ''t'']
      else if c = CHR 0x0C then [CHR 0x5C, CHR ''f'']
      else if c = CHR 0x08 then [CHR 0x5C, CHR ''b'']
      else if 32 \<le> (of_char c :: nat) \<and> (of_char c :: nat) \<le> 126 then [c]
      else [CHR 0x5C, CHR ''u'', CHR ''0'', CHR ''0'', hex_char (of_char c div 16), hex_char (of_char c mod 16)])"

definition json_string :: "string \<Rightarrow> string" where
  "json_string s = CHR 0x22 # concat (map escape_char s) @ [CHR 0x22]"

fun json_value :: "(pyfloat \<Rightarrow> string) \<Rightarrow> log_value \<Rightarrow> string" where
  "json_value flt_str (LogStr s) = json_string s"
| "json_value flt_str (LogInt i) = int_str i"
| "json_value flt_str (LogFloat x) = flt_str x"
| "json_value flt_str LogNone = ''null''"

definition json_field :: "(pyfloat \<Rightarrow> string) \<Rightarrow> string \<times> log_value \<Rightarrow> string" where
  "json_field flt_str kv = json_string (fst kv) @ CHR '':'' # json_value flt_str (snd kv)"

definition json_line :: "(pyfloat \<Rightarrow> string) \<Rightarrow> (string \<times> log_value) list \<Rightarrow> string" where
  "json_line flt_str d = CHR 0x7B # comma_join (map (json_field flt_str) (sort_key fst d)) @ [CHR 0x7D]"

section \<open>Logging\<close>

text \<open>The context variable of the request being served, and what the logger was given so far.\<close>

record log_state =
  request_var :: "string option"
  log_lines :: "string list"

definition get_request_id :: "('z) log_state_scheme \<Rightarrow> string option" where
  "get_request_id s = request_var s"

text \<open>The token that \<open>set_request_id\<close> returns holds the value before.\<close>

definition set_request_id :: "string \<Rightarrow> ('z) log_state_scheme \<Rightarrow> string option \<times> ('z) log_state_scheme" where
  "set_request_id request_id s = (request_var s, s\<lparr>request_var := Some request_id\<rparr>)"

definition reset_request_id :: "string option \<Rightarrow> ('z) log_state_scheme \<Rightarrow> ('z) log_state_scheme" where
  "reset_request_id token s = s\<lparr>request_var := token\<rparr>"

definition log_payload :: "string \<Rightarrow> (string \<times> log_value) list \<Rightarrow> string option \<Rightarrow> (string \<times> log_value) list" where
  "log_payload event kvs request_id =
     (let payload = (''event'', LogStr event) # kvs in
      case request_id of
        None \<Rightarrow> payload
      | Some i \<Rightarrow> if ''request_id'' \<notin> fst ` set payload then payload @ [(''request_id'', LogStr i)] else payload)"

definition log_event :: "(pyfloat \<Rightarrow> string) \<Rightarrow> string \<Rightarrow> (string \<times> log_value) list \<Rightarrow>
    ('z) log_state_scheme \<Rightarrow> ('z) log_state_scheme" where
  "log_event flt_str event kvs s =
     s\<lparr>log_lines := log_lines s @ [json_line flt_str (log_payload event kvs (get_request_id s))]\<rparr>"

text \<open>\<open>RequestCorrelationMiddleware.dispatch\<close> around whatever the request runs; \<open>Inl\<close> is an exception.\<close>

definition with_request_id :: "string option \<Rightarrow> string \<Rightarrow> (('z) log_state_scheme, 'e, 'a) handler \<Rightarrow>
    (('z) log_state_scheme, 'e, 'a) handler" where
  "with_request_id value fresh call_next s =
     (let (token, s1) = set_request_id (coerce_request_id value fresh) s;
          (r, s2) = call_next s1
      in (r, reset_request_id token s2))"

section \<open>The events of the job API and of the runs\<close>

definition log_opt :: "string option \<Rightarrow> log_value" where
  "log_opt v = (case v of None \<Rightarrow> LogNone | Some s \<Rightarrow> LogStr s)"

definition diagnostic_field :: "(job_diagnostics \<Rightarrow> string option) \<Rightarrow> forecast_job \<Rightarrow> log_value" where
  "diagnostic_field f j = log_opt (Option.bind (diagnostics j) f)"

type_synonym log_record = "string \<times> (string \<times> log_value) list"

definition accepted_event :: "forecast_job \<Rightarrow> log_record" where
  "accepted_event j =
     (''forecast_job.accepted'',
      [(''job_id'', LogStr (job_id j)), (''status'', LogStr (status_str (status j))),
       (''latitude'', LogFloat (latitude j)), (''longitude'', LogFloat (longitude j)),
       (''attempt'', LogInt (attempt j))])"

definition cancelled_event :: "forecast_job \<Rightarrow> log_record" where
  "cancelled_event j =
     (''forecast_job.cancelled'',
      [(''job_id'', LogStr (job_id j)), (''status'', LogStr (status_str (status j))),
       (''provider'', diagnostic_field diag_provider j)])"

definition retry_accepted_event :: "forecast_job \<Rightarrow> log_record" where
  "retry_accepted_event j =
     (''forecast_job.retry_accepted'',
      [(''job_id'', LogStr (job_id j)), (''parent_job_id'', log_opt (parent_job_id j)),
       (''status'', LogStr (status_str (status j))), (''attempt'', LogInt (attempt j))])"

definition started_event :: "string \<Rightarrow> forecast_job \<Rightarrow> log_record" where
  "started_event jid j =
     (''forecast_job.started'',
      [(''job_id'', LogStr jid), (''status'', LogStr ''running''),
       (''latitude'', LogFloat (latitude j)), (''longitude'', LogFloat (longitude j)),
       (''attempt'', LogInt (attempt j))])"

definition succeeded_event :: "string \<Rightarrow> forecast_job \<Rightarrow> log_record" where
  "succeeded_event jid updated =
     (''forecast_job.succeeded'',
      [(''job_id'', LogStr jid), (''status'', LogStr (status_str (status updated))),
       (''provider'', diagnostic_field diag_provider updated),
       (''response_source'', diagnostic_field diag_response_source updated),
       (''cache_status'', diagnostic_field diag_cache_status updated),
       (''nvcf_request_id'', diagnostic_field diag_nvcf_request_id updated)])"

definition failed_event :: "string \<Rightarrow> forecast_job \<Rightarrow> string \<Rightarrow> log_record" where
  "failed_event jid updated diagnostic_message =
     (''forecast_job.failed'',
      [(''job_id'', LogStr jid), (''status'', LogStr (status_str (status updated))),
       (''provider'', diagnostic_field diag_provider updated),
       (''response_source'', diagnostic_field diag_response_source updated),
       (''cache_status'', diagnostic_field diag_cache_status updated),
       (''nvcf_request_id'', diagnostic_field diag_nvcf_request_id updated),
       (''message'', LogStr diagnostic_message)])"

text \<open>A keyword argument \<open>event\<close> would clash with the parameter of that name, and one called
  \<open>request_id\<close> would hide the id of the request; no event has either, and their names are distinct.\<close>

lemma event_names:
  assumes "e \<in> {accepted_event j, cancelled_event j, retry_accepted_event j, started_event jid j,
      succeeded_event jid j, failed_event jid j m}"
  shows "distinct (map fst (snd e))" and "''event'' \<notin> fst ` set (snd e)" and "''request_id'' \<notin> fst ` set (snd e)"
  using assms
  by (auto simp: accepted_event_def cancelled_event_def retry_accepted_event_def started_event_def
      succeeded_event_def failed_event_def)

section \<open>A reader\<close>

definition unescape_char :: "char \<Rightarrow> char" where
  "unescape_char e =
     (if e = CHR ''n'' then CHR 0x0A else if e = CHR ''r'' then CHR 0x0D else if e = CHR ''t'' then CHR 0x09
      else if e = CHR ''f'' then CHR 0x0C else if e = CHR ''b'' then CHR 0x08 else e)"

text \<open>From behind the opening quote up to the closing one, and the rest.\<close>

fun read_string :: "string \<Rightarrow> (string \<times> string) option" and
    read_escape :: "string \<Rightarrow> (string \<times> string) option" where
  "read_string [] = None"
| "read_string (c # s) =
     (if c = CHR 0x22 then Some ([], s)
      else if c = CHR 0x5C then read_escape s
      else map_option (apfst (Cons c)) (read_string s))"
| "read_escape [] = None"
| "read_escape (e # s) =
     (if e = CHR ''u''
      then (case s of
              _ # _ # h # l # t \<Rightarrow>
                (case (hex_value h, hex_value l) of
                   (Some a, Some b) \<Rightarrow> map_option (apfst (Cons (char_of (16 * a + b)))) (read_string t)
                 | _ \<Rightarrow> None)
            | _ \<Rightarrow> None)
      else map_option (apfst (Cons (unescape_char e))) (read_string s))"

text \<open>A value is text, \<open>Inl\<close>, or a token such as a number, \<open>Inr\<close>.\<close>

definition in_token :: "char \<Rightarrow> bool" where
  "in_token c \<longleftrightarrow> c \<notin> {CHR 0x22, CHR '','', CHR 0x7D} \<and> 32 \<le> (of_char c :: nat) \<and> (of_char c :: nat) \<le> 126"

definition read_value :: "string \<Rightarrow> ((string + string) \<times> string) option" where
  "read_value s =
     (case s of
        [] \<Rightarrow> None
      | c # t \<Rightarrow>
          if c = CHR 0x22 then map_option (apfst Inl) (read_string t)
          else Some (Inr (takeWhile in_token s), dropWhile in_token s))"

fun read_fields :: "nat \<Rightarrow> string \<Rightarrow> (string \<times> (string + string)) list option" where
  "read_fields (Suc n) (q # s) =
     (if q \<noteq> CHR 0x22 then None else
      (case read_string s of
         Some (k, d # r) \<Rightarrow>
           if d \<noteq> CHR '':'' then None else
           (case read_value r of
              Some (v, e # r') \<Rightarrow>
                if e = CHR 0x7D then (if r' = [] then Some [(k, v)] else None)
                else if e = CHR '','' then map_option (Cons (k, v)) (read_fields n r')
                else None
            | _ \<Rightarrow> None)
       | _ \<Rightarrow> None))"
| "read_fields _ _ = None"

definition read_line :: "string \<Rightarrow> (string \<times> (string + string)) list option" where
  "read_line line = (case line of [] \<Rightarrow> None | c # s \<Rightarrow> if c = CHR 0x7B then read_fields (length s) s else None)"

section \<open>What is written is read back\<close>

definition printable :: "char \<Rightarrow> bool" where
  "printable c \<longleftrightarrow> 32 \<le> (of_char c :: nat) \<and> (of_char c :: nat) \<le> 126"

text \<open>What the text of a number is: a non-empty token.\<close>

definition json_token :: "string \<Rightarrow> bool" where
  "json_token s \<longleftrightarrow> s \<noteq> [] \<and> list_all in_token s"

lemma hex_chars_printable: "list_all (\<lambda>d. printable (hex_char d)) [0..<16]"
  by code_simp

lemma hex_char_printable: "d < 16 \<Longrightarrow> printable (hex_char d)"
  using hex_chars_printable by (simp add: list_all_iff)

text \<open>A character is written as itself, as a short escape, or with its code.\<close>

lemma escape_char_cases:
  obtains (plain) "escape_char c = [c]" and "c \<noteq> CHR 0x22" and "c \<noteq> CHR 0x5C" and "printable c"
  | (short) e where "escape_char c = [CHR 0x5C, e]" and "unescape_char e = c" and "e \<noteq> CHR ''u''" and "printable e"
  | (code) "escape_char c = [CHR 0x5C, CHR ''u'', CHR ''0'', CHR ''0'', hex_char (of_char c div 16), hex_char (of_char c mod 16)]"
proof -
  consider "c \<in> {CHR 0x22, CHR 0x5C, CHR 0x0A, CHR 0x0D, CHR 0x09, CHR 0x0C, CHR 0x08}"
    | "c \<notin> {CHR 0x22, CHR 0x5C, CHR 0x0A, CHR 0x0D, CHR 0x09, CHR 0x0C, CHR 0x08}" by blast
  then show thesis
  proof cases
    case 1
    then have "\<exists>e. escape_char c = [CHR 0x5C, e] \<and> unescape_char e = c \<and> e \<noteq> CHR ''u'' \<and> printable e"
      by (elim insertE emptyE) (simp_all add: escape_char_def unescape_char_def printable_def)
    with short show thesis by blast
  next
    case 2
    then have "escape_char c = (if 32 \<le> (of_char c :: nat) \<and> (of_char c :: nat) \<le> 126 then [c]
        else [CHR 0x5C, CHR ''u'', CHR ''0'', CHR ''0'', hex_char (of_char c div 16), hex_char (of_char c mod 16)])"
      by (simp only: escape_char_def insert_iff de_Morgan_disj if_False simp_thms)
    with 2 plain code show thesis by (cases "32 \<le> (of_char c :: nat) \<and> (of_char c :: nat) \<le> 126") (auto simp: printable_def)
  qed
qed

lemma escape_char_printable: "list_all printable (escape_char c)"
proof -
  have "printable (CHR 0x5C)" "printable (CHR ''u'')" "printable (CHR ''0'')" by (simp_all add: printable_def)
  moreover have "(of_char c :: nat) div 16 < 16" by (simp add: less_mult_imp_div_less)
  ultimately show ?thesis by (cases rule: escape_char_cases [of c]) (simp_all add: hex_char_printable)
qed

lemma read_escaped: "read_string (escape_char c @ s) = map_option (apfst (Cons c)) (read_string s)"
proof (cases rule: escape_char_cases [of c])
  case code
  have "hex_value (hex_char ((of_char c :: nat) div 16)) = Some (of_char c div 16)"
    "hex_value (hex_char ((of_char c :: nat) mod 16)) = Some (of_char c mod 16)"
    by (simp_all add: hex_value_char less_mult_imp_div_less)
  with code show ?thesis by simp
qed simp_all

lemma read_json_string: "read_string (concat (map escape_char s) @ CHR 0x22 # t) = Some (s, t)"
  by (induction s) (simp_all add: read_escaped)

lemma json_string_printable: "list_all printable (json_string s)"
proof -
  have "list_all printable (concat (map escape_char s))"
    using escape_char_printable by (auto simp: list_all_iff)
  then show ?thesis by (simp add: json_string_def printable_def)
qed

lemma in_token_printable: "in_token c \<Longrightarrow> printable c"
  by (simp add: in_token_def printable_def)

lemma json_token_nat_str: "json_token (nat_str n)"
proof (induction n rule: nat_str.induct)
  case (1 n)
  have digit: "in_token (char_of (48 + d))" if "d < (10 :: nat)" for d
  proof -
    have "list_all (\<lambda>d. in_token (char_of (48 + d :: nat))) [0..<10]" by code_simp
    with that show ?thesis by (simp add: list_all_iff)
  qed
  then show ?case
    using 1 by (cases "n < 10") (simp_all add: nat_str.simps [of n] json_token_def)
qed

lemma json_token_int_str: "json_token (int_str i)"
  using json_token_nat_str by (auto simp: int_str_def json_token_def in_token_def)

text \<open>What a reader makes of a value.\<close>

fun shown :: "(pyfloat \<Rightarrow> string) \<Rightarrow> log_value \<Rightarrow> string + string" where
  "shown flt_str (LogStr s) = Inl s"
| "shown flt_str (LogInt i) = Inr (int_str i)"
| "shown flt_str (LogFloat x) = Inr (flt_str x)"
| "shown flt_str LogNone = Inr ''null''"

lemma token_value:
  assumes "json_token s" and "e \<in> {CHR '','', CHR 0x7D}"
  shows "read_value (s @ e # t) = Some (Inr s, e # t)"
proof -
  obtain c r where s: "s = c # r" "in_token c" using assms(1) by (cases s) (auto simp: json_token_def)
  have "\<not> in_token e" using assms(2) by (auto simp: in_token_def)
  moreover have "\<forall>x\<in>set s. in_token x" using assms(1) by (simp add: json_token_def list_all_iff)
  ultimately have "takeWhile in_token (s @ e # t) = s" "dropWhile in_token (s @ e # t) = e # t"
    by (simp_all add: takeWhile_append2 dropWhile_append2)
  moreover have "c \<noteq> CHR 0x22" using s(2) by (auto simp: in_token_def)
  ultimately show ?thesis using s(1) by (simp add: read_value_def)
qed

lemma null_token: "json_token ''null''"
  by code_simp

lemma read_json_value:
  assumes "\<And>x. json_token (flt_str x)" and "e \<in> {CHR '','', CHR 0x7D}"
  shows "read_value (json_value flt_str v @ e # t) = Some (shown flt_str v, e # t)"
proof (cases v)
  case (LogStr s)
  then show ?thesis by (simp add: read_value_def json_string_def read_json_string)
next
  case LogNone
  then show ?thesis using token_value [OF null_token assms(2)] by simp
qed (simp_all add: token_value [OF _ assms(2)] json_token_int_str assms(1))

lemma json_value_printable:
  assumes "\<And>x. json_token (flt_str x)"
  shows "list_all printable (json_value flt_str v)"
  using assms null_token json_token_int_str json_string_printable
  by (cases v) (auto simp: json_token_def list_all_iff in_token_printable)

lemma read_json_fields:
  assumes "\<And>x. json_token (flt_str x)" and "d \<noteq> []" and "length d \<le> n"
  shows "read_fields n (comma_join (map (json_field flt_str) d) @ [CHR 0x7D]) = Some (map (apsnd (shown flt_str)) d)"
  using assms(2,3)
proof (induction d arbitrary: n)
  case (Cons kv d)
  obtain k v where kv: "kv = (k, v)" by (cases kv)
  obtain m where n: "n = Suc m" using Cons.prems(2) by (cases n) auto
  note read = read_json_string read_json_value [OF assms(1)]
  show ?case
  proof (cases d)
    case Nil
    then show ?thesis by (simp add: kv n json_field_def json_string_def read)
  next
    case (Cons kv' d')
    have "length d \<le> m" using Cons.prems(2) n by simp
    with Cons.IH [of m] Cons show ?thesis by (simp add: kv n json_field_def json_string_def read)
  qed
qed simp

lemma comma_join_length: "(\<And>x. x \<in> set xs \<Longrightarrow> x \<noteq> []) \<Longrightarrow> length xs \<le> length (comma_join xs)"
proof (induction xs rule: comma_join.induct)
  case (2 x)
  then show ?case by (cases x) auto
next
  case (3 x y xs)
  then show ?case by (auto simp: Suc_le_eq)
qed simp

lemma comma_join_printable: "list_all (list_all printable) xs \<Longrightarrow> list_all printable (comma_join xs)"
  by (induction xs rule: comma_join.induct) (auto simp: printable_def)

lemma json_line_printable:
  assumes "\<And>x. json_token (flt_str x)"
  shows "list_all printable (json_line flt_str d)"
proof -
  have "list_all (list_all printable) (map (json_field flt_str) (sort_key fst d))"
    using json_string_printable json_value_printable [OF assms]
    by (auto simp: list_all_iff json_field_def) (simp add: printable_def)
  then show ?thesis by (simp add: json_line_def comma_join_printable) (simp add: printable_def)
qed

lemma read_json_line:
  assumes "\<And>x. json_token (flt_str x)" and "d \<noteq> []"
  shows "read_line (json_line flt_str d) = Some (map (apsnd (shown flt_str)) (sort_key fst d))"
proof -
  let ?d = "sort_key fst d"
  have "?d \<noteq> []" using assms(2) by (metis length_0_conv length_sort)
  moreover have "length ?d \<le> length (comma_join (map (json_field flt_str) ?d))"
    using comma_join_length [of "map (json_field flt_str) ?d"] by (auto simp: json_field_def json_string_def)
  ultimately show ?thesis
    using read_json_fields [of flt_str ?d, OF assms(1)] by (simp add: read_line_def json_line_def)
qed

section \<open>The id of the request\<close>

text \<open>Whatever the request does, the context variable has its old value afterwards; and every line
  that the request adds while it leaves the variable alone carries the id, unless the event has a field
  \<open>request_id\<close> of its own.\<close>

lemma with_request_id_restores: "request_var (snd (with_request_id v fresh h s)) = request_var s"
  by (simp add: with_request_id_def set_request_id_def reset_request_id_def split: prod.split)

lemma payload_request_id:
  "''request_id'' \<notin> fst ` set kvs \<Longrightarrow> (''request_id'', LogStr i) \<in> set (log_payload ev kvs (Some i))"
  by (simp add: log_payload_def Let_def)

lemma log_payload_nonempty: "log_payload ev kvs r \<noteq> []"
  by (simp add: log_payload_def Let_def split: option.split)

end
