(* ===== verification/Api_Routes.thy ===== *)
theory Api_Routes imports
  Forecast_Api
begin

text \<open>
  The routes of the application: the tables that the routers of \<open>api/http\<close> declare, the order in which
  \<open>bootstrap/app_factory.py\<close> includes them, and the matching of a request against them. Matching is
  the framework's: a template is compared with the path segment by segment, a segment in braces
  stands for any segment that is not empty, and the first route of the method wins.

  The router and the middlewares are taken to see the same path. The lemmas show that the table is
  unambiguous, which routes are open to a client without a key, and which ones the default settings
  limit.
\<close>

section \<open>The tables\<close>

record api_route =
  rt_method :: string
  rt_path :: string

definition router :: "string \<Rightarrow> (string \<times> string) list \<Rightarrow> api_route list" where
  "router prefix rs = map (\<lambda>(m, p). \<lparr>rt_method = m, rt_path = prefix @ p\<rparr>) rs"

definition health_routes :: "api_route list" where
  "health_routes = router [] [(''GET'', ''/''), (''GET'', ''/health'')]"

definition metrics_routes :: "api_route list" where
  "metrics_routes = router [] [(''GET'', ''/metrics'')]"

definition provider_status_routes :: "api_route list" where
  "provider_status_routes = router ''/api/v1/forecast'' [(''GET'', ''/provider/status'')]"

definition forecast_query_routes :: "api_route list" where
  "forecast_query_routes = router ''/api/v1/forecast''
     [(''GET'', ''/point''), (''GET'', ''/sample''), (''POST'', ''/fourcastnet/hosted/infer'')]"

definition forecast_job_routes :: "api_route list" where
  "forecast_job_routes = router ''/api/v1/forecast/jobs''
     [(''POST'', []), (''GET'', []), (''POST'', ''/cleanup''), (''GET'', ''/{job_id}''),
      (''GET'', ''/{job_id}/poll''), (''POST'', ''/{job_id}/cancel''), (''POST'', ''/{job_id}/retry'')]"

definition app_routes :: "api_route list" where
  "app_routes = health_routes @ metrics_routes @ provider_status_routes @ forecast_query_routes @ forecast_job_routes"

section \<open>Matching\<close>

fun split_slash :: "string \<Rightarrow> string list" where
  "split_slash [] = [[]]"
| "split_slash (c # s) =
     (if c = CHR ''/'' then [] # split_slash s
      else case split_slash s of [] \<Rightarrow> [[c]] | w # ws \<Rightarrow> (c # w) # ws)"

definition is_param :: "string \<Rightarrow> bool" where
  "is_param seg = (take 1 seg = ''{'')"

definition segment_match :: "string \<Rightarrow> string \<Rightarrow> bool" where
  "segment_match t s = (if is_param t then s \<noteq> [] else t = s)"

definition path_match :: "string \<Rightarrow> string \<Rightarrow> bool" where
  "path_match t p = list_all2 segment_match (split_slash t) (split_slash p)"

definition route_matches :: "string \<Rightarrow> string \<Rightarrow> api_route \<Rightarrow> bool" where
  "route_matches m p r = (rt_method r = m \<and> path_match (rt_path r) p)"

definition find_route :: "api_route list \<Rightarrow> string \<Rightarrow> string \<Rightarrow> api_route option" where
  "find_route rs m p = find (route_matches m p) rs"

section \<open>Settings\<close>

text \<open>The access settings of a process without an environment.\<close>

definition default_security :: security_settings where
  "default_security =
     \<lparr>set_api_key_required = False, set_api_key = None, set_api_keys = None,
      set_rate_limit_enabled = False, set_rate_limit_capacity = 60, set_rate_limit_window_seconds = 60,
      set_rate_limit_routes =
        ''GET /api/v1/forecast/point,'' @ ''GET /api/v1/forecast/sample,'' @
        ''POST /api/v1/forecast/jobs,'' @ ''POST /api/v1/forecast/fourcastnet/hosted/infer''\<rparr>"

definition security_settings_valid :: "security_settings \<Rightarrow> bool" where
  "security_settings_valid st = (1 \<le> set_rate_limit_capacity st \<and> 1 \<le> set_rate_limit_window_seconds st)"

text \<open>By default nothing is refused.\<close>

lemma default_security_open:
  "security_settings_valid default_security"
  "access_dispatch digest default_security now rq ws = (PassOn, ws)"
  by (simp_all add: security_settings_valid_def default_security_def access_dispatch_def Let_def)

definition information_paths :: "string set" where
  "information_paths = {''/'', ''/health'', ''/metrics''}"

section \<open>Lemmas on paths\<close>

fun join_slash :: "string list \<Rightarrow> string" where
  "join_slash [] = []"
| "join_slash [x] = x"
| "join_slash (x # y # xs) = x @ CHR ''/'' # join_slash (y # xs)"

lemma split_slash_nonempty [simp]: "split_slash s \<noteq> []"
  by (induction s) (auto split: list.split)

lemma join_split_slash: "join_slash (split_slash s) = s"
proof (induction s)
  case (Cons c s)
  obtain w ws where "split_slash s = w # ws" by (cases "split_slash s") auto
  with Cons show ?case by (cases ws) auto
qed simp

lemma split_slash_inject: "split_slash s = split_slash t \<longleftrightarrow> s = t"
  by (metis join_split_slash)

text \<open>A template without parameters matches itself only.\<close>

lemma path_match_plain:
  assumes "list_all (\<lambda>t. \<not> is_param t) (split_slash t)"
  shows "path_match t p \<longleftrightarrow> p = t"
proof -
  have "list_all2 segment_match ts ss \<longleftrightarrow> ss = ts" if "list_all (\<lambda>t. \<not> is_param t) ts" for ts ss
    using that by (induction ts arbitrary: ss) (auto simp: segment_match_def list_all2_Cons1)
  with assms show ?thesis by (simp add: path_match_def split_slash_inject)
qed

text \<open>What two templates have in common is decided segment by segment.\<close>

definition paths_overlap :: "string \<Rightarrow> string \<Rightarrow> bool" where
  "paths_overlap t u = list_all2 (\<lambda>a b. is_param a \<or> is_param b \<or> a = b) (split_slash t) (split_slash u)"

lemma path_match_overlap:
  assumes "path_match t p" and "path_match u p"
  shows "paths_overlap t u"
  using assms
  by (fastforce simp: paths_overlap_def path_match_def list_all2_conv_all_nth segment_match_def split: if_splits)

definition routes_overlap :: "api_route \<Rightarrow> api_route \<Rightarrow> bool" where
  "routes_overlap r s = (rt_method r = rt_method s \<and> paths_overlap (rt_path r) (rt_path s))"

lemma app_routes_apart: "list_all (\<lambda>r. list_all (\<lambda>s. routes_overlap r s \<longrightarrow> r = s) app_routes) app_routes"
  by code_simp

lemma app_routes_unambiguous:
  assumes "r \<in> set app_routes" and "s \<in> set app_routes" and "route_matches m p r" and "route_matches m p s"
  shows "r = s"
proof -
  have "routes_overlap r s"
    using assms(3,4) path_match_overlap by (auto simp: route_matches_def routes_overlap_def)
  with assms(1,2) app_routes_apart show ?thesis by (simp add: list_all_iff)
qed

lemma find_route_app:
  "find_route app_routes m p = Some r \<longleftrightarrow> r \<in> set app_routes \<and> route_matches m p r"
proof
  assume "r \<in> set app_routes \<and> route_matches m p r"
  moreover from this obtain s where "find_route app_routes m p = Some s"
    by (cases "find_route app_routes m p") (auto simp: find_route_def find_None_iff)
  ultimately show "find_route app_routes m p = Some r"
    using app_routes_unambiguous [of s r m p] by (auto simp: find_route_def find_Some_iff)
qed (auto simp: find_route_def find_Some_iff)

section \<open>Which routes are open\<close>

lemma split_slash_path:
  assumes "split_slash p = [] # w # ws"
  shows "\<exists>s. p = CHR ''/'' # w @ s"
proof -
  have "p = join_slash ([] # w # ws)" using join_split_slash [of p] assms by simp
  then show ?thesis by (cases ws) auto
qed

lemma app_route_kinds:
  "list_all (\<lambda>r. rt_method r \<noteq> ''OPTIONS'' \<and>
     (if rt_path r \<in> information_paths then list_all (\<lambda>t. \<not> is_param t) (split_slash (rt_path r))
      else take 2 (split_slash (rt_path r)) = [[], ''api''])) app_routes"
  by code_simp

lemma api_path:
  assumes "path_match t p" and "take 2 (split_slash t) = [[], ''api'']"
  shows "\<exists>s. p = ''/api'' @ s"
proof -
  obtain ts where t: "split_slash t = [] # ''api'' # ts"
    using assms(2) by (cases "split_slash t" rule: list.exhaust [case_names N C]; cases "tl (split_slash t)") auto
  then obtain ss where "split_slash p = [] # ''api'' # ss"
    using assms(1) by (auto simp: path_match_def list_all2_Cons1 segment_match_def is_param_def)
  from split_slash_path [OF this] show ?thesis by auto
qed

lemma api_path_protected:
  assumes "rq_path rq = ''/api'' @ s" and "rq_method rq \<noteq> ''OPTIONS''"
  shows "\<not> is_public_request rq"
  using assms by (simp add: is_public_request_def PUBLIC_PATHS_def starts_with_def)

lemma app_route_facts:
  assumes "find_route app_routes m p = Some r"
  shows "r \<in> set app_routes" and "rt_method r = m" and "path_match (rt_path r) p" and "m \<noteq> ''OPTIONS''"
    and "rt_path r \<in> information_paths \<Longrightarrow> p = rt_path r"
    and "rt_path r \<notin> information_paths \<Longrightarrow> \<exists>s. p = ''/api'' @ s"
proof -
  show r: "r \<in> set app_routes" "rt_method r = m" "path_match (rt_path r) p"
    using assms by (auto simp: find_route_app route_matches_def)
  then have kind: "rt_method r \<noteq> ''OPTIONS''"
    "rt_path r \<in> information_paths \<Longrightarrow> list_all (\<lambda>t. \<not> is_param t) (split_slash (rt_path r))"
    "rt_path r \<notin> information_paths \<Longrightarrow> take 2 (split_slash (rt_path r)) = [[], ''api'']"
    using app_route_kinds unfolding list_all_iff [of _ app_routes] by (auto split: if_splits)
  show "m \<noteq> ''OPTIONS''" using kind(1) r(2) by simp
  show "rt_path r \<in> information_paths \<Longrightarrow> p = rt_path r" using kind(2) path_match_plain r(3) by blast
  show "rt_path r \<notin> information_paths \<Longrightarrow> \<exists>s. p = ''/api'' @ s" using api_path [OF r(3) kind(3)] by blast
qed

text \<open>A template that is informational is its own only path, and no other route has such a path.\<close>

lemma routed_information:
  assumes "find_route app_routes m p = Some r"
  shows "rt_path r \<in> information_paths \<longleftrightarrow> p \<in> information_paths"
  using app_route_facts(5,6) [OF assms] by (cases "rt_path r \<in> information_paths") (auto simp: information_paths_def)

text \<open>A request that a route of the table answers is public exactly for the three informational ones.\<close>

lemma routed_public:
  assumes "find_route app_routes (rq_method rq) (rq_path rq) = Some r"
  shows "is_public_request rq \<longleftrightarrow> rt_path r \<in> information_paths"
proof (cases "rt_path r \<in> information_paths")
  case True
  with app_route_facts(5) [OF assms] show ?thesis
    by (auto simp: is_public_request_def PUBLIC_PATHS_def information_paths_def)
next
  case False
  with app_route_facts(4,6) [OF assms] api_path_protected show ?thesis by metis
qed

section \<open>Which routes are limited\<close>

lemma default_route_specs:
  "parse_route_specs (set_rate_limit_routes default_security) =
     {''GET /api/v1/forecast/point'', ''GET /api/v1/forecast/sample'', ''POST /api/v1/forecast/jobs'',
      ''POST /api/v1/forecast/fourcastnet/hosted/infer''}"
  by code_simp

lemma unkeyed_access:
  assumes "find_route app_routes (rq_method rq) (rq_path rq) = Some r"
    and "set_api_key_required st" and "py_strip (header (rq_api_key rq)) \<notin> configured_api_keys st"
  shows "access_dispatch digest st now rq ws = (if rt_path r \<in> information_paths then PassOn else Unauthorized, ws)"
  using routed_public [OF assms(1)] assms(2,3) by (simp add: access_dispatch_def Let_def)

section \<open>The application\<close>

text \<open>
  The middlewares around the routes. \<open>handlers\<close> gives every route what it runs, \<open>elsewhere\<close> answers a
  request that no route matches. The state of the service behind the routes is what the state has
  beyond the registry of metrics and the windows of the limiter.
\<close>

type_synonym 'w handlers = "api_route \<Rightarrow> 'w app"

definition application :: "(string \<Rightarrow> string) \<Rightarrow> security_settings \<Rightarrow> ('z web_state_scheme) handlers \<Rightarrow>
    ('z web_state_scheme) app \<Rightarrow> request_context \<Rightarrow> ('z web_state_scheme) app" where
  "application digest st handlers elsewhere rc =
     serve digest st rc (\<lambda>rq w. case find_route app_routes (rq_method rq) (rq_path rq) of
       None \<Rightarrow> elsewhere rq w | Some r \<Rightarrow> handlers r rq w)"

text \<open>Requests one after the other, with their responses.\<close>

fun serve_all :: "(request_context \<Rightarrow> 'w app) \<Rightarrow> (request_context \<times> http_request) list \<Rightarrow> 'w \<Rightarrow>
    web_response option list \<times> 'w" where
  "serve_all app [] w = ([], w)"
| "serve_all app ((rc, rq) # reqs) w =
     (case app rc rq w of (r, w1) \<Rightarrow> (case serve_all app reqs w1 of (rs, w2) \<Rightarrow> (r # rs, w2)))"

text \<open>What a handler does that only reads.\<close>

definition reads_only :: "('z web_state_scheme) app \<Rightarrow> bool" where
  "reads_only h \<longleftrightarrow> (\<forall>rq w. web_state.more (snd (h rq w)) = web_state.more w \<and> web_windows (snd (h rq w)) = web_windows w)"

definition without_key :: "security_settings \<Rightarrow> http_request \<Rightarrow> bool" where
  "without_key st rq \<longleftrightarrow> set_api_key_required st \<and> py_strip (header (rq_api_key rq)) \<notin> configured_api_keys st"

lemma application_unkeyed:
  assumes "without_key st rq" and "find_route app_routes (rq_method rq) (rq_path rq) = Some r"
    and "\<And>r. rt_path r \<in> information_paths \<Longrightarrow> reads_only (handlers r)"
    and "application digest st handlers elsewhere rc rq w = (x, w')"
  shows "web_state.more w' = web_state.more w \<and> web_windows w' = web_windows w \<and>
    (rt_path r \<notin> information_paths \<longrightarrow> (\<exists>y. x = Some y \<and> web_status y = 401))"
proof -
  have acc: "access_dispatch digest st (rc_now rc) rq (web_windows w) =
      (if rt_path r \<in> information_paths then PassOn else Unauthorized, web_windows w)"
    using unkeyed_access [OF assms(2)] assms(1) by (simp add: without_key_def)
  show ?thesis
  proof (cases "rt_path r \<in> information_paths")
    case True
    obtain y v where h: "handlers r rq w = (y, v)" by fastforce
    have "web_state.more v = web_state.more w" "web_windows v = web_windows w"
      using assms(3) [OF True] h unfolding reads_only_def by (metis snd_conv)+
    then show ?thesis
      using assms(4) True by (auto simp: application_def serve_run access_middleware_def acc assms(2) h)
  next
    case False
    then show ?thesis using assms(4) by (auto simp: application_def serve_run access_middleware_def acc)
  qed
qed

end
