(* ===== verification/Request_Cycle.thy ===== *)
theory Request_Cycle imports
  Job_Dispatch
  Job_Api
begin

text \<open>
  One request to the job API with the work it leaves behind. A route of
  \<open>api/http/v1/routers/forecast_jobs.py\<close> that accepts a job gives its id to a
  \<open>QueuedDeferredForecastJobWorker\<close>, whose hook is \<open>BackgroundTasks.add_task\<close>; once the response is sent
  the framework runs the tasks one after the other, and an exception ends them. \<open>None\<close> is not
  returning.
\<close>

fun run_background :: "'q queue_ops \<Rightarrow> (string \<Rightarrow> 'q \<times> 'x \<Rightarrow> ('e + unit) \<times> 'q \<times> 'x) \<Rightarrow> string list \<Rightarrow>
    'q \<Rightarrow> 'x \<Rightarrow> (('e + unit) \<times> 'q \<times> 'x) option" where
  "run_background qo run [] q x = Some (Inr (), q, x)"
| "run_background qo run (k # ks) q x =
     (case enqueue_and_drain qo run DEFAULT_FORECAST_JOB_PRIORITY k q x of
        None \<Rightarrow> None
      | Some (Inl e, q', x') \<Rightarrow> Some (Inl e, q', x')
      | Some (Inr _, q', x') \<Rightarrow> run_background qo run ks q' x')"

definition job_request :: "'q queue_ops \<Rightarrow> (string \<Rightarrow> 'q \<times> 's world \<Rightarrow> (job_error + unit) \<times> 'q \<times> 's world) \<Rightarrow>
    ('s, 'b) route \<Rightarrow> 'q \<Rightarrow> 's world \<Rightarrow> ('b http_response \<times> (job_error + unit) \<times> 'q \<times> 's world) option" where
  "job_request qo run route q w =
     (case route w of ((response, tasks), w1) \<Rightarrow>
        map_option (\<lambda>(r, q', w'). (response, r, q', w')) (run_background qo run tasks q w1))"

text \<open>A request that leaves no task changes the queue no further.\<close>

lemma job_request_idle:
  assumes "route w = ((r, []), w1)"
  shows "job_request qo run route q w = Some (r, Inr (), q, w1)"
  using assms by (simp add: job_request_def)

context provider_port
begin

text \<open>The task of an accepted job runs that job and whatever else was pending.\<close>

lemma background_runs_job:
  assumes "job_store st ok amap" and "forecast_queue qo rel room" and "\<And>k. \<exists>s. usable s \<and> pv k = provider s"
    and "rel q a" and "room q" and "ok (stored w)" and "amap (stored w) k = Some j" and "status j = Queued"
    and "q_job_id ` set (pend a) \<subseteq> dom (amap (stored w))" and "k \<notin> item_key ` set (pend a) \<union> dom (flight a)"
  shows "\<exists>q' w' j'. run_background qo (run_job st pv) [k] q w = Some (Inr (), q', w') \<and>
    rel q' (a\<lparr>pend := []\<rparr>) \<and> ok (stored w') \<and> amap (stored w') k = Some j' \<and>
    ended_with j (get_provider_result (pv k) j) j' \<and>
    all_run pv (insert k (q_job_id ` set (pend a))) (amap (stored w)) (amap (stored w'))"
proof -
  let ?K = "insert k (q_job_id ` set (pend a))" and ?f = "world_after st pv"
  let ?is = "insert_item (new_item k DEFAULT_FORECAST_JOB_PRIORITY (queue_key k (Some k))) (pend a)"
  have self: "queue_key k (Some k) = k" by (simp add: queue_key_def opt_str_or_def str_or_def)
  have key: "queue_key k (Some k) \<notin> item_key ` set (pend a) \<union> dom (flight a)" unfolding self by (rule assms(10))
  have present: "jobs_present ok amap ?K w" using assms(6,7,9) by (auto simp: jobs_present_def)
  have step: "run_job st pv i (q, x) = (Inr (), q, ?f i x) \<and> jobs_present ok amap ?K (?f i x)"
    if "i \<in> ?K" and "jobs_present ok amap ?K x" for i q x
    using world_after_run [where pv = pv, OF assms(1,3) that]
    by (simp add: run_job_step [where pv = pv, OF assms(1,3) that])
  obtain q' where run: "enqueue_and_drain qo (run_job st pv) DEFAULT_FORECAST_JOB_PRIORITY k q w =
      Some (Inr (), q', fold (\<lambda>i. ?f (q_job_id i)) ?is w)" "rel q' (a\<lparr>pend := []\<rparr>)"
    using forecast_queue.worker_runs [where I = "jobs_present ok amap ?K" and f = ?f and run = "run_job st pv",
        OF assms(2,4,5) key present step] by blast
  have fold: "fold (\<lambda>i. ?f (q_job_id i)) ?is w = fold ?f (map q_job_id ?is) w" by (simp add: fold_map comp_def)
  have ids: "set (map q_job_id ?is) = ?K" by (simp add: new_item_def image_Un)
  let ?w' = "fold ?f (map q_job_id ?is) w"
  from jobs_after [where pv = pv, OF assms(1,3) present, of "map q_job_id ?is"]
  have after: "ok (stored ?w')" "all_run pv ?K (amap (stored w)) (amap (stored ?w'))" unfolding ids by simp_all
  then obtain j' where "amap (stored ?w') k = Some j'" "run_result (pv k) j j'"
    using assms(7) by (fastforce simp: all_run_def)
  with run after assms(8) show ?thesis
    by (intro exI [of _ q'] exI [of _ ?w'] exI [of _ j']) (simp add: fold run_result_def)
qed

text \<open>The same for the request that created the job.\<close>

lemma request_runs_job:
  assumes "job_store st ok amap" and "forecast_queue qo rel room" and "\<And>k. \<exists>s. usable s \<and> pv k = provider s"
    and "rel q a" and "room q" and "ok (stored w1)" and "amap (stored w1) k = Some j" and "status j = Queued"
    and "q_job_id ` set (pend a) \<subseteq> dom (amap (stored w1))" and "k \<notin> item_key ` set (pend a) \<union> dom (flight a)"
    and "route w = ((Response c b, [k]), w1)"
  shows "\<exists>q' w' j'. job_request qo (run_job st pv) route q w = Some (Response c b, Inr (), q', w') \<and>
    rel q' (a\<lparr>pend := []\<rparr>) \<and> ok (stored w') \<and> amap (stored w') k = Some j' \<and>
    ended_with j (get_provider_result (pv k) j) j' \<and>
    all_run pv (insert k (q_job_id ` set (pend a))) (amap (stored w1)) (amap (stored w'))"
proof -
  from background_runs_job [where pv = pv, OF assms(1-10)] obtain q' w' j' where
    "run_background qo (run_job st pv) [k] q w1 = Some (Inr (), q', w')" "rel q' (a\<lparr>pend := []\<rparr>)" "ok (stored w')"
    "amap (stored w') k = Some j'" "ended_with j (get_provider_result (pv k) j) j'"
    "all_run pv (insert k (q_job_id ` set (pend a))) (amap (stored w1)) (amap (stored w'))" by blast
  then show ?thesis by (intro exI [of _ q'] exI [of _ w'] exI [of _ j']) (simp add: job_request_def assms(11))
qed

end

end
