(* ===== verification/Service_Properties.thy ===== *)
theory Service_Properties imports
  Structured_Log
  Api_Routes
  Request_Cycle
  Edge_Properties
  Dispatch_Properties
begin

text \<open>
  Properties of the service as a client and an operator see it: a job from its request to its answer,
  which routes are open and which are limited, and what the log says.
\<close>

section \<open>A job from its request to its answer\<close>

lemma create_route_ok:
  assumes "job_store st ok amap" and "ok (stored w)" and "flt_between (-90) la 90" and "flt_between (-180) lo 180"
  shows "ok (stored (snd (create_forecast_job st f la lo w)))"
proof -
  obtain r w' where run: "submit_execute st f la lo w = (r, w')" by fastforce
  from simulatesD(1) [OF job_store.sim_submit [OF assms(1)] assms(2) run] show ?thesis
    using assms(3,4) by (simp add: create_forecast_job_def answer_def run split: sum.split)
qed

text \<open>C12. A job that is asked for is answered: a request for coordinates on earth gets 202 with a queued
  job, and the work that the request leaves behind returns without an exception; after it, polling
  the job says that it has ended, and that the forecast is ready exactly when the provider gave one.
  Whatever else was pending in the queue has been run on the way, and no other job has changed. This
  holds with every store, queue and provider adapter that keeps its contract, for an id that the queue
  does not hold yet.\<close>

theorem requested_job_is_answered:
  assumes "job_store st ok amap" and "forecast_queue qo rel room" and "provider_port provider usable"
    and "\<forall>k. \<exists>s. usable s \<and> pv k = provider s"
    and "rel q a" and "room q" and "ok (stored w)" and "q_job_id ` set (pend a) \<subseteq> dom (amap (stored w))"
    and "identity_parse (id_fn w (ids_used w)) = Inr k" and "k \<notin> item_key ` set (pend a) \<union> dom (flight a)"
    and "flt_between (-90) la 90" and "flt_between (-180) lo 180"
  shows "\<exists>j q' w' x. job_request qo (run_job st pv) (create_forecast_job st f la lo) q w =
      Some (Response 202 (with_job_links f j), Inr (), q', w') \<and>
    job_id j = k \<and> status j = Queued \<and> latitude j = la \<and> longitude j = lo \<and> rel q' (a\<lparr>pend := []\<rparr>) \<and>
    fst (fst (poll_forecast_job st f k w')) = Response 200 x \<and> poll_terminal x \<and>
    (poll_forecast_ready x \<longleftrightarrow> (\<exists>y. get_provider_result (pv k) j = Inr y)) \<and>
    (\<forall>i ji. i \<noteq> k \<and> amap (stored w) i = Some ji \<longrightarrow> (\<exists>ji'. amap (stored w') i = Some ji' \<and>
       (if i \<in> q_job_id ` set (pend a) \<and> status ji = Queued
        then ended_with ji (get_provider_result (pv i) ji) ji' else ji' = ji)))"
proof -
  have pv: "\<And>k. \<exists>s. usable s \<and> pv k = provider s" using assms(4) by blast
  have id: "identity_parse (id_fn (abs_world amap w) (ids_used (abs_world amap w))) = Inr k" using assms(9) by simp
  let ?w1 = "snd (create_forecast_job st f la lo w)"
  from create_response [OF id assms(11,12), of f] create_route_sim [OF assms(1,7), of f la lo] obtain j where
    j: "fst (create_forecast_job st f la lo w) = (Response 202 (with_job_links f j), [k])"
    "amap (stored ?w1) = (amap (stored w))(k \<mapsto> j)" "job_id j = k" "status j = Queued" "latitude j = la"
    "longitude j = lo" "forecast j = None" by auto
  have route: "create_forecast_job st f la lo w = ((Response 202 (with_job_links f j), [k]), ?w1)"
    using j(1) by (simp add: prod_eq_iff)
  have here: "amap (stored ?w1) k = Some j" and pending: "q_job_id ` set (pend a) \<subseteq> dom (amap (stored ?w1))"
    using j(2) assms(8) by auto
  obtain q' w' j' where run: "job_request qo (run_job st pv) (create_forecast_job st f la lo) q w =
      Some (Response 202 (with_job_links f j), Inr (), q', w')" "rel q' (a\<lparr>pend := []\<rparr>)" "ok (stored w')"
    "amap (stored w') k = Some j'" "ended_with j (get_provider_result (pv k) j) j'"
    "all_run pv (insert k (q_job_id ` set (pend a))) (amap (stored ?w1)) (amap (stored w'))"
    using provider_port.request_runs_job [where pv = pv and ok = ok and w = w and route = "create_forecast_job st f la lo",
        OF assms(3,1,2) pv assms(5,6) create_route_ok [where f = f, OF assms(1,7,11,12)] here j(4) pending assms(10) route] by blast
  have "find_job (amap (stored w')) k = Some j'"
    using store_wfD(2) [OF job_store.inv_wf [OF assms(1) run(3)] run(4)] run(4) by (simp add: find_job_def)
  note poll = poll_found [OF assms(1) run(3) this, of f]
  have "status j' \<in> TERMINAL_JOB_STATUSES" using ended_with_terminal run(5) by blast
  moreover have "forecast j' \<noteq> None \<longleftrightarrow> (\<exists>y. get_provider_result (pv k) j = Inr y)"
    using run(5) j(7) by (auto simp: ended_with_def split: sum.splits)
  moreover have "\<exists>ji'. amap (stored w') i = Some ji' \<and>
       (if i \<in> q_job_id ` set (pend a) \<and> status ji = Queued
        then ended_with ji (get_provider_result (pv i) ji) ji' else ji' = ji)"
    if "i \<noteq> k" and "amap (stored w) i = Some ji" for i ji
  proof -
    have "amap (stored ?w1) i = Some ji" using that j(2) by simp
    then obtain ji' where "amap (stored w') i = Some ji'"
      "if i \<in> insert k (q_job_id ` set (pend a)) then run_result (pv i) ji ji' else ji' = ji"
      using run(6) unfolding all_run_def by blast
    with that(1) show ?thesis by (intro exI [of _ ji']) (auto simp: run_result_def split: if_splits)
  qed
  ultimately show ?thesis
    using run(1,2) j(3-6) poll
    by (intro exI [of _ j] exI [of _ q'] exI [of _ w'] exI [of _ "to_job_poll_response (with_job_links f j')"])
      (simp add: to_job_poll_response_def with_job_links_def Let_def)
qed

theorem requested_job_is_answered_witness:
  "\<exists>j q' w' x. job_request memory_queue_ops (run_job memory_ops (\<lambda>_. ex_provider))
       (create_forecast_job memory_ops ex_links (Fin 37) (Fin 127)) empty_memory_queue (ex_world (ex_memory ex_cancelled)) =
     Some (Response 202 (with_job_links ex_links j), Inr (), q', w') \<and>
     fst (fst (poll_forecast_job memory_ops ex_links (uuid_str 1) w')) = Response 200 x \<and> poll_terminal x"
proof -
  let ?w = "ex_world (ex_memory ex_cancelled)"
  have ok: "mem_ok (stored ?w)" using ex_memory_ok ex_facts by simp
  have pv: "\<forall>k::string. \<exists>s. mock_usable s \<and> ex_provider = mock_as_provider s" using ex_provider_usable by blast
  have id: "identity_parse (id_fn ?w (ids_used ?w)) = Inr (uuid_str 1)" using ex_ids by simp
  from requested_job_is_answered [where pv = "\<lambda>_. ex_provider" and f = ex_links, OF mem.job_store_axioms
      mem_queue.forecast_queue_axioms mock.provider_port_axioms pv mq_rel_empty TrueI ok _ id, of "Fin 37" "Fin 127"]
  show ?thesis by (auto simp: flt_between_iff)
qed

section \<open>The routes\<close>

definition limited_routes :: "api_route list" where
  "limited_routes = forecast_query_routes @ router ''/api/v1/forecast/jobs'' [(''POST'', [])]"

lemma limited_route_table:
  "list_all (\<lambda>r. r \<in> set app_routes \<and> list_all (\<lambda>t. \<not> is_param t) (split_slash (rt_path r))) limited_routes"
  by code_simp

lemma limited_specs:
  "parse_route_specs (set_rate_limit_routes default_security) = (\<lambda>r. rt_method r @ '' '' @ rt_path r) ` set limited_routes"
  unfolding default_route_specs by (simp add: limited_routes_def forecast_query_routes_def router_def insert_commute)

lemma app_methods: "list_all (\<lambda>r. rt_method r \<in> {''GET'', ''POST''}) app_routes"
  by code_simp

text \<open>The text of a route tells the route, among the methods of the table.\<close>

lemma route_text_inject:
  assumes "m \<in> {''GET'', ''POST''}" and "m' \<in> {''GET'', ''POST''}" and "m @ '' '' @ p = m' @ '' '' @ p'"
  shows "m = m' \<and> p = p'"
  using assms by auto

lemma default_limit_routes:
  assumes "find_route app_routes (rq_method rq) (rq_path rq) = Some r"
  shows "route_spec rq \<in> parse_route_specs (set_rate_limit_routes default_security) \<longleftrightarrow> r \<in> set limited_routes"
proof -
  have r: "r \<in> set app_routes" "rq_method rq = rt_method r" "path_match (rt_path r) (rq_path rq)"
    using assms by (auto simp: find_route_app route_matches_def)
  have table: "s \<in> set app_routes" "list_all (\<lambda>t. \<not> is_param t) (split_slash (rt_path s))" if "s \<in> set limited_routes" for s
    using limited_route_table that by (simp_all add: list_all_iff [of _ limited_routes])
  have methods: "rt_method s \<in> {''GET'', ''POST''}" if "s \<in> set app_routes" for s
    using app_methods that by (simp add: list_all_iff [of _ app_routes])
  have "py_upper ''GET'' = ''GET''" and "py_upper ''POST'' = ''POST''" by code_simp+
  then have spec: "route_spec rq = rt_method r @ '' '' @ rq_path rq"
    using methods [OF r(1)] r(2) by (auto simp: route_spec_def)
  show ?thesis
  proof
    assume "route_spec rq \<in> parse_route_specs (set_rate_limit_routes default_security)"
    then obtain s where s: "s \<in> set limited_routes" "rt_method r @ '' '' @ rq_path rq = rt_method s @ '' '' @ rt_path s"
      unfolding limited_specs spec by blast
    from route_text_inject [OF methods [OF r(1)] methods [OF table(1) [OF s(1)]] s(2)]
    have "rt_method s = rt_method r" "rq_path rq = rt_path s" by simp_all
    then have "route_matches (rt_method r) (rq_path rq) s"
      using path_match_plain [OF table(2) [OF s(1)]] by (simp add: route_matches_def)
    moreover have "route_matches (rt_method r) (rq_path rq) r" using r(3) by (simp add: route_matches_def)
    ultimately have "s = r" using app_routes_unambiguous [OF table(1) [OF s(1)] r(1)] by blast
    with s(1) show "r \<in> set limited_routes" by simp
  next
    assume l: "r \<in> set limited_routes"
    with path_match_plain [OF table(2) [OF l]] r(3) show "route_spec rq \<in> parse_route_specs (set_rate_limit_routes default_security)"
      unfolding limited_specs spec by blast
  qed
qed


definition ex_poll_request :: http_request where
  "ex_poll_request =
     \<lparr>rq_method = ''GET'', rq_path = ''/api/v1/forecast/jobs/7/poll'', rq_api_key = None,
      rq_forwarded_for = None, rq_client_host = None\<rparr>"

lemma ex_poll_routed:
  "find_route app_routes (rq_method ex_poll_request) (rq_path ex_poll_request) =
     Some \<lparr>rt_method = ''GET'', rt_path = ''/api/v1/forecast/jobs/{job_id}/poll''\<rparr>"
  by code_simp



text \<open>A client that polls a job and looks at the health of the service.\<close>

definition ex_requests :: "(request_context \<times> http_request) list" where
  "ex_requests = [(ex_context, ex_poll_request), (ex_context, ex_poll_request\<lparr>rq_path := ''/health''\<rparr>)]"

definition ex_handlers :: "(string web_state_scheme) handlers" where
  "ex_handlers r rq w =
     (if rt_path r \<in> information_paths then (Some \<lparr>web_status = 200, web_headers = [], web_body = []\<rparr>, w)
      else (None, w\<lparr>web_state.more := ''changed''\<rparr>))"


section \<open>The log\<close>

text \<open>C40. The log can be trusted: an event adds exactly one line of printable ASCII, whatever its fields
  hold, so that no field can start a line of its own; a reader gets back every field with its value,
  sorted by name; and a line that is logged while a request is served carries the id of that request,
  which is forgotten when the request is over.\<close>

theorem log_line_is_read_back:
  assumes "\<forall>x. json_token (flt_str x)"
  shows "(\<exists>line. log_lines (log_event flt_str ev kvs s) = log_lines s @ [line] \<and>
      list_all printable line \<and>
      read_line line = Some (map (apsnd (shown flt_str)) (sort_key fst (log_payload ev kvs (request_var s))))) \<and>
    (\<exists>line fs. with_request_id v fresh (\<lambda>t. (Inr (), log_event flt_str ev kvs t)) s =
        (Inr () :: 'e + unit, s\<lparr>log_lines := log_lines s @ [line]\<rparr>) \<and>
      read_line line = Some fs \<and>
      (''request_id'' \<notin> fst ` set kvs \<longrightarrow> (''request_id'', Inl (coerce_request_id v fresh)) \<in> set fs))"
proof -
  have tok: "\<And>x. json_token (flt_str x)" using assms by blast
  have read: "read_line (json_line flt_str (log_payload e d i)) =
      Some (map (apsnd (shown flt_str)) (sort_key fst (log_payload e d i)))" for e d i
    by (rule read_json_line [OF tok log_payload_nonempty])
  have line: "\<exists>line. log_lines (log_event flt_str ev kvs s) = log_lines s @ [line] \<and>
      list_all printable line \<and>
      read_line line = Some (map (apsnd (shown flt_str)) (sort_key fst (log_payload ev kvs (request_var s))))"
    using read json_line_printable [OF tok] by (simp add: log_event_def get_request_id_def)
  let ?i = "coerce_request_id v fresh"
  let ?p = "log_payload ev kvs (Some ?i)"
  let ?fs = "map (apsnd (shown flt_str)) (sort_key fst ?p)"
  have "(''request_id'', Inl ?i) \<in> set ?fs" if "''request_id'' \<notin> fst ` set kvs"
    using payload_request_id [OF that, of ?i ev] by (auto intro!: image_eqI [where x = "(''request_id'', LogStr ?i)"])
  moreover have "with_request_id v fresh (\<lambda>t. (Inr () :: 'e + unit, log_event flt_str ev kvs t)) s =
      (Inr (), s\<lparr>log_lines := log_lines s @ [json_line flt_str ?p]\<rparr>)"
    by (simp add: with_request_id_def set_request_id_def reset_request_id_def log_event_def get_request_id_def)
  ultimately show ?thesis using line read [of ev kvs "Some ?i"] by blast
qed

text \<open>A client that sends a line break as its request id and creates a job.\<close>

theorem log_line_is_read_back_witness:
  "\<exists>line fs. log_lines (snd (with_request_id (Some (CHR 0x0A # ''x'' @ [CHR 0x0A] @ ''y'')) []
        (\<lambda>t. (Inr () :: job_error + unit, log_event (\<lambda>x. ''0'') (fst (accepted_event ex_queued)) (snd (accepted_event ex_queued)) t))
        \<lparr>request_var = None, log_lines = []\<rparr>)) = [line] \<and>
     read_line line = Some fs \<and> (''request_id'', Inl (''x'' @ [CHR 0x0A] @ ''y'')) \<in> set fs"
proof -
  have "\<forall>x :: pyfloat. json_token ''0''" by (simp add: json_token_def in_token_def)
  moreover have "coerce_request_id (Some (CHR 0x0A # ''x'' @ [CHR 0x0A] @ ''y'')) [] = ''x'' @ [CHR 0x0A] @ ''y''" by code_simp
  moreover have "''request_id'' \<notin> fst ` set (snd (accepted_event ex_queued))" using event_names(3) by blast
  ultimately show ?thesis
    using log_line_is_read_back [where flt_str = "\<lambda>x. ''0''" and 'e = job_error, of "fst (accepted_event ex_queued)"
      "snd (accepted_event ex_queued)" "\<lparr>request_var = None, log_lines = []\<rparr>"
      "Some (CHR 0x0A # ''x'' @ [CHR 0x0A] @ ''y'')" "[]"] by auto
qed

end
