(* ===== verification/Application.thy ===== *)
theory Application imports
  Forecast_Api
  Job_Dispatch
  Redis_Queue
  File_Store
  Memory_Store
begin

text \<open>
  The composed application: \<open>bootstrap/container.py\<close>, the facade \<open>ForecastJobService\<close> of
  \<open>services/jobs.py\<close> over the command and query services, and the startup of
  \<open>bootstrap/app_factory.py\<close>. The settings choose one of two job stores, one of two queues and one of
  two providers; what the program does by dynamic dispatch on these is a case distinction here, and
  the lemmas show that the chosen part keeps the contract of its port whichever it is, and that the
  facade over the chosen store answers as it does over the abstract map of jobs.
\<close>

section \<open>Settings\<close>

datatype store_backend = MemoryBackend | FileBackend | PostgresBackend

datatype queue_backend = MemoryQueueBackend | RedisQueueBackend

record container_settings = app_settings +
  set_queue_backend :: queue_backend
  set_queue_name :: string
  set_visibility_timeout_seconds :: int
  set_job_store_backend :: store_backend
  set_job_retention_hours :: int
  set_job_stale_timeout_seconds :: int

text \<open>The settings of a process without an environment.\<close>

definition default_settings :: container_settings where
  "default_settings =
     \<lparr>set_app_name = ''earth2-sandbox'', set_environment = ''local'', set_forecast_provider = SelectMock,
      set_endpoint_mode = SelfHosted, set_nim_base_url = ''http://localhost:8000'',
      set_hosted_url = ''https://climate.api.nvidia.com/v1/nvidia/fourcastnet'',
      set_status_url = ''https://api.nvcf.nvidia.com/v2/nvcf/pexec/status'',
      set_nvidia_api_key = None, set_max_poll_attempts = 20, set_poll_interval_seconds = Fin 1,
      set_cache_enabled = True, set_queue_backend = MemoryQueueBackend, set_queue_name = ''earth2:forecast-jobs'',
      set_visibility_timeout_seconds = 300, set_job_store_backend = MemoryBackend,
      set_job_retention_hours = 168, set_job_stale_timeout_seconds = 1800\<rparr>"

text \<open>The constraints of the fields; a value outside them is refused when the settings are read.\<close>

definition settings_valid :: "('z) container_settings_scheme \<Rightarrow> bool" where
  "settings_valid st = (1 \<le> length (set_queue_name st) \<and> 1 \<le> set_visibility_timeout_seconds st)"

section \<open>The chosen job store\<close>

datatype 'c any_store = FileJobStore "'c file_store" | MemoryJobStore memory_store

text \<open>A method of one store, on a world whose store is that one inside the application.\<close>

definition inside :: "('s \<Rightarrow> 't) \<Rightarrow> 's \<Rightarrow> ('s, 'a) job_handler \<Rightarrow> ('t, 'a) job_handler" where
  "inside wrap s h = (\<lambda>w. case h (abs_world (\<lambda>_. s) w) of (r, w') \<Rightarrow> (r, abs_world wrap w'))"

definition dispatched :: "('c file_store, 'a) job_handler \<Rightarrow> (memory_store, 'a) job_handler \<Rightarrow>
    ('c any_store, 'a) job_handler" where
  "dispatched hf hm = (\<lambda>w. case stored w of
     FileJobStore s \<Rightarrow> inside FileJobStore s hf w | MemoryJobStore s \<Rightarrow> inside MemoryJobStore s hm w)"

definition any_store_ops :: "(forecast_job \<Rightarrow> 'c) \<Rightarrow> ('c \<Rightarrow> forecast_job option) \<Rightarrow> 'c any_store job_store_ops" where
  "any_store_ops dump load =
     \<lparr>op_create = (\<lambda>lat lon p n. dispatched (file_create dump lat lon p n) (mem_create lat lon p n)),
      op_get = (\<lambda>jid. dispatched (file_get load jid) (mem_get jid)),
      op_update = (\<lambda>j. dispatched (file_update dump load j) (mem_update j)),
      op_update_if_status = (\<lambda>j X. dispatched (file_update_if_status dump load j X) (mem_update_if_status j X)),
      op_list_recent = (\<lambda>n s. dispatched (file_list_recent load n s) (mem_list_recent n s)),
      op_list_active = dispatched (file_list_active load) mem_list_active,
      op_delete_older_than = (\<lambda>t X. dispatched (file_delete_older_than load t X) (mem_delete_older_than t X))\<rparr>"

definition POSTGRES_MESSAGE :: string where
  "POSTGRES_MESSAGE =
     ''EARTH2_FORECAST_JOB_STORE_BACKEND=postgres is planned for durable '' @
     ''job state but is not implemented yet. PostgreSQL settings are '' @
     ''accepted as adapter groundwork, but use memory or file for the '' @
     ''current modular monolith.''"

text \<open>\<open>directory\<close> is what the configured directory holds. \<open>Inl\<close> is \<open>NotImplementedError\<close>.\<close>

definition build_forecast_job_store :: "('z) container_settings_scheme \<Rightarrow> 'c file_store \<Rightarrow> string + 'c any_store" where
  "build_forecast_job_store st directory =
     (if set_job_store_backend st = FileBackend then Inr (FileJobStore directory)
      else if set_job_store_backend st = PostgresBackend then Inl POSTGRES_MESSAGE
      else Inr (MemoryJobStore empty_memory_store))"

section \<open>The chosen queue\<close>

datatype 'r any_queue = MemoryForecastQueue memory_queue | RedisForecastQueue 'r

definition any_queue_ops :: "'r redis_ops \<Rightarrow> string \<Rightarrow> int \<Rightarrow> 'r any_queue queue_ops" where
  "any_queue_ops R n t =
     \<lparr>q_enqueue = (\<lambda>jid pr idem q. case q of
        MemoryForecastQueue m \<Rightarrow> map_prod id MemoryForecastQueue (mq_enqueue jid pr idem m)
      | RedisForecastQueue r \<Rightarrow> map_prod id RedisForecastQueue (rq_enqueue R n jid pr idem r)),
      q_dequeue = (\<lambda>q. case q of
        MemoryForecastQueue m \<Rightarrow> map_prod id MemoryForecastQueue (mq_dequeue m)
      | RedisForecastQueue r \<Rightarrow> map_prod id RedisForecastQueue (rq_dequeue R n t r)),
      q_completed = (\<lambda>i q. case q of
        MemoryForecastQueue m \<Rightarrow> MemoryForecastQueue (mq_mark_completed i m)
      | RedisForecastQueue r \<Rightarrow> RedisForecastQueue (rq_mark_completed R n i r)),
      q_failed = (\<lambda>i b q. case q of
        MemoryForecastQueue m \<Rightarrow> MemoryForecastQueue (mq_mark_failed i b m)
      | RedisForecastQueue r \<Rightarrow> RedisForecastQueue (rq_mark_failed R n i b r))\<rparr>"

text \<open>\<open>server\<close> is the state of the Redis server.\<close>

definition build_forecast_queue :: "('z) container_settings_scheme \<Rightarrow> 'r \<Rightarrow> 'r any_queue" where
  "build_forecast_queue st server =
     (if set_queue_backend st = RedisQueueBackend then RedisForecastQueue server
      else MemoryForecastQueue empty_memory_queue)"

section \<open>The container\<close>

record ('c, 'r, 'n) container =
  ct_settings :: container_settings
  ct_provider :: "'n any_provider"
  ct_store :: "'c any_store"
  ct_queue :: "'r any_queue"

definition build_container :: "'n provider_libs \<Rightarrow> 'c file_store \<Rightarrow> 'r \<Rightarrow> container_settings \<Rightarrow>
    'n any_provider option \<Rightarrow> string + ('c, 'r, 'n) container" where
  "build_container libs directory server st provider_override =
     (let p = (case provider_override of None \<Rightarrow> build_forecast_provider libs (app_settings.truncate st) | Some p \<Rightarrow> p)
      in bindE (build_forecast_job_store st directory) (\<lambda>s.
         Inr \<lparr>ct_settings = st, ct_provider = p, ct_store = s, ct_queue = build_forecast_queue st server\<rparr>))"

section \<open>The service\<close>

text \<open>\<open>ForecastJobService\<close> with what it hands to the services behind it. \<open>js_provider k\<close> is the provider
  as it answers the call for job \<open>k\<close>; the defaults of the constructor are the last two numbers.\<close>

record 's job_service =
  js_store :: "'s job_store_ops"
  js_provider :: "string \<Rightarrow> forecast_provider"
  js_float_str :: "pyfloat \<Rightarrow> string"
  js_retention_hours :: int
  js_stale_timeout_seconds :: int

definition command_create_job :: "'s job_service \<Rightarrow> pyfloat \<Rightarrow> pyfloat \<Rightarrow> ('s, forecast_job) job_handler" where
  "command_create_job svc lat lon = submit_execute (js_store svc) (js_float_str svc) lat lon"

definition command_cancel_job :: "'s job_service \<Rightarrow> string \<Rightarrow> ('s, forecast_job) job_handler" where
  "command_cancel_job svc jid = cancel_execute (js_store svc) (js_float_str svc) jid"

definition command_retry_job :: "'s job_service \<Rightarrow> string \<Rightarrow> ('s, forecast_job) job_handler" where
  "command_retry_job svc jid = retry_execute (js_store svc) (js_float_str svc) jid"

definition command_cleanup_jobs :: "'s job_service \<Rightarrow> int option \<Rightarrow> job_status list option \<Rightarrow>
    ('s, job_cleanup_response) job_handler" where
  "command_cleanup_jobs svc hours statuses = cleanup_execute (js_store svc) (js_retention_hours svc) hours statuses"

definition command_run_job :: "'s job_service \<Rightarrow> string \<Rightarrow> ('s, unit) job_handler" where
  "command_run_job svc jid = run_execute (js_store svc) (js_provider svc jid) jid"

definition query_get_job :: "'s job_service \<Rightarrow> string \<Rightarrow> ('s, forecast_job) job_handler" where
  "query_get_job svc jid = get_job (js_store svc) (js_float_str svc) jid"

definition query_list_recent_jobs :: "'s job_service \<Rightarrow> int \<Rightarrow> job_status option \<Rightarrow> ('s, job_list_response) job_handler" where
  "query_list_recent_jobs svc n s = list_recent_jobs (js_store svc) (js_float_str svc) n s"

definition query_poll_job :: "'s job_service \<Rightarrow> string \<Rightarrow> ('s, job_poll_response) job_handler" where
  "query_poll_job svc jid = poll_job (js_store svc) (js_float_str svc) jid"

definition service_recover_interrupted_jobs :: "'s job_service \<Rightarrow> int option \<Rightarrow>
    ('s, string list \<times> (job_error + recovery_report)) job_handler" where
  "service_recover_interrupted_jobs svc timeout =
     recover_interrupted_jobs (js_store svc) (js_stale_timeout_seconds svc) timeout"

text \<open>The methods of the facade, each handed on to the service that has it.\<close>

definition service_create_job :: "'s job_service \<Rightarrow> pyfloat \<Rightarrow> pyfloat \<Rightarrow> ('s, forecast_job) job_handler" where
  "service_create_job svc lat lon = command_create_job svc lat lon"

definition service_get_job :: "'s job_service \<Rightarrow> string \<Rightarrow> ('s, forecast_job) job_handler" where
  "service_get_job svc jid = query_get_job svc jid"

definition service_list_recent_jobs :: "'s job_service \<Rightarrow> int \<Rightarrow> job_status option \<Rightarrow> ('s, job_list_response) job_handler" where
  "service_list_recent_jobs svc n s = query_list_recent_jobs svc n s"

definition service_poll_job :: "'s job_service \<Rightarrow> string \<Rightarrow> ('s, job_poll_response) job_handler" where
  "service_poll_job svc jid = query_poll_job svc jid"

definition service_cancel_job :: "'s job_service \<Rightarrow> string \<Rightarrow> ('s, forecast_job) job_handler" where
  "service_cancel_job svc jid = command_cancel_job svc jid"

definition service_retry_job :: "'s job_service \<Rightarrow> string \<Rightarrow> ('s, forecast_job) job_handler" where
  "service_retry_job svc jid = command_retry_job svc jid"

definition service_cleanup_jobs :: "'s job_service \<Rightarrow> int option \<Rightarrow> job_status list option \<Rightarrow>
    ('s, job_cleanup_response) job_handler" where
  "service_cleanup_jobs svc hours statuses = command_cleanup_jobs svc hours statuses"

definition service_run_job :: "'s job_service \<Rightarrow> string \<Rightarrow> ('s, unit) job_handler" where
  "service_run_job svc jid = command_run_job svc jid"

lemmas service_defs = service_create_job_def service_get_job_def service_list_recent_jobs_def service_poll_job_def
  service_cancel_job_def service_retry_job_def service_cleanup_jobs_def service_run_job_def
  service_recover_interrupted_jobs_def command_create_job_def command_cancel_job_def command_retry_job_def
  command_cleanup_jobs_def command_run_job_def query_get_job_def query_list_recent_jobs_def query_poll_job_def

definition container_service :: "(forecast_job \<Rightarrow> 'c) \<Rightarrow> ('c \<Rightarrow> forecast_job option) \<Rightarrow> (pyfloat \<Rightarrow> string) \<Rightarrow>
    (string \<Rightarrow> forecast_provider) \<Rightarrow> ('c, 'r, 'n) container \<Rightarrow> 'c any_store job_service" where
  "container_service dump load flt_str view c =
     \<lparr>js_store = any_store_ops dump load, js_provider = view, js_float_str = flt_str,
      js_retention_hours = set_job_retention_hours (ct_settings c),
      js_stale_timeout_seconds = set_job_stale_timeout_seconds (ct_settings c)\<rparr>"

text \<open>
  The startup of the application: recovery, and the drains it has started. \<open>None\<close> is not returning.
  The tasks of the workers run one after the other when recovery is done, which is one schedule; when
  recovery raises, the application does not start.
\<close>

definition lifespan :: "'s job_service \<Rightarrow> 'q queue_ops \<Rightarrow> 'q \<Rightarrow> 's world \<Rightarrow>
    ((job_error + recovery_report) \<times> 'q \<times> 's world) option" where
  "lifespan svc qo q w =
     (case service_recover_interrupted_jobs svc None w of
        (Inl e, w1) \<Rightarrow> Some (Inl e, q, w1)
      | (Inr (ids, Inl e), w1) \<Rightarrow> Some (Inl e, q, w1)
      | (Inr (ids, Inr rep), w1) \<Rightarrow>
          (case start_workers qo (run_job (js_store svc) (js_provider svc)) DEFAULT_FORECAST_JOB_PRIORITY ids q w1 of
             None \<Rightarrow> None
           | Some (q', w2) \<Rightarrow> Some (Inr rep, q', w2)))"

text \<open>The provider as the job commands see it, with the state of the network, the cache and the clock at
  the call.\<close>

fun any_as_provider :: "'n any_provider \<times> 'n provider_state \<Rightarrow> forecast_provider" where
  "any_as_provider (MockForecastProvider lib, s) = mock_as_provider (lib, wall_clock s (clock_reads s))"
| "any_as_provider (FourCastNetForecastProvider f, s) = fcn_as_provider (f, s)"

fun any_usable :: "'n any_provider \<times> 'n provider_state \<Rightarrow> bool" where
  "any_usable (MockForecastProvider lib, s) = mock_usable (lib, wall_clock s (clock_reads s))"
| "any_usable (FourCastNetForecastProvider f, s) = fcn_usable (f, s)"

section \<open>Whatever is chosen keeps the contract\<close>

fun any_ok :: "('c \<Rightarrow> forecast_job option) \<Rightarrow> 'c any_store \<Rightarrow> bool" where
  "any_ok load (FileJobStore s) = file_ok load s"
| "any_ok load (MemoryJobStore s) = mem_ok s"

fun any_map :: "('c \<Rightarrow> forecast_job option) \<Rightarrow> 'c any_store \<Rightarrow> job_map" where
  "any_map load (FileJobStore s) = file_map load s"
| "any_map load (MemoryJobStore s) = mem_map s"

lemma abs_world_comp: "abs_world f (abs_world g w) = abs_world (f \<circ> g) w"
  by (simp add: abs_world_def)

lemma abs_world_cong: "f (stored w) = g (stored w) \<Longrightarrow> abs_world f w = abs_world g w"
  by (simp add: abs_world_def)

lemma simulates_inside:
  assumes "simulates ok amap P h g" and "stored w = wrap s" and "ok s" and "inside wrap s h w = (r, w')"
    and "\<And>s. any (wrap s) = ok s" and "\<And>s. any_amap (wrap s) = amap s"
  shows "any (stored w') \<and> g (abs_world any_amap w) = (r, abs_world any_amap w') \<and> (\<forall>x. r = Inr x \<longrightarrow> P x)"
proof -
  obtain v where v: "h (abs_world (\<lambda>_. s) w) = (r, v)" "w' = abs_world wrap v"
    using assms(4) by (auto simp: inside_def split: prod.splits)
  have "ok (stored (abs_world (\<lambda>_. s) w))" using assms(3) by simp
  from simulatesD [OF assms(1) this v(1)] have "ok (stored v)"
    "g (abs_world amap (abs_world (\<lambda>_. s) w)) = (r, abs_world amap v)" "\<forall>x. r = Inr x \<longrightarrow> P x" by blast+
  moreover have "abs_world amap (abs_world (\<lambda>_. s) w) = abs_world any_amap w"
    unfolding abs_world_comp by (rule abs_world_cong) (simp add: assms(2,6))
  moreover have "abs_world amap v = abs_world any_amap w'"
    unfolding v(2) abs_world_comp by (rule abs_world_cong) (simp add: assms(6))
  ultimately show ?thesis using v(2) assms(5) by simp
qed

lemma simulates_dispatched:
  assumes "simulates (file_ok load) (file_map load) P hf g" and "simulates mem_ok mem_map P hm g"
  shows "simulates (any_ok load) (any_map load) P (dispatched hf hm) g"
proof (rule simulatesI)
  fix w r w'
  assume ok: "any_ok load (stored w)" and run: "dispatched hf hm w = (r, w')"
  show "any_ok load (stored w') \<and> g (abs_world (any_map load) w) = (r, abs_world (any_map load) w') \<and>
      (\<forall>x. r = Inr x \<longrightarrow> P x)"
  proof (cases "stored w")
    case (FileJobStore s)
    with ok run show ?thesis
      by (intro simulates_inside [where wrap = FileJobStore and any = "any_ok load" and any_amap = "any_map load", OF assms(1) FileJobStore]) (simp_all add: dispatched_def)
  next
    case (MemoryJobStore s)
    with ok run show ?thesis
      by (intro simulates_inside [where wrap = MemoryJobStore and any = "any_ok load" and any_amap = "any_map load", OF assms(2) MemoryJobStore]) (simp_all add: dispatched_def)
  qed
qed

lemma any_store_is_job_store:
  assumes "codec_ok dump load"
  shows "job_store (any_store_ops dump load) (any_ok load) (any_map load)"
proof -
  note f = file_store_is_job_store [OF assms] and m = mem.job_store_axioms
  note sims = job_store.store_sims [OF f] job_store.store_sims [OF m]
  show ?thesis
  proof (rule job_store.intro)
    show "store_wf (any_map load s)" if "any_ok load s" for s
      using that job_store.inv_wf [OF f] job_store.inv_wf [OF m] by (cases s) auto
  qed (use sims in \<open>simp_all add: any_store_ops_def simulates_dispatched\<close>)
qed

text \<open>The queue, over both adapters and over the process-local one alone, which never runs out of room.\<close>

fun any_queue_rel :: "('r \<Rightarrow> aqueue \<Rightarrow> bool) \<Rightarrow> 'r any_queue \<Rightarrow> aqueue \<Rightarrow> bool" where
  "any_queue_rel rel (MemoryForecastQueue m) a = mq_rel m a"
| "any_queue_rel rel (RedisForecastQueue r) a = rel r a"

fun any_queue_room :: "('r \<Rightarrow> bool) \<Rightarrow> 'r any_queue \<Rightarrow> bool" where
  "any_queue_room room (MemoryForecastQueue m) = True"
| "any_queue_room room (RedisForecastQueue r) = room r"

lemma any_queue_is_forecast_queue:
  assumes "forecast_queue (redis_queue_ops R n t) rel room"
  shows "forecast_queue (any_queue_ops R n t) (any_queue_rel rel) (any_queue_room room)"
proof -
  note r = forecast_queue.rel_ok [OF assms] forecast_queue.enqueue_rel [OF assms]
    forecast_queue.dequeue_rel [OF assms] forecast_queue.completed_rel [OF assms] forecast_queue.failed_rel [OF assms]
  note m = mem_queue.rel_ok mem_queue.enqueue_rel mem_queue.dequeue_rel mem_queue.completed_rel mem_queue.failed_rel
  show ?thesis
  proof (rule forecast_queue.intro)
    show "aq_ok a" if "any_queue_rel rel q a" for q a using that r(1) m(1) by (cases q) auto
  qed (use r m in \<open>auto simp: any_queue_ops_def redis_queue_ops_def split: any_queue.splits\<close>)
qed

lemma memory_part_is_forecast_queue:
  fixes R :: "'r redis_ops"
  shows "forecast_queue (any_queue_ops R n t) (any_queue_rel (\<lambda>_ _. False)) (\<lambda>_. True)"
proof -
  have "forecast_queue (redis_queue_ops R n t) (\<lambda>_ _. False) (\<lambda>_. True)" by (rule forecast_queue.intro) auto
  moreover have "(any_queue_room (\<lambda>_. True) :: 'r any_queue \<Rightarrow> bool) = (\<lambda>_. True)"
  proof
    show "any_queue_room (\<lambda>_. True) q = True" for q :: "'r any_queue" by (cases q) auto
  qed
  ultimately show ?thesis using any_queue_is_forecast_queue [of R n t "\<lambda>_ _. False" "\<lambda>_. True"] by simp
qed

lemma any_is_provider: "provider_port any_as_provider any_usable"
proof
  fix p :: "'n any_provider \<times> 'n provider_state" and j :: forecast_job
  assume "any_usable p" and "flt_between (- 90) (latitude j) 90" and "flt_between (- 180) (longitude j) 180"
  then show "answer_ok (get_provider_result (any_as_provider p) j)"
    using mock.recordable fourcastnet.recordable by (cases p rule: any_usable.cases) auto
qed

interpretation configured: provider_port any_as_provider any_usable
  by (rule any_is_provider)

section \<open>The facade over the abstract map of jobs\<close>

text \<open>The same service over the abstract map. Every method of the facade answers as this one does and
  moves the stored jobs as this one moves the map, whichever store is configured.\<close>

definition reference_service :: "'s job_service \<Rightarrow> job_map job_service" where
  "reference_service svc =
     \<lparr>js_store = ref_store, js_provider = js_provider svc, js_float_str = js_float_str svc,
      js_retention_hours = js_retention_hours svc, js_stale_timeout_seconds = js_stale_timeout_seconds svc\<rparr>"

context job_store
begin

lemma facade_commands:
  assumes "js_store svc = st"
  shows "simulates ok amap (\<lambda>_. True) (service_create_job svc lat lon) (service_create_job (reference_service svc) lat lon)"
    and "simulates ok amap (\<lambda>_. True) (service_cancel_job svc jid) (service_cancel_job (reference_service svc) jid)"
    and "simulates ok amap (\<lambda>_. True) (service_retry_job svc jid) (service_retry_job (reference_service svc) jid)"
    and "simulates ok amap (\<lambda>_. True) (service_cleanup_jobs svc h X) (service_cleanup_jobs (reference_service svc) h X)"
  using assms sim_submit sim_cancel sim_retry sim_cleanup by (simp_all add: service_defs reference_service_def)

lemma facade_queries:
  assumes "js_store svc = st"
  shows "simulates ok amap (\<lambda>_. True) (service_get_job svc jid) (service_get_job (reference_service svc) jid)"
    and "simulates ok amap (\<lambda>_. True) (service_list_recent_jobs svc n s') (service_list_recent_jobs (reference_service svc) n s')"
    and "simulates ok amap (\<lambda>_. True) (service_poll_job svc jid) (service_poll_job (reference_service svc) jid)"
  using assms sim_get_job sim_list_recent_jobs sim_poll_job by (simp_all add: service_defs reference_service_def)

lemma facade_runs:
  assumes "js_store svc = st"
  shows "simulates ok amap (\<lambda>_. True) (service_recover_interrupted_jobs svc t) (service_recover_interrupted_jobs (reference_service svc) t)"
    and "(\<And>j. answer_storable (get_provider_result (js_provider svc jid) j)) \<Longrightarrow>
      simulates ok amap (\<lambda>_. True) (service_run_job svc jid) (service_run_job (reference_service svc) jid)"
  using assms sim_recover sim_run_execute by (simp_all add: service_defs reference_service_def)

end

section \<open>Startup\<close>

text \<open>With the process-local queue, which is empty when the application starts, every job has ended when
  the startup is done.\<close>

lemma build_container_Inr:
  assumes "build_container libs directory server st override = Inr c"
  shows "ct_settings c = st" and "ct_queue c = build_forecast_queue st server"
    and "ct_store c = (if set_job_store_backend st = FileBackend then FileJobStore directory else MemoryJobStore empty_memory_store)"
    and "ct_provider c = (case override of None \<Rightarrow> build_forecast_provider libs (app_settings.truncate st) | Some p \<Rightarrow> p)"
    and "set_job_store_backend st \<noteq> PostgresBackend"
  using assms
  by (auto simp: build_container_def Let_def build_forecast_job_store_def bindE_Inr split: if_splits)

text \<open>A process without an environment runs on the in-memory store and queue with the mock provider.\<close>

lemma default_container:
  "settings_valid default_settings"
  "build_container libs directory server default_settings None =
     Inr \<lparr>ct_settings = default_settings, ct_provider = MockForecastProvider (pl_math libs),
          ct_store = MemoryJobStore empty_memory_store, ct_queue = MemoryForecastQueue empty_memory_queue\<rparr>"
  by (simp_all add: settings_valid_def default_settings_def build_container_def build_forecast_job_store_def
      build_forecast_queue_def build_forecast_provider_def app_settings.truncate_def)

lemma lifespan_ends_every_job:
  assumes "codec_ok dump load" and "js_store svc = any_store_ops dump load"
    and "\<And>k. \<exists>p. any_usable p \<and> js_provider svc k = any_as_provider p" and "any_ok load (stored w)"
    and "minus_seconds (clock_fn w (ticks w)) (js_stale_timeout_seconds svc) = Inr limit"
    and "mq_rel q \<lparr>pend = [], flight = Map.empty\<rparr>"
  shows "\<exists>rep q' w'. lifespan svc (any_queue_ops R n t) (MemoryForecastQueue q) w = Some (Inr rep, q', w') \<and>
    dom (any_map load (stored w')) = dom (any_map load (stored w)) \<and>
    (\<forall>k j. any_map load (stored w') k = Some j \<longrightarrow> status j \<in> TERMINAL_JOB_STATUSES)"
proof -
  have "minus_seconds (clock_fn w (ticks w)) (int_or None (js_stale_timeout_seconds svc)) = Inr limit"
    using assms(5) by (simp add: int_or_def)
  from configured.startup_ends_every_job [where pv = "js_provider svc" and pr = DEFAULT_FORECAST_JOB_PRIORITY,
      OF any_store_is_job_store [OF assms(1)] memory_part_is_forecast_queue [of R n t] assms(3,4) this, of "MemoryForecastQueue q"]
  show ?thesis using assms(2,6)
    by (auto simp: lifespan_def service_recover_interrupted_jobs_def)
qed

end
