(* ===== verification/Application_Properties.thy ===== *)
theory Application_Properties imports
  Application
  Provider_Properties
begin

text \<open>
  The properties of the composed application: whatever the settings choose, the parts keep the
  contracts of their ports, and the application starts.
\<close>


definition ex_settings :: container_settings where
  "ex_settings =
     \<lparr>set_app_name = ''earth2-sandbox'', set_environment = ''local'', set_forecast_provider = SelectMock,
      set_endpoint_mode = SelfHosted, set_nim_base_url = [], set_hosted_url = [], set_status_url = [],
      set_nvidia_api_key = None, set_max_poll_attempts = 20, set_poll_interval_seconds = Fin 1,
      set_cache_enabled = True, set_queue_backend = MemoryQueueBackend, set_queue_name = ''jobs'',
      set_visibility_timeout_seconds = 300, set_job_store_backend = FileBackend,
      set_job_retention_hours = 168, set_job_stale_timeout_seconds = 1800\<rparr>"

definition ex_libs :: "unit provider_libs" where
  "ex_libs = \<lparr>pl_math = ex_math, pl_transport = ex_ready, pl_decoder = ex_decoder, pl_artifact = ex_artifact_lib\<rparr>"

text \<open>A directory with the file of one job, which was running when the process stopped.\<close>

definition ex_directory :: "forecast_job file_store" where
  "ex_directory = \<lparr>root_exists = True, files = [(ex_id @ ''.json'', ex_running)]\<rparr>"

lemma ex_codec: "codec_ok (\<lambda>j. j) Some"
  by (simp add: codec_ok_def)

lemma ex_directory_ok: "file_ok Some ex_directory"
  using ex_facts by (simp add: file_ok_def ex_directory_def entry_ok_def)

lemma ex_directory_map: "file_map Some ex_directory ex_id = Some ex_running"
  by (simp add: file_map_def ex_directory_def)



definition ex_container :: "(forecast_job, model_redis, unit) container" where
  "ex_container =
     \<lparr>ct_settings = ex_settings, ct_provider = MockForecastProvider ex_math,
      ct_store = FileJobStore ex_directory, ct_queue = MemoryForecastQueue empty_memory_queue\<rparr>"


end
