(* ===== verification/Sample_Tools.thy ===== *)
theory Sample_Tools imports
  Forecast_Api
begin

text \<open>
  The two scripts that exercise the hosted model outside the server: \<open>tools/smoke_hosted_fourcastnet.py\<close>,
  which runs one inference and saves the archive, and \<open>tools/replay_fourcastnet_sample.py\<close>, which
  decodes a saved one. The document that a script prints is the list of its fields; \<open>dump_step\<close> is
  pydantic's JSON of a timeline step. An exception that leaves the script is \<open>Crashed\<close>.
\<close>

datatype tool_exit = SystemExit string | ExitCode int | Crashed

record 'n tool_state = "'n net_state" +
  written :: "(string \<times> bytes) list"
  document :: "(string \<times> json) list option"

definition SEOUL_LATITUDE :: pyfloat where "SEOUL_LATITUDE = decimal 375665 4"

definition SEOUL_LONGITUDE :: pyfloat where "SEOUL_LONGITUDE = decimal 1269780 4"

fun json_of_value :: "dict_value \<Rightarrow> json" where
  "json_of_value DNone = JNull"
| "json_of_value (DStr s) = JString s"
| "json_of_value (DInt i) = JInt i"
| "json_of_value (DBool b) = JBool b"

definition json_ints :: "int list \<Rightarrow> json" where
  "json_ints xs = JArray (map JInt xs)"

section \<open>Redaction\<close>

definition sanitize_diagnostics :: "diag_dict \<Rightarrow> diag_dict" where
  "sanitize_diagnostics d =
     filter (\<lambda>(key, val). py_lower key \<notin> {''token'', ''authorization'', ''api_key'', ''apikey''}) d"

text \<open>The preview of a JSON body; here the last name of the set is in mixed case.\<close>

definition preview_summary :: "json \<Rightarrow> json" where
  "preview_summary preview =
     (case preview of
        JObject obj \<Rightarrow>
          JObject (filter (\<lambda>(key, val). py_lower key \<notin> {''token'', ''authorization'', ''api_key'', ''apiKey''}) obj)
      | _ \<Rightarrow> preview)"

definition opt_json_value :: "json option \<Rightarrow> json" where
  "opt_json_value v = (case v of None \<Rightarrow> JNull | Some j \<Rightarrow> j)"

section \<open>The smoke test\<close>

definition smoke_client :: "app_settings \<Rightarrow> string \<Rightarrow> nim_client" where
  "smoke_client st key =
     \<lparr>base_url = set_hosted_url st, client_mode = Hosted, api_key = Some key,
      status_url = ''https://api.nvcf.nvidia.com/v2/nvcf/pexec/status'', max_poll_attempts = 20,
      poll_interval_seconds = Fin 1\<rparr>"

definition smoke_request :: hosted_request where
  "smoke_request =
     \<lparr>req_input_id = 0, req_variables = FOURCASTNET_POINT_VARIABLES, req_simulation_length = 1,
      req_ensemble_size = 1, req_noise_amplitude = NFlt (Fin 0), req_accept = AcceptTar, req_poll_seconds = 10\<rparr>"

definition smoke_error_document :: "string \<Rightarrow> diag_dict \<Rightarrow> (string \<times> json) list" where
  "smoke_error_document message d =
     [(''ok'', JBool False), (''case'', JString ''point_tar''), (''error'', JString message),
      (''diagnostics'', JObject (map (\<lambda>(k, v). (k, json_of_value v)) (sanitize_diagnostics d))),
      (''request_payload'', JObject (build_hosted_inference_payload smoke_request)),
      (''note'', JString (''Hosted inference reached NVIDIA but did not return a usable '' @
                          ''tar or responseReference.''))]"

definition smoke_json_document :: "hosted_result \<Rightarrow> (string \<times> json) list" where
  "smoke_json_document r =
     [(''ok'', JBool False), (''case'', JString ''point_tar''), (''status_code'', JInt (res_status_code r)),
      (''content_type'', JString (res_content_type r)), (''byte_length'', JInt (res_byte_length r)),
      (''sha256_prefix'', JString (take 12 (res_sha256 r))),
      (''nvcf_request_id'', opt_json (res_nvcf_request_id r)), (''nvcf_status'', opt_json (res_nvcf_status r)),
      (''large_asset_message'', opt_json (res_large_asset_message r)),
      (''poll_attempts'', JInt (res_poll_attempts r)),
      (''response_source'', JString (response_source_str (res_response_source r))),
      (''response_reference_present'', JBool (res_response_reference_present r)),
      (''decoded_member_count'', JInt 0),
      (''json_preview'', preview_summary (opt_json_value (res_json_preview r))),
      (''note'', JString ''Expected application/x-tar, but NVIDIA returned JSON.'')]"

text \<open>What both scripts print of a forecast; \<open>hd\<close> is the first step, which a forecast always has.\<close>

definition forecast_fields :: "(timeline_step \<Rightarrow> json) \<Rightarrow> decoded_tar_summary \<Rightarrow> forecast_summary \<Rightarrow> (string \<times> json) list" where
  "forecast_fields dump_step decoded s =
     [(''decoded_member_count'', JInt (int (dt_member_count decoded))),
      (''decoded_lead_hours'', json_ints (dt_lead_time_hours decoded)),
      (''decoded_batch_indices'', json_ints (dt_batch_indices decoded)),
      (''forecast_provider'', JString (provider_str (summary_provider s))),
      (''forecast_lead_hours'', json_ints (lead_hours (forecast_window_of s))),
      (''first_step'', dump_step (hd (timeline s)))]"

definition smoke_ok_document :: "(timeline_step \<Rightarrow> json) \<Rightarrow> hosted_result \<Rightarrow> string \<Rightarrow> decoded_tar_summary \<Rightarrow>
    forecast_summary \<Rightarrow> (string \<times> json) list" where
  "smoke_ok_document dump_step r path decoded s =
     [(''ok'', JBool True), (''case'', JString ''point_tar''), (''status_code'', JInt (res_status_code r)),
      (''content_type'', JString (res_content_type r)), (''byte_length'', JInt (res_byte_length r)),
      (''sha256_prefix'', JString (take 12 (res_sha256 r))), (''poll_attempts'', JInt (res_poll_attempts r)),
      (''response_source'', JString (response_source_str (res_response_source r))),
      (''response_reference_present'', JBool (res_response_reference_present r)),
      (''saved_tar'', JString path)] @ forecast_fields dump_step decoded s"

text \<open>\<open>now\<close> is the time of the forecast and \<open>stamp\<close> the time in the file name.\<close>

definition smoke_main :: "nim_lib \<Rightarrow> decoder_lib \<Rightarrow> 'n transport \<Rightarrow> (timeline_step \<Rightarrow> json) \<Rightarrow> app_settings \<Rightarrow>
    datetime \<Rightarrow> string \<Rightarrow> 'n tool_state \<Rightarrow> tool_exit \<times> 'n tool_state" where
  "smoke_main lib dec transport dump_step st now stamp s =
     (case set_nvidia_api_key st of
        None \<Rightarrow> (SystemExit ''NVIDIA_API_KEY_CONFIGURED=false'', s)
      | Some key \<Rightarrow>
          (case run_hosted_inference lib (smoke_client st key) transport smoke_request s of
             (Inl (InferenceError m d), s1) \<Rightarrow> (ExitCode 1, s1\<lparr>document := Some (smoke_error_document m d)\<rparr>)
           | (Inl _, s1) \<Rightarrow> (Crashed, s1)
           | (Inr r, s1) \<Rightarrow>
               (case decode_hosted_result dec r of
                  Inl _ \<Rightarrow> (Crashed, s1)
                | Inr None \<Rightarrow> (ExitCode 0, s1\<lparr>document := Some (smoke_json_document r)\<rparr>)
                | Inr (Some decoded) \<Rightarrow>
                    (case build_summary_from_hosted_result dec now r smoke_request SEOUL_LATITUDE SEOUL_LONGITUDE (Some now) of
                       Inl _ \<Rightarrow> (Crashed, s1)
                     | Inr f \<Rightarrow>
                         (let path = ''data/samples/fourcastnet_hosted_'' @ stamp @ ''.tar'';
                              content = (case res_raw_content r of None \<Rightarrow> [] | Some b \<Rightarrow> b)
                          in (ExitCode 0,
                              s1\<lparr>written := AList.update path content (written s1),
                                 document := Some (smoke_ok_document dump_step r path decoded f)\<rparr>))))))"

section \<open>The replay\<close>

text \<open>\<open>max(candidates, key=mtime)\<close> keeps the first of equals. \<open>argument\<close> is \<open>sys.argv[1]\<close> if there is
  one, \<open>saved\<close> the archives of the two directories in the order they are listed.\<close>

definition newest :: "(string \<Rightarrow> rat) \<Rightarrow> string list \<Rightarrow> string" where
  "newest mtime paths = foldl (\<lambda>m p. if mtime m < mtime p then p else m) (hd paths) (tl paths)"

definition resolve_tar_path :: "(string \<Rightarrow> bytes option) \<Rightarrow> (string \<Rightarrow> rat) \<Rightarrow> string list \<Rightarrow> string option \<Rightarrow> string option" where
  "resolve_tar_path files mtime saved argument =
     (case argument of
        Some path \<Rightarrow> if files path \<noteq> None then Some path else None
      | None \<Rightarrow> if saved = [] then None else Some (newest mtime saved))"

definition replay_request :: hosted_request where
  "replay_request = smoke_request\<lparr>req_poll_seconds := 5\<rparr>"

definition replay_main :: "decoder_lib \<Rightarrow> (timeline_step \<Rightarrow> json) \<Rightarrow> (string \<Rightarrow> bytes option) \<Rightarrow> (string \<Rightarrow> rat) \<Rightarrow>
    string list \<Rightarrow> datetime \<Rightarrow> string option \<Rightarrow> tool_exit \<times> (string \<times> json) list option" where
  "replay_main dec dump_step files mtime saved now argument =
     (case resolve_tar_path files mtime saved argument of
        None \<Rightarrow>
          (ExitCode 1,
           Some [(''ok'', JBool False),
                 (''error'', JString ''No sample tar found. Pass a path or run hosted smoke first.''),
                 (''searched'', JArray [JString ''data/samples/*.tar'', JString ''data/cache/fourcastnet/*.tar''])])
      | Some path \<Rightarrow>
          (case files path of
             None \<Rightarrow> (Crashed, None)
           | Some content \<Rightarrow>
               (case decode_tar_bytes dec content of
                  Inl _ \<Rightarrow> (Crashed, None)
                | Inr decoded \<Rightarrow>
                    (case build_summary_from_tar_bytes dec now content replay_request SEOUL_LATITUDE SEOUL_LONGITUDE (Some now) of
                       Inl _ \<Rightarrow> (Crashed, None)
                     | Inr f \<Rightarrow>
                         (ExitCode 0,
                          Some ([(''ok'', JBool True), (''sample_tar'', JString path),
                                 (''byte_length'', JInt (int (length content)))] @
                                forecast_fields dump_step decoded f))))))"

section \<open>Lemmas\<close>

text \<open>The request matters to the decoder only by its variables.\<close>

lemma build_summary_request:
  "req_variables r = req_variables r' \<Longrightarrow>
     build_summary_from_tar_bytes lib now content r la lo g = build_summary_from_tar_bytes lib now content r' la lo g"
  by (simp add: build_summary_from_tar_bytes_def)

lemma hosted_result_decoded:
  assumes "decode_hosted_result dec r = Inr (Some decoded)"
    and "build_summary_from_hosted_result dec now r req la lo g = Inr f"
  obtains content where "res_raw_content r = Some content" and "decode_tar_bytes dec content = Inr decoded"
    and "build_summary_from_tar_bytes dec now content req la lo g = Inr f"
  using assms
  by (auto simp: decode_hosted_result_def build_summary_from_hosted_result_def bindE_Inr
      split: option.splits if_splits)

text \<open>The good end of a smoke test.\<close>

lemma smoke_main_ok:
  assumes "smoke_main lib dec transport dump_step st now stamp s = (ExitCode 0, s')"
    and "document s' = Some doc" and "map_of doc ''ok'' = Some (JBool True)" and "document s = None"
  obtains r content decoded f where "res_raw_content r = Some content"
    and "decode_tar_bytes dec content = Inr decoded"
    and "build_summary_from_tar_bytes dec now content smoke_request SEOUL_LATITUDE SEOUL_LONGITUDE (Some now) = Inr f"
    and "map_of (written s') (''data/samples/fourcastnet_hosted_'' @ stamp @ ''.tar'') = Some content"
    and "doc = smoke_ok_document dump_step r (''data/samples/fourcastnet_hosted_'' @ stamp @ ''.tar'') decoded f"
proof -
  obtain key where key: "set_nvidia_api_key st = Some key"
    using assms(1) by (auto simp: smoke_main_def split: option.splits)
  obtain x s1 where run: "run_hosted_inference lib (smoke_client st key) transport smoke_request s = (x, s1)" by fastforce
  obtain r where x: "x = Inr r"
    using assms(1) by (cases x) (auto simp: smoke_main_def key run split: nim_error.splits)
  obtain decoded where d: "decode_hosted_result dec r = Inr (Some decoded)"
    using assms(1-3) by (auto simp: smoke_main_def key run x smoke_json_document_def split: sum.splits option.splits)
  obtain f where f: "build_summary_from_hosted_result dec now r smoke_request SEOUL_LATITUDE SEOUL_LONGITUDE (Some now) = Inr f"
    using assms(1) by (auto simp: smoke_main_def key run x d split: sum.splits)
  obtain content where c: "res_raw_content r = Some content" "decode_tar_bytes dec content = Inr decoded"
    "build_summary_from_tar_bytes dec now content smoke_request SEOUL_LATITUDE SEOUL_LONGITUDE (Some now) = Inr f"
    by (rule hosted_result_decoded [OF d f]) (rule that)
  show thesis
    by (rule that [OF c]) (use assms(1,2) in \<open>auto simp: smoke_main_def key run x d f c(1) Let_def\<close>)
qed

text \<open>A replay of given bytes.\<close>

lemma replay_main_ok:
  assumes "files path = Some content" and "decode_tar_bytes dec content = Inr decoded"
    and "build_summary_from_tar_bytes dec now content replay_request SEOUL_LATITUDE SEOUL_LONGITUDE (Some now) = Inr f"
  shows "replay_main dec dump_step files mtime saved now (Some path) =
    (ExitCode 0, Some ([(''ok'', JBool True), (''sample_tar'', JString path), (''byte_length'', JInt (int (length content)))] @
       forecast_fields dump_step decoded f))"
  using assms by (simp add: replay_main_def resolve_tar_path_def)

text \<open>The redaction of the diagnostics is complete; the one of the JSON preview lets the name it spells
  in mixed case through.\<close>

lemma sanitize_diagnostics_redacts: "(key, val) \<in> set (sanitize_diagnostics d) \<Longrightarrow> py_lower key \<noteq> ''apikey''"
  by (auto simp: sanitize_diagnostics_def)

lemma preview_leaks_api_key:
  "preview_summary (JObject [(''apiKey'', JString secret)]) = JObject [(''apiKey'', JString secret)]"
proof -
  have "py_lower ''apiKey'' = ''apikey''" by code_simp
  then show ?thesis by (simp add: preview_summary_def)
qed

end
