(* ===== verification/Dev_Doctor.thy ===== *)
theory Dev_Doctor imports
  Artifact_Cache
begin

text \<open>
  The diagnostics script \<open>tools/dev_doctor.py\<close>: what it looks at is a \<open>host\<close>, what it prints and
  counts is a \<open>doctor\<close>, and every check is a function on doctors. The calls into \<open>pathlib\<close>,
  \<open>subprocess\<close>, \<open>socket\<close> and \<open>urllib\<close> are the fields of the host; paths are lists of components below
  the repository root.
\<close>

section \<open>The report\<close>

record doctor =
  failures :: int
  doctor_warnings :: int
  printed :: "string list"

definition new_doctor :: doctor where
  "new_doctor = \<lparr>failures = 0, doctor_warnings = 0, printed = []\<rparr>"

definition say_ok :: "string \<Rightarrow> string \<Rightarrow> doctor \<Rightarrow> doctor" where
  "say_ok label detail d = d\<lparr>printed := printed d @ [''[OK]   '' @ label @ '': '' @ detail]\<rparr>"

definition say_warn :: "string \<Rightarrow> string \<Rightarrow> doctor \<Rightarrow> doctor" where
  "say_warn label detail d =
     d\<lparr>doctor_warnings := doctor_warnings d + 1, printed := printed d @ [''[WARN] '' @ label @ '': '' @ detail]\<rparr>"

definition say_fail :: "string \<Rightarrow> string \<Rightarrow> doctor \<Rightarrow> doctor" where
  "say_fail label detail d =
     d\<lparr>failures := failures d + 1, printed := printed d @ [''[FAIL] '' @ label @ '': '' @ detail]\<rparr>"

definition finish :: "doctor \<Rightarrow> int \<times> doctor" where
  "finish d =
     (if failures d \<noteq> 0 then 1 else 0,
      d\<lparr>printed := printed d @ [[], ''Doctor finished with '' @ int_str (failures d) @ '' failure(s), '' @
                                  int_str (doctor_warnings d) @ '' warning(s).'']\<rparr>)"

section \<open>The machine\<close>

text \<open>\<open>run_command\<close> gives the message of an \<open>OSError\<close> or \<open>SubprocessError\<close>, or the two outputs and the
  exit code; \<open>read_file\<close> the text of a file that exists; \<open>fetch_json\<close> and \<open>fetch_text\<close> what a URL
  returns, if anything; \<open>same_root\<close> whether the resolved root is the recommended one, unless
  resolving fails; \<open>inside_repo\<close> whether a configured directory resolves below the root;
  \<open>py_str\<close> is \<open>str\<close> of a JSON value or of \<open>None\<close>.\<close>

record host =
  root_path :: string
  root_parts :: "string list"
  on_windows :: bool
  same_root :: "bool option"
  path_exists :: "string list \<Rightarrow> bool"
  path_str :: "string list \<Rightarrow> string"
  which :: "string \<Rightarrow> string option"
  run_command :: "string list \<Rightarrow> string + (string \<times> string \<times> int)"
  read_file :: "string list \<Rightarrow> string option"
  inside_repo :: "string \<Rightarrow> bool"
  port_open :: "string \<Rightarrow> int \<Rightarrow> bool"
  fetch_json :: "string \<Rightarrow> json option"
  fetch_text :: "string \<Rightarrow> string option"
  py_str :: "json option \<Rightarrow> string"

section \<open>The \<open>.env\<close> reader\<close>

text \<open>\<open>str.splitlines()\<close> on ASCII text, where \<open>cr\<close> remembers a carriage return, which a line feed
  joins.\<close>

definition line_break :: "char \<Rightarrow> bool" where
  "line_break c = (c \<in> {CHR 0x0A, CHR 0x0B, CHR 0x0C, CHR 0x0D, CHR 0x1C, CHR 0x1D, CHR 0x1E})"

fun split_lines :: "string \<Rightarrow> string \<Rightarrow> string list" where
  "split_lines acc [] = (if acc = [] then [] else [rev acc])"
| "split_lines acc (c # s) =
     (if c = CHR 0x0D
      then (case s of
              d # s' \<Rightarrow> if d = CHR 0x0A then rev acc # split_lines [] s' else rev acc # split_lines [] s
            | [] \<Rightarrow> [rev acc])
      else if line_break c then rev acc # split_lines [] s
      else split_lines (c # acc) s)"

definition env_line :: "string \<Rightarrow> (string \<times> string) option" where
  "env_line line =
     (let stripped = py_strip line in
      if stripped = [] \<or> take 1 stripped = ''#'' \<or> CHR ''='' \<notin> set stripped then None
      else
        (let key = takeWhile (\<lambda>c. c \<noteq> CHR ''='') stripped;
             val = drop 1 (dropWhile (\<lambda>c. c \<noteq> CHR ''='') stripped)
         in Some (py_strip key,
                  strip_chars (\<lambda>c. c = CHR 0x27) (strip_chars (\<lambda>c. c = CHR 0x22) (py_strip val)))))"

definition parse_env :: "string \<Rightarrow> (string \<times> string) list" where
  "parse_env text =
     foldl (\<lambda>values line. case env_line line of None \<Rightarrow> values | Some (k, v) \<Rightarrow> AList.update k v values)
       [] (split_lines [] text)"

definition read_env :: "host \<Rightarrow> string list \<Rightarrow> (string \<times> string) list" where
  "read_env h path = (case read_file h path of None \<Rightarrow> [] | Some text \<Rightarrow> parse_env text)"

section \<open>The checks\<close>

definition check_repo_path :: "host \<Rightarrow> doctor \<Rightarrow> doctor" where
  "check_repo_path h d =
     (let d = say_ok ''repo root'' (root_path h) d;
          parts = map py_lower (root_parts h);
          d = (if ''onedrive'' \<in> set parts \<or> (\<exists>part\<in>set parts. contains ''onedrive'' part)
               then say_warn ''repo path''
                      (''Repository is under OneDrive; C:'' @ [CHR 0x5C] @ ''dev'' @ [CHR 0x5C] @
                       ''earth2-sandbox is safer.'') d
               else d)
      in if on_windows h \<and> same_root h \<noteq> Some True
         then say_warn ''repo path''
                (''Recommended Windows path is C:'' @ [CHR 0x5C] @ ''dev'' @ [CHR 0x5C] @ ''earth2-sandbox.'') d
         else d)"

definition EXPECTED_FILES :: "string list list" where
  "EXPECTED_FILES =
     [[''pyproject.toml''], [''.env.example''], [''src'', ''earth2_sandbox'', ''app.py''],
      [''apps'', ''mobile'', ''package.json''], [''apps'', ''mobile'', ''.env.example'']]"

definition check_expected_files :: "host \<Rightarrow> doctor \<Rightarrow> doctor" where
  "check_expected_files h d =
     foldl (\<lambda>d path. if path_exists h path then say_ok ''file'' (path_str h path) d
                     else say_fail ''file'' (''Missing '' @ path_str h path) d) d EXPECTED_FILES"

definition find_command :: "host \<Rightarrow> string \<Rightarrow> string" where
  "find_command h command = opt_str_or (which h command) []"

definition runtime_commands :: "host \<Rightarrow> (string \<times> string list) list" where
  "runtime_commands h =
     [(''python'', [path_str h [root_path h, ''.venv'', ''Scripts'', ''python.exe''], ''--version'']),
      (''npm'', [find_command h ''npm'', ''--version'']), (''node'', [find_command h ''node'', ''--version''])]"

definition check_runtime_command :: "host \<Rightarrow> doctor \<Rightarrow> string \<times> string list \<Rightarrow> doctor" where
  "check_runtime_command h d = (\<lambda>(label, command).
     if hd command = [] then say_fail label (label @ '' was not found on PATH.'') d
     else (case run_command h command of
             Inl message \<Rightarrow> say_fail label message d
           | Inr (out, err, code) \<Rightarrow>
               (let output = py_strip (str_or out err) in
                if code = 0 then say_ok label output d
                else say_fail label (str_or output (''Command exited '' @ int_str code)) d)))"

definition check_runtime_commands :: "host \<Rightarrow> doctor \<Rightarrow> doctor" where
  "check_runtime_commands h d = foldl (check_runtime_command h) d (runtime_commands h)"

definition env_get :: "(string \<times> string) list \<Rightarrow> string \<Rightarrow> string \<Rightarrow> string" where
  "env_get env key fallback = (case map_of env key of None \<Rightarrow> fallback | Some v \<Rightarrow> v)"

definition PROVIDER_KEY :: string where "PROVIDER_KEY = ''EARTH2_FORECAST_PROVIDER''"

definition API_KEY_KEY :: string where "API_KEY_KEY = ''EARTH2_NVIDIA_API_KEY''"

definition check_env_files :: "host \<Rightarrow> doctor \<Rightarrow> doctor" where
  "check_env_files h d =
     (let root_env = read_env h [''.env''];
          mobile_env = read_env h [''apps'', ''mobile'', ''.env''];
          backend = ''backend env'';
          provider = env_get root_env PROVIDER_KEY [];
          d = (if provider \<noteq> [] then say_ok backend (PROVIDER_KEY @ ''='' @ provider) d
               else say_warn backend ''.env is missing or EARTH2_FORECAST_PROVIDER is not set.'' d);
          d = (if env_get root_env API_KEY_KEY [] \<noteq> []
               then say_ok backend ''EARTH2_NVIDIA_API_KEY is set without printing the value.'' d
               else say_warn backend ''EARTH2_NVIDIA_API_KEY is empty; hosted mode will not run.'' d);
          cache_dir = env_get root_env ''EARTH2_FOURCASTNET_CACHE_DIR'' ''./data/cache/fourcastnet'';
          d = say_ok backend (''EARTH2_FOURCASTNET_CACHE_DIR='' @ cache_dir) d;
          d = (if \<not> inside_repo h cache_dir
               then say_warn backend ''FourCastNet cache dir is outside the repository workspace.'' d else d);
          store = env_get root_env ''EARTH2_FORECAST_JOB_STORE_BACKEND'' ''memory'';
          store_dir = env_get root_env ''EARTH2_FORECAST_JOB_STORE_DIR'' ''./data/jobs'';
          retention = env_get root_env ''EARTH2_FORECAST_JOB_RETENTION_HOURS'' ''168'';
          stale = env_get root_env ''EARTH2_FORECAST_JOB_STALE_TIMEOUT_SECONDS'' ''1800'';
          d = say_ok backend (''EARTH2_FORECAST_JOB_STORE_BACKEND='' @ store) d;
          d = say_ok backend (''EARTH2_FORECAST_JOB_STORE_DIR='' @ store_dir) d;
          d = say_ok backend (''EARTH2_FORECAST_JOB_RETENTION_HOURS='' @ retention) d;
          d = say_ok backend (''EARTH2_FORECAST_JOB_STALE_TIMEOUT_SECONDS='' @ stale) d;
          d = (if \<not> inside_repo h store_dir
               then say_warn backend ''Forecast job store dir is outside the repository workspace.'' d else d);
          mobile_api = env_get mobile_env ''EXPO_PUBLIC_API_BASE_URL'' []
      in if mobile_api \<noteq> [] then say_ok ''mobile env'' (''EXPO_PUBLIC_API_BASE_URL='' @ mobile_api) d
         else say_warn ''mobile env'' ''apps/mobile/.env is missing; platform fallback URLs will be used.'' d)"

definition check_port :: "host \<Rightarrow> string \<Rightarrow> string \<Rightarrow> int \<Rightarrow> doctor \<Rightarrow> doctor" where
  "check_port h label address port d =
     (if port_open h address port then say_ok label (address @ '':'' @ int_str port @ '' is listening'') d
      else say_warn label (address @ '':'' @ int_str port @ '' is not listening'') d)"

text \<open>A true JSON value that is not an object has no \<open>get\<close>: \<open>None\<close> is the \<open>AttributeError\<close>.\<close>

definition report_json :: "host \<Rightarrow> string \<Rightarrow> string \<Rightarrow> ((string \<times> json) list \<Rightarrow> string) \<Rightarrow> string \<Rightarrow>
    doctor \<Rightarrow> doctor option" where
  "report_json h url label describe warning d =
     (case fetch_json h url of
        None \<Rightarrow> Some (say_warn label warning d)
      | Some j \<Rightarrow>
          if \<not> json_truthy j then Some (say_warn label warning d)
          else (case j of JObject obj \<Rightarrow> Some (say_ok label (describe obj) d) | _ \<Rightarrow> None))"

definition check_ports_and_http :: "host \<Rightarrow> doctor \<Rightarrow> doctor option" where
  "check_ports_and_http h d =
     (let field = (\<lambda>obj name. py_str h (map_of obj name));
          base = ''http://127.0.0.1:8000'';
          d = check_port h ''backend port'' ''127.0.0.1'' 8000 d;
          d = check_port h ''expo web port'' ''127.0.0.1'' 8081 d
      in Option.bind (report_json h (base @ ''/'') ''backend /''
            (\<lambda>f. ''service='' @ field f ''service'' @ '' status='' @ field f ''status'')
            ''Backend root did not return JSON.'' d) (\<lambda>d.
         Option.bind (report_json h (base @ ''/health'') ''backend health''
            (\<lambda>f. ''provider='' @ field f ''forecast_provider'' @ '' mock='' @ field f ''mock_forecast'')
            ''Start uvicorn on 127.0.0.1:8000 to enable health checks.'' d) (\<lambda>d.
         Option.bind (report_json h (base @ ''/api/v1/forecast/provider/status'') ''provider status''
            (\<lambda>f. ''provider='' @ field f ''provider'' @ '' ready='' @ field f ''ready'' @ '' mode='' @ field f ''mode'')
            ''Provider status endpoint is not reachable.'' d) (\<lambda>d.
         Some (if opt_str_or (fetch_text h ''http://localhost:8081'') [] \<noteq> []
               then say_ok ''expo web'' ''http://localhost:8081'' d
               else say_warn ''expo web'' ''Start Expo on port 8081 to preview the app in a browser.'' d)))))"

definition doctor_main :: "host \<Rightarrow> (int \<times> doctor) option" where
  "doctor_main h =
     map_option finish
       (check_ports_and_http h
         (check_env_files h (check_runtime_commands h (check_expected_files h (check_repo_path h new_doctor)))))"

section \<open>What the report depends on\<close>

lemma failures_say [simp]:
  "failures (say_ok l m d) = failures d" "failures (say_warn l m d) = failures d"
  "failures (say_fail l m d) = failures d + 1"
  by (simp_all add: say_ok_def say_warn_def say_fail_def)

text \<open>A command that is found and exits with 0.\<close>

definition command_works :: "host \<Rightarrow> string list \<Rightarrow> bool" where
  "command_works h command =
     (hd command \<noteq> [] \<and> (case run_command h command of Inl _ \<Rightarrow> False | Inr (out, err, code) \<Rightarrow> code = 0))"

definition failed_checks :: "host \<Rightarrow> nat" where
  "failed_checks h =
     length (filter (\<lambda>p. \<not> path_exists h p) EXPECTED_FILES) +
     length (filter (\<lambda>(label, c). \<not> command_works h c) (runtime_commands h))"

lemma failures_files:
  "failures (foldl (\<lambda>d path. if path_exists h path then say_ok ''file'' (path_str h path) d
       else say_fail ''file'' (''Missing '' @ path_str h path) d) d ps) =
   failures d + int (length (filter (\<lambda>p. \<not> path_exists h p) ps))"
  by (induction ps arbitrary: d) auto

lemma failures_command:
  "failures (check_runtime_command h d (label, c)) = failures d + (if command_works h c then 0 else 1)"
  by (auto simp: check_runtime_command_def command_works_def Let_def split: sum.splits prod.splits)

lemma failures_commands:
  "failures (foldl (check_runtime_command h) d cs) =
   failures d + int (length (filter (\<lambda>(label, c). \<not> command_works h c) cs))"
  by (induction cs arbitrary: d) (auto simp: failures_command)

lemma failures_env: "failures (check_env_files h d) = failures d"
  by (simp add: check_env_files_def Let_def)

lemma failures_repo: "failures (check_repo_path h d) = failures d"
  by (simp add: check_repo_path_def Let_def)

lemma failures_json: "report_json h url label f warning d = Some d' \<Longrightarrow> failures d' = failures d"
  by (auto simp: report_json_def split: option.splits if_splits json.splits)

lemma failures_http:
  assumes "check_ports_and_http h d = Some d'"
  shows "failures d' = failures d"
  using assms unfolding check_ports_and_http_def Let_def bind_eq_Some_conv
  by (auto dest!: failures_json simp: check_port_def split: if_splits)

lemma doctor_main_code:
  assumes "doctor_main h = Some (code, d)"
  shows "failures d = int (failed_checks h)" and "code = (if failed_checks h = 0 then 0 else 1)"
proof -
  obtain d0 where d0: "check_ports_and_http h (check_env_files h (check_runtime_commands h
      (check_expected_files h (check_repo_path h new_doctor)))) = Some d0" and f: "finish d0 = (code, d)"
    using assms by (auto simp: doctor_main_def)
  have "failures d0 = int (failed_checks h)"
    using failures_http [OF d0]
    by (simp add: failures_env check_runtime_commands_def failures_commands check_expected_files_def failures_files
        failures_repo new_doctor_def failed_checks_def)
  with f show "failures d = int (failed_checks h)" and "code = (if failed_checks h = 0 then 0 else 1)"
    by (auto simp: finish_def)
qed

text \<open>Of the two \<open>.env\<close> files the report depends on nothing but the looked up values, and of the API
  key only on whether there is one.\<close>

lemma check_env_files_cong:
  assumes "\<And>key. key \<noteq> API_KEY_KEY \<Longrightarrow> map_of (read_env h' [''.env'']) key = map_of (read_env h [''.env'']) key"
    and "env_get (read_env h' [''.env'']) API_KEY_KEY [] = [] \<longleftrightarrow> env_get (read_env h [''.env'']) API_KEY_KEY [] = []"
    and "read_env h' [''apps'', ''mobile'', ''.env''] = read_env h [''apps'', ''mobile'', ''.env'']"
    and "inside_repo h' = inside_repo h"
  shows "check_env_files h' d = check_env_files h d"
proof -
  have "env_get (read_env h' [''.env'']) key v = env_get (read_env h [''.env'']) key v" if "key \<noteq> API_KEY_KEY" for key v
    using assms(1) [OF that] by (simp add: env_get_def)
  then have same: "env_get (read_env h' [''.env'']) key v = env_get (read_env h [''.env'']) key v"
    if "key \<in> {PROVIDER_KEY, ''EARTH2_FOURCASTNET_CACHE_DIR'', ''EARTH2_FORECAST_JOB_STORE_BACKEND'',
        ''EARTH2_FORECAST_JOB_STORE_DIR'', ''EARTH2_FORECAST_JOB_RETENTION_HOURS'',
        ''EARTH2_FORECAST_JOB_STALE_TIMEOUT_SECONDS''}" for key v
    using that by (auto simp: API_KEY_KEY_def PROVIDER_KEY_def)
  show ?thesis
    unfolding check_env_files_def Let_def by (simp only: same insert_iff simp_thms assms(2-4))
qed

lemma other_checks_cong:
  "check_repo_path (h\<lparr>read_file := f\<rparr>) d = check_repo_path h d"
  "check_expected_files (h\<lparr>read_file := f\<rparr>) d = check_expected_files h d"
  "check_runtime_commands (h\<lparr>read_file := f\<rparr>) d = check_runtime_commands h d"
  "check_ports_and_http (h\<lparr>read_file := f\<rparr>) d = check_ports_and_http h d"
  by (simp_all add: check_repo_path_def check_expected_files_def check_runtime_commands_def
      check_runtime_command_def runtime_commands_def find_command_def
      check_ports_and_http_def report_json_def check_port_def cong: if_cong)

end
