(* ===== verification/Tool_Properties.thy ===== *)
theory Tool_Properties imports
  Sample_Tools
  Dev_Doctor
  Provider_Properties
begin

text \<open>
  The properties of the scripts under \<open>tools/\<close>.
\<close>

section \<open>Samples\<close>

text \<open>C39. What the smoke test saved can be replayed: when it reports success, the archive it names is
  on disk, and the replay of this archive at the same time succeeds too and reports the same members,
  lead times, provider and first step.\<close>

theorem saved_sample_replays:
  assumes "smoke_main lib dec transport dump_step st now stamp s = (ExitCode 0, s')" and "document s = None"
    and "document s' = Some doc" and "map_of doc ''ok'' = Some (JBool True)"
  shows "\<exists>path rdoc. map_of doc ''saved_tar'' = Some (JString path) \<and>
    replay_main dec dump_step (map_of (written s')) mtime saved now (Some path) = (ExitCode 0, Some rdoc) \<and>
    (\<forall>name\<in>{''ok'', ''decoded_member_count'', ''decoded_lead_hours'', ''decoded_batch_indices'',
        ''forecast_provider'', ''forecast_lead_hours'', ''first_step''}. map_of rdoc name = map_of doc name)"
proof -
  let ?path = "''data/samples/fourcastnet_hosted_'' @ stamp @ ''.tar''"
  obtain r content decoded f where c: "decode_tar_bytes dec content = Inr decoded"
    "build_summary_from_tar_bytes dec now content smoke_request SEOUL_LATITUDE SEOUL_LONGITUDE (Some now) = Inr f"
    "map_of (written s') ?path = Some content" and doc: "doc = smoke_ok_document dump_step r ?path decoded f"
    by (rule smoke_main_ok [OF assms(1,3,4,2)]) (rule that)
  have "build_summary_from_tar_bytes dec now content replay_request SEOUL_LATITUDE SEOUL_LONGITUDE (Some now) = Inr f"
    using c(2) build_summary_request [of replay_request smoke_request] by (simp add: replay_request_def)
  note replay = replay_main_ok [where files = "map_of (written s')", OF c(3,1) this, of dump_step mtime saved]
  show ?thesis
    by (intro exI conjI, rule_tac [2] replay) (simp_all add: doc smoke_ok_document_def forecast_fields_def)
qed

definition ex_tool_settings :: app_settings where
  "ex_tool_settings =
     \<lparr>set_app_name = [], set_environment = [], set_forecast_provider = SelectFourCastNet, set_endpoint_mode = Hosted,
      set_nim_base_url = [], set_hosted_url = ''https://host/infer'', set_status_url = [],
      set_nvidia_api_key = Some ''key'', set_max_poll_attempts = 20, set_poll_interval_seconds = Fin 1,
      set_cache_enabled = False\<rparr>"

definition ex_tool_state :: "unit tool_state" where
  "ex_tool_state = \<lparr>net = (), sent = [], sleeps = 0, written = [], document = None\<rparr>"

lemma ex_seoul:
  obtains la lo where "SEOUL_LATITUDE = Fin la" and "- 90 \<le> la" and "la \<le> 90"
    and "SEOUL_LONGITUDE = Fin lo" and "- 180 \<le> lo" and "lo \<le> 180"
proof -
  obtain la where "SEOUL_LATITUDE = Fin la" "of_int (- 90) \<le> la" "la \<le> of_int 90"
    using decimal_value [of "- 90" 375665 4 90] by (auto simp: SEOUL_LATITUDE_def)
  moreover obtain lo where "SEOUL_LONGITUDE = Fin lo" "of_int (- 180) \<le> lo" "lo \<le> of_int 180"
    using decimal_value [of "- 180" 1269780 4 180] by (auto simp: SEOUL_LONGITUDE_def)
  ultimately show thesis using that by simp
qed

lemma ex_seoul_forecast:
  "\<exists>f. build_summary_from_tar_bytes ex_decoder 63900000000000000 b smoke_request SEOUL_LATITUDE SEOUL_LONGITUDE
     (Some 63900000000000000) = Inr f"
proof -
  obtain la lo where l: "SEOUL_LATITUDE = Fin la" "- 90 \<le> la" "la \<le> 90" "SEOUL_LONGITUDE = Fin lo" "- 180 \<le> lo" "lo \<le> 180"
    by (rule ex_seoul)
  have req: "req_variables smoke_request = req_variables point_request" by (simp add: smoke_request_def point_request_def)
  show ?thesis unfolding l(1,4)
  proof (rule build_summary_total [OF ex_load])
    show "\<forall>m\<in>set (select_batch_members [ex_member]). array_usable (length (req_variables smoke_request)) (dm_array m)"
      using ex_array_ok by (simp only: ex_select req ex_variables) (simp add: ex_member_def)
  qed (simp_all add: l ex_decoder_ok req ex_variables datetime_max_def)
qed

definition ex_smoke :: "tool_exit \<times> unit tool_state" where
  "ex_smoke =
     smoke_main (nim_lib.truncate ex_artifact_lib) ex_decoder ex_ready (\<lambda>_. JNull) ex_tool_settings 63900000000000000 ''now''
       ex_tool_state"

lemma ex_smoke_run:
  "\<exists>s' doc. ex_smoke = (ExitCode 0, s') \<and> document s' = Some doc \<and> map_of doc ''ok'' = Some (JBool True)"
proof -
  let ?lib = "nim_lib.truncate ex_artifact_lib"
  have "(case run_hosted_inference ?lib (smoke_client ex_tool_settings ''key'') ex_ready smoke_request ex_tool_state of
      (Inr r, s1) \<Rightarrow> res_raw_content r = Some ''tar'' \<and> detect_format (res_content_type r) = FormatTar | _ \<Rightarrow> False)"
    by code_simp
  then obtain r s1 where run: "run_hosted_inference ?lib (smoke_client ex_tool_settings ''key'') ex_ready smoke_request ex_tool_state = (Inr r, s1)"
    and r: "res_raw_content r = Some ''tar''" "detect_format (res_content_type r) = FormatTar"
    by (auto split: prod.splits sum.splits)
  obtain d where d: "decode_hosted_result ex_decoder r = Inr (Some d)"
    by (simp add: decode_hosted_result_def r decode_tar_bytes_def ex_load Let_def)
  obtain f where "build_summary_from_hosted_result ex_decoder 63900000000000000 r smoke_request SEOUL_LATITUDE SEOUL_LONGITUDE
      (Some 63900000000000000) = Inr f"
    using ex_seoul_forecast [of "''tar''"] by (auto simp: build_summary_from_hosted_result_def r)
  moreover have "set_nvidia_api_key ex_tool_settings = Some ''key''" by (simp add: ex_tool_settings_def)
  ultimately show ?thesis
    by (simp add: ex_smoke_def smoke_main_def run d Let_def smoke_ok_document_def)
qed

theorem saved_sample_replays_witness:
  "\<exists>path rdoc. replay_main ex_decoder (\<lambda>_. JNull) (map_of (written (snd ex_smoke))) (\<lambda>_. 0) [] 63900000000000000 (Some path) =
     (ExitCode 0, Some rdoc)"
proof -
  obtain s' doc where run: "ex_smoke = (ExitCode 0, s')" "document s' = Some doc" "map_of doc ''ok'' = Some (JBool True)"
    using ex_smoke_run by blast
  have start: "document ex_tool_state = None" by (simp add: ex_tool_state_def)
  from saved_sample_replays [OF run(1) [unfolded ex_smoke_def] start run(2,3), of "\<lambda>_. 0" "[]"] show ?thesis
    unfolding run(1) snd_conv by blast
qed

section \<open>The doctor\<close>

text \<open>The exit code of the doctor says what it found: it is 0 exactly when every expected file
  exists and every runtime command is found and exits with 0; the failures it counts are exactly the
  others. What it finds in the \<open>.env\<close> files, on the ports and over HTTP is at most a warning.\<close>

theorem doctor_exit_code:
  assumes "doctor_main h = Some (code, d)"
  shows "(code = 0 \<longleftrightarrow> (\<forall>p\<in>set EXPECTED_FILES. path_exists h p) \<and> (\<forall>(label, c)\<in>set (runtime_commands h). command_works h c)) \<and>
    code \<in> {0, 1} \<and>
    failures d = int (length (filter (\<lambda>p. \<not> path_exists h p) EXPECTED_FILES)) +
      int (length (filter (\<lambda>(label, c). \<not> command_works h c) (runtime_commands h)))"
  using doctor_main_code [OF assms]
  by (auto simp: failed_checks_def filter_empty_conv split: if_splits)

definition ex_host :: "string \<Rightarrow> host" where
  "ex_host env =
     \<lparr>root_path = ''/repo'', root_parts = [''repo''], on_windows = False, same_root = None,
      path_exists = (\<lambda>p. p \<noteq> [''pyproject.toml'']), path_str = concat, which = (\<lambda>c. Some c),
      run_command = (\<lambda>c. Inr (''1.0'', [], 0)),
      read_file = (\<lambda>p. if p = [''.env''] then Some env else None), inside_repo = (\<lambda>d. True), port_open = (\<lambda>a p. False),
      fetch_json = (\<lambda>u. None), fetch_text = (\<lambda>u. None), py_str = (\<lambda>v. [])\<rparr>"

lemma ex_doctor_total: "\<exists>code d. doctor_main (ex_host env) = Some (code, d)"
  by (simp add: doctor_main_def check_ports_and_http_def report_json_def ex_host_def Let_def finish_def)

theorem doctor_exit_code_witness: "\<exists>d. doctor_main (ex_host []) = Some (1, d) \<and> failures d = 1"
proof -
  obtain code d where d: "doctor_main (ex_host []) = Some (code, d)" using ex_doctor_total by blast
  have "\<not> (\<forall>p\<in>set EXPECTED_FILES. path_exists (ex_host []) p)"
    by (simp add: EXPECTED_FILES_def ex_host_def)
  moreover have "length (filter (\<lambda>p. \<not> path_exists (ex_host []) p) EXPECTED_FILES) = 1"
    by (simp add: EXPECTED_FILES_def ex_host_def)
  moreover have "filter (\<lambda>(label, c). \<not> command_works (ex_host []) c) (runtime_commands (ex_host [])) = []"
    by (simp add: runtime_commands_def command_works_def find_command_def opt_str_or_def str_or_def ex_host_def)
  ultimately show ?thesis using doctor_exit_code [OF d] d by auto
qed

text \<open>The doctor does not give the API key away: two machines that differ only in the contents of
  the backend's \<open>.env\<close> file, and there only in the value of a key that both have set, get the same
  report, line by line.\<close>

theorem doctor_hides_api_key:
  assumes "read_file h [''.env''] = Some env" and "f [''.env''] = Some env'"
    and "\<forall>path. path \<noteq> [''.env''] \<longrightarrow> f path = read_file h path"
    and "\<forall>key. key \<noteq> API_KEY_KEY \<longrightarrow> map_of (parse_env env') key = map_of (parse_env env) key"
    and "env_get (parse_env env) API_KEY_KEY [] \<noteq> []" and "env_get (parse_env env') API_KEY_KEY [] \<noteq> []"
  shows "doctor_main (h\<lparr>read_file := f\<rparr>) = doctor_main h"
proof -
  have "check_env_files (h\<lparr>read_file := f\<rparr>) d = check_env_files h d" for d
    by (rule check_env_files_cong) (use assms in \<open>simp_all add: read_env_def\<close>)
  then show ?thesis by (simp add: doctor_main_def other_checks_cong)
qed

theorem doctor_hides_api_key_witness:
  "doctor_main (ex_host ''EARTH2_NVIDIA_API_KEY=a'') = doctor_main (ex_host ''EARTH2_NVIDIA_API_KEY=b'')"
proof -
  let ?h = "ex_host ''EARTH2_NVIDIA_API_KEY=b''" let ?f = "read_file (ex_host ''EARTH2_NVIDIA_API_KEY=a'')"
  have p: "parse_env ''EARTH2_NVIDIA_API_KEY=a'' = [(API_KEY_KEY, ''a'')]"
    "parse_env ''EARTH2_NVIDIA_API_KEY=b'' = [(API_KEY_KEY, ''b'')]" by code_simp+
  have files: "read_file (ex_host e) [''.env''] = Some e" "path \<noteq> [''.env''] \<Longrightarrow> read_file (ex_host e) path = None" for e path
    by (simp_all add: ex_host_def)
  have same: "?h\<lparr>read_file := ?f\<rparr> = ex_host ''EARTH2_NVIDIA_API_KEY=a''" by (simp add: ex_host_def)
  have "doctor_main (?h\<lparr>read_file := ?f\<rparr>) = doctor_main ?h"
  proof (rule doctor_hides_api_key [where h = ?h and f = ?f, OF files(1) files(1)])
    show "\<forall>path. path \<noteq> [''.env''] \<longrightarrow> ?f path = read_file ?h path"
      by (intro allI impI trans [OF files(2) files(2) [symmetric]])
  qed (simp_all only: p, simp_all add: env_get_def)
  then show ?thesis by (simp only: same)
qed

end
