(* ===== verification/Spec2Isabelle.thy ===== *)
theory Spec2Isabelle imports
  Job_Properties
  Dispatch_Properties
  Edge_Properties
  Provider_Properties
  Service_Properties
  Application_Properties
  Tool_Properties
begin

text \<open>
  A model of the Earth-2 forecast backend and what makes it correct. Unless another directory is named,
  a file below is one of \<open>src/src/earth2_sandbox\<close>.

  \<^bold>\<open>The program.\<close> Clients ask over HTTP for the forecast at a coordinate, either at once
  (\<open>/forecast/point\<close>) or as a job that they create, poll, cancel, retry and clean up. A job is a
  document in a job store (memory or one JSON file each). Workers take job ids from a dispatch queue
  (memory or Redis), ask a forecast provider, and write the result into the job. A provider is either
  a deterministic mock or the hosted FourCastNet model, with an HTTP client, a result cache over an
  artifact store and a decoder of the archive the model returns. When the process starts, recovery
  puts the interrupted jobs back into the queue. Middlewares check API keys, limit the rate, set
  request ids and count requests.

  \<^bold>\<open>How code becomes definitions.\<close> A pydantic model or dataclass is a \<open>record\<close>, a \<open>Literal\<close> a
  \<open>datatype\<close>. A method that changes state is a \<open>handler\<close>: a function from a state to a result and a
  state, where \<open>Inl\<close> is the exception it raises; \<open>bindM\<close>, \<open>raiseM\<close> and \<open>catchM\<close> are the sequence,
  \<open>raise\<close> and \<open>try\<close> of the source. Clocks and id generators are streams read by the handlers. Python
  floats are exact rationals, infinities or NaN, with every arithmetic result rounded to binary64;
  its integers are \<open>int\<close>; text and bytes are lists of 8-bit characters, with case and white space as
  in ASCII. A datetime is the number of microseconds since year 1, and an operation that leaves the
  range of years 1 to 9999 is the exception Python raises.

  \<^bold>\<open>Which theory models what.\<close>

  \<^item> \<open>Prelude\<close>, \<open>Python_Float\<close>, \<open>Python_Uuid\<close>: what the program uses of Python itself.
  \<^item> \<open>Job_Domain\<close>, \<open>Forecast_Schema\<close>, \<open>FourCastNet_Schema\<close>, \<open>Metrics\<close>: \<open>domain/jobs\<close>,
    \<open>application/errors.py\<close>, \<open>schemas\<close>, \<open>observability/metrics.py\<close>.
  \<^item> \<open>Job_Store\<close>, \<open>Job_Store_Port\<close>, \<open>Memory_Store\<close>, \<open>File_Store\<close>: the port, its contract (locale
    \<open>job_store\<close>: every method simulates the one of a map from ids to jobs) and
    \<open>infrastructure/storage\<close>.
  \<^item> \<open>Job_View\<close>, \<open>Job_Commands\<close>, \<open>Job_Recovery\<close>: \<open>application/services/forecast_job_view.py\<close>,
    \<open>application/commands\<close>, \<open>forecast_job_recovery_service.py\<close>. \<open>RunForecastJob.execute\<close> is cut at the
    await of the provider into \<open>run_start\<close> and \<open>run_finish\<close>.
  \<^item> \<open>Job_Lifecycle\<close>, \<open>Job_System\<close>: the life of one job (\<open>job_change\<close>) and the running service as a
    transition system of interleaved handlers and restarts, with its invariant \<open>sys_inv\<close>.
  \<^item> \<open>Queue_Port\<close>, \<open>Memory_Queue\<close>, \<open>Redis_Queue\<close>, \<open>Worker_System\<close>, \<open>Job_Dispatch\<close>: the queue port, its
    contract (locale \<open>forecast_queue\<close>: every method simulates the one of an ordered list with a map
    of items in flight), \<open>infrastructure/queue\<close> with both Lua scripts, the worker tasks as a step
    relation over any schedule, the references a worker keeps to them, and drains that run jobs to
    their end.
  \<^item> \<open>Nim_Client\<close>, \<open>Artifact_Cache\<close>, \<open>FourCastNet_Decoder\<close>, \<open>FourCastNet_Provider\<close>, \<open>Mock_Provider\<close>,
    \<open>Provider_Port\<close>: \<open>infrastructure/nvidia\<close>, \<open>storage/fourcastnet.py\<close>,
    \<open>infrastructure/storage/local_artifact_store.py\<close>, \<open>infrastructure/providers\<close>; the theories
    whose names end in \<open>Correct\<close>, and \<open>Decoder_Forecast\<close>, hold the lemmas about them. The locale
    \<open>provider_port\<close> says that what a provider answers can be recorded with a job.
  \<^item> \<open>Http_Security\<close>, \<open>Job_Api\<close>, \<open>Forecast_Api\<close>, \<open>Api_Routes\<close>: \<open>api/http\<close> with the stack of middlewares
    and the table of routes that \<open>app_factory.py\<close> puts together.
  \<^item> \<open>Request_Cycle\<close>: a request to the job API with the background work it leaves behind.
  \<^item> \<open>Structured_Log\<close>: \<open>observability/structured_logging.py\<close>, \<open>request_context.py\<close> and the events that the
    program logs.
  \<^item> \<open>Application\<close>: \<open>bootstrap/container.py\<close>, the service facade, every method of which
    simulates that of the same facade over the abstract map, and the startup in
    \<open>bootstrap/app_factory.py\<close>.
  \<^item> \<open>Dev_Doctor\<close>, \<open>Sample_Tools\<close>: the scripts of \<open>src/tools\<close>.
  \<^item> \<open>Fixtures\<close>: the concrete states at which the properties are instantiated.

  \<^bold>\<open>What the theorems show.\<close>

  \<^item> \<open>Job_Properties\<close>: under every interleaving of requests, workers and restarts, terminal jobs stay as
    they are, stored jobs are consistent, running jobs are attended by exactly one provider call,
    histories only grow; both stores refine the abstract one; recovery loses no job.
  \<^item> \<open>Dispatch_Properties\<close>: both queues refine the abstract one; the dispatch order is the stable sort by
    priority; drains end and finish their jobs; under every schedule of the worker tasks no job runs
    twice at once, none is left behind, and the tasks come to an end; and how it fails: items in
    flight that no process holds, exceptions that end a drain, diagnostics that do not fit.
  \<^item> \<open>Service_Properties\<close>: a job created over HTTP has ended when the work of its request is done, and
    polling says so; a client without a key changes nothing behind the routes; which routes are open
    and which are limited, over the whole table; a log event is one line that reads back.
  \<^item> \<open>Edge_Properties\<close>: what every job route answers and does; keys, rate limit, request accounting; label
    and job-id round trips.
  \<^item> \<open>Provider_Properties\<close>: decoded forecasts are consistent and in range, which exceptions the decoder
    has, which grid cell is sampled; the client's requests are bounded and keep the key to the
    configured URLs; the cache serves what it stored; jobs run with the hosted model end.
  \<^item> \<open>Application_Properties\<close>: every supported configuration is put together from parts that keep their
    contracts, and its startup ends with no job queued or running.
  \<^item> \<open>Tool_Properties\<close>: a saved sample replays to the same report; the doctor's report does not depend on
    the API key.

  \<^bold>\<open>Bounds.\<close> The Redis score of priority and sequence is exact for fewer than \<open>10^12\<close> enqueued items,
  which \<open>redis_room\<close> says. \<open>poll_loop\<close> and the other loops terminate by a measure; only
  \<open>drain_queue\<close>, a loop without a bound in the source, is a \<open>partial_function\<close> whose \<open>None\<close> is not
  returning, and that it returns is proved.

  \<^bold>\<open>Parameters.\<close> What is not in the repository is an argument: pydantic's JSON codec (\<open>codec_ok\<close>: a
  storable job is read back as it was written), the Redis commands (\<open>redis_laws\<close>), tarfile and numpy
  (\<open>decoder_lib_ok\<close>: a loaded array has as many values as its shape says, each a double), sha256 and
  json (\<open>artifact_lib_ok\<close>), sine and cosine (\<open>math_lib_ok\<close>), the HTTP transport (anything), the
  text of a float (anything). Each set of laws has a concrete instance in a witness.

  \<^bold>\<open>Not modelled.\<close> The log inside the handlers, which do not read it (the events are functions of the
  jobs at hand); the CORS middleware and the framework's own routes and redirects, where the router and
  the middlewares are taken to see the same path; the coercions of pydantic from JSON, of which only
  the constraints are checked; request timeouts, which are failures of the transport; the rounding of the
  clock inside the rate limiter, whose times are rationals; arrays of element types for which \<open>numpy.isfinite\<close> raises; the entry
  points, which only call \<open>create_app\<close>, and the modules that only re-export names.
\<close>

end
